(* ===== verification/Prelude.thy ===== *)
theory Prelude
  imports Main
begin

text \<open>
  Shared vocabulary of the development: the error values of the Go code, programs that
  pass a state and may return, panic or block, the endpoints of network connections,
  and the two reasoning tools every component uses (preservation of an invariant by a
  program, invariants of transition systems).
\<close>

section \<open>Lists\<close>

lemma list_of_images:
  assumes "set ns \<subseteq> {f m | m. P m}"
  shows "\<exists>ms. ns = map f ms \<and> list_all P ms"
  using assms
proof (induction ns)
  case (Cons n ns)
  then obtain m ms where "n = f m" "P m" "ns = map f ms" "list_all P ms" by auto
  then show ?case by (intro exI [of _ "m # ms"]) simp
qed simp

section \<open>Errors\<close>

text \<open>
  An \<open>error\<close> value of the code. \<open>Err s\<close> is an error made from the format string \<open>s\<close>;
  \<open>Wrap s e\<close> is \<open>fmt.Errorf(s, e)\<close> with the cause \<open>e\<close> (verbs \<open>%w\<close> or \<open>%v\<close>). The other
  arguments of a format string are not kept.
\<close>

datatype error = Err string | Wrap string error

text \<open>\<open>x, err := m; if err != nil { return err }\<close> for a function without effects.\<close>

definition bindE :: "error + 'a \<Rightarrow> ('a \<Rightarrow> error + 'b) \<Rightarrow> error + 'b" where
  "bindE m f = (case m of Inl e \<Rightarrow> Inl e | Inr a \<Rightarrow> f a)"

named_theorems result_iff \<open>when a fallible function returns a value\<close>

lemma bindE_Inr [result_iff]: "bindE m f = Inr y \<longleftrightarrow> (\<exists>x. m = Inr x \<and> f x = Inr y)"
  by (simp add: bindE_def split: sum.split)

lemma bindE_simps [simp]: "bindE (Inr a) f = f a" "bindE (Inl e) f = Inl e"
  by (simp_all add: bindE_def)

section \<open>Programs\<close>

text \<open>
  A Go function runs in a world and ends in one of four ways: it returns a value, it
  panics (a nil dereference), it ends the process (\<open>log.Fatal\<close>), or it blocks for ever in
  an operation that is never completed (or, when no goroutine of the process can go on, is ended
  there by the deadlock detector of the runtime). A Go function of result type \<open>(T, error)\<close> returns \<open>error + T\<close>.
\<close>

datatype 'a outcome = Ret 'a | Panic | Exit | Blocked

type_synonym ('w, 'a) prog = "'w \<Rightarrow> 'a outcome \<times> 'w"

definition ret :: "'a \<Rightarrow> ('w, 'a) prog" where
  "ret a w = (Ret a, w)"

definition panic :: "('w, 'a) prog" where
  "panic w = (Panic, w)"

definition exit :: "('w, 'a) prog" where
  "exit w = (Exit, w)"

definition gets :: "('w \<Rightarrow> 'a) \<Rightarrow> ('w, 'a) prog" where
  "gets f w = (Ret (f w), w)"

definition modify :: "('w \<Rightarrow> 'w) \<Rightarrow> ('w, unit) prog" where
  "modify f w = (Ret (), f w)"

text \<open>\<open>m; f\<close>: the rest of the function runs only when \<open>m\<close> has returned.\<close>

definition andThen :: "('w, 'a) prog \<Rightarrow> ('a \<Rightarrow> ('w, 'b) prog) \<Rightarrow> ('w, 'b) prog" where
  "andThen m f w = (case m w of
     (Ret a, w') \<Rightarrow> f a w'
   | (Panic, w') \<Rightarrow> (Panic, w')
   | (Exit, w') \<Rightarrow> (Exit, w')
   | (Blocked, w') \<Rightarrow> (Blocked, w'))"

text \<open>\<open>x, err := m; if err != nil { h }; f\<close>\<close>

definition ifErr :: "('w, error + 'a) prog \<Rightarrow> (error \<Rightarrow> ('w, 'b) prog) \<Rightarrow>
    ('a \<Rightarrow> ('w, 'b) prog) \<Rightarrow> ('w, 'b) prog" where
  "ifErr m h f = andThen m (\<lambda>r. case r of Inl e \<Rightarrow> h e | Inr a \<Rightarrow> f a)"

text \<open>
  \<open>defer d; m\<close>: the deferred call runs when the body has returned and also while it
  panics; a body that blocks never reaches it, and a process that exits skips it.
\<close>

definition deferring :: "('w, unit) prog \<Rightarrow> ('w, 'a) prog \<Rightarrow> ('w, 'a) prog" where
  "deferring d m w = (case m w of
     (Blocked, w') \<Rightarrow> (Blocked, w')
   | (Exit, w') \<Rightarrow> (Exit, w')
   | (r, w') \<Rightarrow> (case d w' of
        (Ret _, w'') \<Rightarrow> (r, w'')
      | (Panic, w'') \<Rightarrow> (Panic, w'')
      | (Exit, w'') \<Rightarrow> (Exit, w'')
      | (Blocked, w'') \<Rightarrow> (Blocked, w'')))"

text \<open>A program on a part of the world, run on the whole world.\<close>

definition zoom :: "('w \<Rightarrow> 'e) \<Rightarrow> (('e \<Rightarrow> 'e) \<Rightarrow> 'w \<Rightarrow> 'w) \<Rightarrow> ('e, 'a) prog \<Rightarrow> ('w, 'a) prog" where
  "zoom get upd m w = (case m (get w) of (r, e') \<Rightarrow> (r, upd (\<lambda>_. e') w))"

named_theorems prog_simps \<open>evaluation of program combinators\<close>

declare ret_def [prog_simps] panic_def [prog_simps] exit_def [prog_simps] gets_def [prog_simps]
  modify_def [prog_simps] andThen_def [prog_simps] ifErr_def [prog_simps]
  deferring_def [prog_simps] zoom_def [prog_simps]

lemma andThen_ret [simp]: "andThen (ret a) f = f a"
  by (rule ext) (simp add: prog_simps)

lemma ret_andThen [simp]: "andThen m ret = m"
  by (rule ext) (simp add: prog_simps split: outcome.splits prod.splits)

lemma andThen_assoc: "andThen (andThen m f) g = andThen m (\<lambda>a. andThen (f a) g)"
  by (rule ext) (simp add: prog_simps split: outcome.splits prod.splits)

lemma ifErr_ret [simp]: "ifErr (ret (Inr a)) h f = f a" "ifErr (ret (Inl e)) h f = h e"
  by (simp_all add: ifErr_def)

section \<open>What a program keeps\<close>

text \<open>
  \<open>related R m\<close>: the world after \<open>m\<close>, however it ends, is related to the world before
  it. With \<open>R\<close> a preorder this composes, which the locale \<open>frame\<close> states once; the
  interpretations give frame conditions (what a program leaves alone) and monotonicity
  (what only grows).
\<close>

definition related :: "('w \<Rightarrow> 'w \<Rightarrow> bool) \<Rightarrow> ('w, 'a) prog \<Rightarrow> bool" where
  "related R m \<longleftrightarrow> (\<forall>w. R w (snd (m w)))"

lemma relatedI: "(\<And>w. R w (snd (m w))) \<Longrightarrow> related R m"
  by (simp add: related_def)

lemma related_snd: "related R m \<Longrightarrow> R w (snd (m w))"
  by (simp add: related_def)

lemma relatedD: "related R m \<Longrightarrow> m w = (r, w') \<Longrightarrow> R w w'"
  by (metis related_def snd_conv)

locale frame =
  fixes R :: "'w \<Rightarrow> 'w \<Rightarrow> bool"
  assumes R_refl: "R w w"
    and R_trans: "R u v \<Longrightarrow> R v w \<Longrightarrow> R u w"
begin

lemma related_ret: "related R (ret a)"
  by (simp add: related_def prog_simps R_refl)

lemma related_panic: "related R panic"
  by (simp add: related_def prog_simps R_refl)

lemma related_exit: "related R exit"
  by (simp add: related_def prog_simps R_refl)

lemma related_gets: "related R (gets f)"
  by (simp add: related_def prog_simps R_refl)

lemma related_andThen:
  assumes "related R m" and "\<And>a. related R (f a)"
  shows "related R (andThen m f)"
proof (rule relatedI)
  fix w
  obtain r w' where m: "m w = (r, w')" by fastforce
  with assms(1) have "R w w'" by (auto dest: relatedD)
  with m assms(2) show "R w (snd (andThen m f w))"
    by (cases r) (auto simp: prog_simps related_def intro: R_trans)
qed

lemma related_ifErr:
  assumes "related R m" and "\<And>e. related R (h e)" and "\<And>a. related R (f a)"
  shows "related R (ifErr m h f)"
  using assms by (auto simp: ifErr_def intro!: related_andThen split: sum.split)

text \<open>From the world after the first part on.\<close>

lemma related_after:
  assumes "m w = (r, w1)" and "\<And>e. related R (h e)" and "\<And>a. related R (f a)"
  shows "R w1 (snd (ifErr m h f w))"
proof (cases r)
  case (Ret x)
  with assms show ?thesis by (cases x) (auto simp: prog_simps related_def)
qed (use assms(1) in \<open>simp_all add: prog_simps R_refl\<close>)

lemma related_after_deferring:
  assumes "m w = (r, w1)" and "related R d"
  shows "R w1 (snd (deferring d m w))"
proof -
  obtain q w2 where d: "d w1 = (q, w2)" by fastforce
  with assms(2) have "R w1 w2" by (rule relatedD)
  with assms(1) d show ?thesis by (cases r; cases q) (simp_all add: prog_simps R_refl)
qed

lemma related_deferring:
  assumes "related R m" and "related R d"
  shows "related R (deferring d m)"
proof (rule relatedI)
  fix w
  obtain r w' where m: "m w = (r, w')" by fastforce
  obtain q w'' where d: "d w' = (q, w'')" by fastforce
  from m d assms have "R w w'" "R w' w''" by (auto dest: relatedD)
  with m d show "R w (snd (deferring d m w))"
    by (cases r; cases q) (auto simp: prog_simps intro: R_trans)
qed

lemmas related_rules = related_ret related_panic related_exit related_gets related_andThen
  related_ifErr related_deferring

end

section \<open>Loops\<close>

text \<open>
  \<open>for { ... }\<close>: the body takes the loop's variables and either goes on with new ones
  (\<open>Inl\<close>) or leaves the function with a result (\<open>Inr\<close>). Each loop of the code receives a
  message in each round, so \<open>todo\<close>, the number of messages still to come, decreases. The
  test in the definition makes the recursion well-founded for any body; the locale shows
  that it never matters for a body that makes progress.
\<close>

function forLoop :: "('w \<Rightarrow> nat) \<Rightarrow> ('s \<Rightarrow> ('w, 's + 'r) prog) \<Rightarrow> 's \<Rightarrow> ('w, 'r) prog" where
  "forLoop todo body s w = (case body s w of
     (Ret (Inl s'), w') \<Rightarrow>
       (if todo w' < todo w then forLoop todo body s' w' else (Blocked, w'))
   | (Ret (Inr r), w') \<Rightarrow> (Ret r, w')
   | (Panic, w') \<Rightarrow> (Panic, w')
   | (Exit, w') \<Rightarrow> (Exit, w')
   | (Blocked, w') \<Rightarrow> (Blocked, w'))"
  by pat_completeness auto
termination
  by (relation "measure (\<lambda>(todo, body, s, w). todo w)") auto

declare forLoop.simps [simp del]

text \<open>
  The rounds of the loop in the code, without the guard: a round that goes on, and the last
  one with what it makes of the loop. A loop terminates when from every start there is a bound
  on the rounds that go on, and its result is that of the code's rounds.
\<close>

definition goes_on :: "('s \<Rightarrow> ('w, 's + 'r) prog) \<Rightarrow> 's \<times> 'w \<Rightarrow> 's \<times> 'w \<Rightarrow> bool" where
  "goes_on body x y \<longleftrightarrow> body (fst x) (snd x) = (Ret (Inl (fst y)), snd y)"

definition last_round :: "('s \<Rightarrow> ('w, 's + 'r) prog) \<Rightarrow> 's \<times> 'w \<Rightarrow> 'r outcome \<times> 'w \<Rightarrow> bool" where
  "last_round body x result \<longleftrightarrow> (case body (fst x) (snd x) of
     (Ret (Inl s'), w') \<Rightarrow> False
   | (Ret (Inr r), w') \<Rightarrow> result = (Ret r, w')
   | (Panic, w') \<Rightarrow> result = (Panic, w')
   | (Exit, w') \<Rightarrow> result = (Exit, w')
   | (Blocked, w') \<Rightarrow> result = (Blocked, w'))"

definition loop_terminates :: "('w \<Rightarrow> nat) \<Rightarrow> ('s \<Rightarrow> ('w, 's + 'r) prog) \<Rightarrow> ('s \<Rightarrow> ('w, 'r) prog) \<Rightarrow> bool" where
  "loop_terminates todo body loop \<longleftrightarrow> (\<forall>s w.
     (\<forall>n x. (goes_on body ^^ n) (s, w) x \<longrightarrow> n + todo (snd x) \<le> todo w)
   \<and> (\<exists>n x. (goes_on body ^^ n) (s, w) x \<and> last_round body x (loop s w)))"

context frame
begin

lemma related_forLoop:
  assumes "\<And>s. related R (body s)"
  shows "related R (forLoop todo body s)"
proof -
  have "R w (snd (forLoop todo body s w))" for w
  proof (induction "todo w" arbitrary: s w rule: less_induct)
    case less
    obtain r w1 where b: "body s w = (r, w1)" by fastforce
    with assms have "R w w1" by (rule relatedD)
    with b less show ?case
      by (subst forLoop.simps) (auto split: outcome.split sum.split intro: R_trans)
  qed
  then show ?thesis by (simp add: related_def)
qed

lemma related_forLoop_where:
  assumes "\<And>s. P s \<Longrightarrow> related R (body s)"
    and "\<And>s w s' w'. P s \<Longrightarrow> body s w = (Ret (Inl s'), w') \<Longrightarrow> P s'"
    and "P s"
  shows "related R (forLoop todo body s)"
proof -
  have "R w (snd (forLoop todo body s w))" for w
    using assms(3)
  proof (induction "todo w" arbitrary: s w rule: less_induct)
    case less
    obtain r w1 where b: "body s w = (r, w1)" by fastforce
    with assms(1) less.prems have "R w w1" by (auto dest: relatedD)
    with b less assms(2) show ?case
      by (subst forLoop.simps) (auto split: outcome.split sum.split intro: R_trans)
  qed
  then show ?thesis by (simp add: related_def)
qed

end

locale progress_loop =
  fixes todo :: "'w \<Rightarrow> nat" and body :: "'s \<Rightarrow> ('w, 's + 'r) prog"
  assumes progress: "body s w = (Ret (Inl s'), w') \<Longrightarrow> todo w' < todo w"
begin

lemma unfold:
  "forLoop todo body s = andThen (body s)
     (\<lambda>r. case r of Inl s' \<Rightarrow> forLoop todo body s' | Inr r \<Rightarrow> ret r)"
  by (rule ext) (subst forLoop.simps, auto simp: prog_simps dest: progress
      split: prod.split outcome.split sum.split)

lemma rounds_bounded: "(goes_on body ^^ n) x y \<Longrightarrow> n + todo (snd y) \<le> todo (snd x)"
proof (induction n arbitrary: y)
  case (Suc n)
  then obtain z where z: "(goes_on body ^^ n) x z" and "goes_on body z y" by auto
  then have "todo (snd y) < todo (snd z)" by (auto simp: goes_on_def dest: progress)
  with Suc.IH [OF z] show ?case by simp
qed simp

lemma result_of_rounds: "\<exists>n x. (goes_on body ^^ n) (s, w) x \<and> last_round body x (forLoop todo body s w)"
proof (induction "todo w" arbitrary: s w rule: less_induct)
  case less
  obtain r w1 where b: "body s w = (r, w1)" by fastforce
  show ?case
  proof (cases "\<exists>s'. r = Ret (Inl s')")
    case True
    then obtain s' where s': "body s w = (Ret (Inl s'), w1)" using b by blast
    then have g: "goes_on body (s, w) (s', w1)" and f: "forLoop todo body s w = forLoop todo body s' w1"
      by (simp_all add: goes_on_def unfold prog_simps)
    from less.hyps [OF progress [OF s']] obtain n x where
      "(goes_on body ^^ n) (s', w1) x" "last_round body x (forLoop todo body s' w1)" by blast
    with g f show ?thesis by (intro exI [of _ "Suc n"] exI [of _ x] conjI relpowp_Suc_I2) simp_all
  next
    case False
    with b have "last_round body (s, w) (forLoop todo body s w)"
      by (cases r) (auto simp: last_round_def unfold prog_simps split: sum.split)
    then show ?thesis by (intro exI [of _ 0] exI [of _ "(s, w)"]) simp
  qed
qed

lemma terminates: "loop_terminates todo body (forLoop todo body)"
  unfolding loop_terminates_def using rounds_bounded result_of_rounds by fastforce

lemma invariant:
  assumes "forLoop todo body s w = (out, w')" and "I s w"
    and keep: "\<And>s w s' w'. I s w \<Longrightarrow> body s w = (Ret (Inl s'), w') \<Longrightarrow> I s' w'"
    and leave: "\<And>s w r w'. I s w \<Longrightarrow> body s w = (Ret (Inr r), w') \<Longrightarrow> Q (Ret r) w'"
    and stuck: "\<And>s w w'. I s w \<Longrightarrow> body s w = (Panic, w') \<Longrightarrow> Q Panic w'"
      "\<And>s w w'. I s w \<Longrightarrow> body s w = (Exit, w') \<Longrightarrow> Q Exit w'"
      "\<And>s w w'. I s w \<Longrightarrow> body s w = (Blocked, w') \<Longrightarrow> Q Blocked w'"
  shows "Q out w'"
  using assms(1,2)
proof (induction "todo w" arbitrary: s w rule: less_induct)
  case less
  obtain r w1 where b: "body s w = (r, w1)" by fastforce
  show ?case
  proof (cases r)
    case (Ret q)
    show ?thesis
    proof (cases q)
      case (Inl s')
      with b Ret have b': "body s w = (Ret (Inl s'), w1)" by simp
      with less.prems(1) have "forLoop todo body s' w1 = (out, w')"
        by (subst (asm) unfold) (simp add: prog_simps)
      with less.hyps [OF progress [OF b']] keep [OF less.prems(2) b'] show ?thesis by blast
    next
      case (Inr x)
      with b Ret less.prems(1) have "out = Ret x" "w' = w1" "body s w = (Ret (Inr x), w1)"
        by (simp_all add: unfold prog_simps)
      with leave [OF less.prems(2)] show ?thesis by simp
    qed
  next
    case Panic
    with b less.prems(1) stuck(1) [OF less.prems(2)] show ?thesis
      by (simp add: unfold prog_simps)
  next
    case Exit
    with b less.prems(1) stuck(2) [OF less.prems(2)] show ?thesis
      by (simp add: unfold prog_simps)
  next
    case Blocked
    with b less.prems(1) stuck(3) [OF less.prems(2)] show ?thesis
      by (simp add: unfold prog_simps)
  qed
qed

end

section \<open>Network endpoints\<close>

text \<open>
  One end of a connection as the code uses it. \<open>inq\<close> lists the results of the successive
  \<open>Receive\<close> calls, a message or an error; when it is used up, \<open>Receive\<close> blocks: any
  finite behaviour of the peer is such a list. \<open>outq\<close> collects the messages that were
  written, \<open>tries\<close> counts the write calls and \<open>wok n\<close> says whether the \<open>n\<close>-th succeeds.
\<close>

record ('i, 'o) endpoint =
  inq :: "(error + 'i) list"
  outq :: "'o list"
  tries :: nat
  wok :: "nat \<Rightarrow> bool"

definition ep_recv :: "(('i, 'o) endpoint, error + 'i) prog" where
  "ep_recv e = (case inq e of
     [] \<Rightarrow> (Blocked, e)
   | r # rs \<Rightarrow> (Ret r, e\<lparr>inq := rs\<rparr>))"

definition ep_send :: "'o \<Rightarrow> (('i, 'o) endpoint, error + unit) prog" where
  "ep_send m e =
     (if wok e (tries e)
      then (Ret (Inr ()), e\<lparr>outq := outq e @ [m], tries := Suc (tries e)\<rparr>)
      else (Ret (Inl (Err ''write error'')), e\<lparr>tries := Suc (tries e)\<rparr>))"

definition endpoint_of :: "(error + 'i) list \<Rightarrow> ('i, 'o) endpoint" where
  "endpoint_of rs = \<lparr>inq = rs, outq = [], tries = 0, wok = (\<lambda>_. True)\<rparr>"

text \<open>The endpoint only moves forward: messages are consumed, written ones stay.\<close>

definition ep_le :: "('i, 'o) endpoint \<Rightarrow> ('i, 'o) endpoint \<Rightarrow> bool" where
  "ep_le e e' \<longleftrightarrow> (\<exists>rs. inq e = rs @ inq e') \<and> (\<exists>ms. outq e' = outq e @ ms) \<and> wok e' = wok e"

lemma ep_le_refl [simp]: "ep_le e e"
  by (simp add: ep_le_def)

lemma ep_le_trans: "ep_le a b \<Longrightarrow> ep_le b c \<Longrightarrow> ep_le a c"
  by (auto simp: ep_le_def)

interpretation ep: frame "ep_le :: ('i, 'o) endpoint \<Rightarrow> ('i, 'o) endpoint \<Rightarrow> bool"
  by unfold_locales (auto intro: ep_le_trans)

lemma ep_recv_le: "related ep_le ep_recv"
  by (auto simp: related_def ep_recv_def ep_le_def split: list.split)

lemma ep_send_le: "related ep_le (ep_send m)"
  by (auto simp: related_def ep_send_def ep_le_def)

lemma ep_recv_length:
  "ep_recv e = (Ret r, e') \<Longrightarrow> length (inq e') < length (inq e)"
  by (auto simp: ep_recv_def split: list.splits)

text \<open>
  An endpoint that is one field of a larger world: the client, the temporary backend
  connection and the pooled one are three interpretations.
\<close>

locale endpoint_at =
  fixes get :: "'w \<Rightarrow> ('i, 'o) endpoint"
    and upd :: "(('i, 'o) endpoint \<Rightarrow> ('i, 'o) endpoint) \<Rightarrow> 'w \<Rightarrow> 'w"
  assumes get_upd: "get (upd f w) = f (get w)"
begin

lemma recv_fewer:
  "zoom get upd ep_recv w = (Ret r, w') \<Longrightarrow> length (inq (get w')) < length (inq (get w))"
  by (auto simp: prog_simps get_upd dest: ep_recv_length split: prod.splits)

lemma recv_head:
  "zoom get upd ep_recv w = (Ret r, w') \<Longrightarrow>
     inq (get w) = r # inq (get w') \<and> outq (get w') = outq (get w)"
  by (auto simp: prog_simps get_upd ep_recv_def split: prod.splits list.splits)

lemma recv_blocks: "fst (zoom get upd ep_recv w) = Blocked \<longleftrightarrow> inq (get w) = []"
  by (auto simp: prog_simps ep_recv_def split: list.splits)

lemma send_cases:
  "zoom get upd (ep_send m) w = (q, w') \<Longrightarrow>
     inq (get w') = inq (get w) \<and> (q = Ret (Inr ()) \<and> outq (get w') = outq (get w) @ [m]
       \<or> (\<exists>e. q = Ret (Inl e)) \<and> outq (get w') = outq (get w))"
  by (auto simp: prog_simps get_upd ep_send_def split: if_splits)

lemma send_returns: "\<exists>r w'. zoom get upd (ep_send m) w = (Ret r, w')"
  by (auto simp: prog_simps ep_send_def)

lemma zoom_related:
  assumes "related R m"
  shows "related (\<lambda>w w'. R (get w) (get w')) (zoom get upd m)"
proof (rule relatedI)
  fix w
  obtain r e where m: "m (get w) = (r, e)" by fastforce
  with assms have "R (get w) e" by (rule relatedD)
  with m show "R (get w) (get (snd (zoom get upd m w)))" by (simp add: prog_simps get_upd)
qed

end

section \<open>Transition systems\<close>

text \<open>
  The concurrent parts of the code are relations on a shared state whose steps are the
  critical sections. An invariant that holds at the start and is kept by every step
  holds in every reachable state.
\<close>

locale transition_invariant =
  fixes init :: "'s \<Rightarrow> bool"
    and step :: "'s \<Rightarrow> 's \<Rightarrow> bool"
    and inv :: "'s \<Rightarrow> bool"
  assumes inv_init: "init s \<Longrightarrow> inv s"
    and inv_step: "inv s \<Longrightarrow> step s t \<Longrightarrow> inv t"
begin

lemma inv_steps:
  assumes "step\<^sup>*\<^sup>* s t" and "inv s"
  shows "inv t"
  using assms by (induction rule: rtranclp_induct) (auto intro: inv_step)

lemma inv_reachable: "init s \<Longrightarrow> step\<^sup>*\<^sup>* s t \<Longrightarrow> inv t"
  by (blast intro: inv_steps inv_init)

end


text \<open>
  Systems that finish: a measure bounds the steps that are left, and only a finished state
  has none. \<open>must_finish\<close> says that every run has at most \<open>n\<close> steps and can only stop
  where \<open>P\<close> holds.
\<close>

definition must_finish :: "('s \<Rightarrow> 's \<Rightarrow> bool) \<Rightarrow> ('s \<Rightarrow> bool) \<Rightarrow> nat \<Rightarrow> 's \<Rightarrow> bool" where
  "must_finish step P n s \<longleftrightarrow> (\<forall>m t. (step ^^ m) s t \<longrightarrow> m \<le> n \<and> (P t \<or> (\<exists>u. step t u)))"

lemma must_finish_mono:
  assumes "must_finish step P n s" and "\<And>t. P t \<Longrightarrow> Q t" and "n \<le> m"
  shows "must_finish step Q m s"
  unfolding must_finish_def
proof (intro allI impI)
  fix k t
  assume "(step ^^ k) s t"
  with assms(1) have "k \<le> n" "P t \<or> (\<exists>u. step t u)" by (simp_all add: must_finish_def)
  with assms(2,3) show "k \<le> m \<and> (Q t \<or> (\<exists>u. step t u))" by auto
qed

locale finishing_system = transition_invariant init step inv
  for init :: "'s \<Rightarrow> bool" and step :: "'s \<Rightarrow> 's \<Rightarrow> bool" and inv :: "'s \<Rightarrow> bool" +
  fixes todo :: "'s \<Rightarrow> nat" and finished :: "'s \<Rightarrow> bool"
  assumes todo_step: "inv s \<Longrightarrow> step s t \<Longrightarrow> todo t < todo s"
    and progress: "inv s \<Longrightarrow> \<not> finished s \<Longrightarrow> \<exists>t. step s t"
begin

lemma run_todo: "(step ^^ n) s t \<Longrightarrow> inv s \<Longrightarrow> inv t \<and> n + todo t \<le> todo s"
proof (induction n arbitrary: t)
  case (Suc n)
  then obtain u where "(step ^^ n) s u" "step u t" by auto
  with Suc.IH [of u] Suc.prems(2) todo_step [of u t] show ?case by (auto intro: inv_step)
qed simp

lemma finishes: "inv s \<Longrightarrow> must_finish step finished (todo s) s"
  unfolding must_finish_def using run_todo progress by (metis add_leE)

lemma finish_reached:
  assumes "inv s"
  shows "\<exists>t. step\<^sup>*\<^sup>* s t \<and> finished t"
  using assms
proof (induction "todo s" arbitrary: s rule: less_induct)
  case less
  show ?case
  proof (cases "finished s")
    case False
    with less.prems obtain u where u: "step s u" by (blast dest: progress)
    with less.hyps [OF todo_step] less.prems obtain t where "step\<^sup>*\<^sup>* u t" "finished t"
      by (blast intro: inv_step)
    with u show ?thesis by (blast intro: converse_rtranclp_into_rtranclp)
  qed blast
qed

end

end
