(* ===== verification/GoStd.thy ===== *)
theory GoStd
  imports Prelude "HOL-Library.Word"
begin

text \<open>
  What the code uses of Go's standard library: \<open>strings\<close>, \<open>os.Getenv\<close>, \<open>net.JoinHostPort\<close>,
  \<open>encoding/binary\<close> and \<open>time\<close>. A Go string is its bytes, a \<^typ>\<open>string\<close>; a byte slice is
  a list of 8-bit words.
\<close>

unbundle bit_operations_syntax

type_synonym u8 = "8 word"
type_synonym u32 = "32 word"
type_synonym u64 = "64 word"

section \<open>strings\<close>

definition HasPrefix :: "string \<Rightarrow> string \<Rightarrow> bool" where
  "HasPrefix s p \<longleftrightarrow> take (length p) s = p"

definition TrimPrefix :: "string \<Rightarrow> string \<Rightarrow> string" where
  "TrimPrefix s p = (if HasPrefix s p then drop (length p) s else s)"

text \<open>\<open>strings.Count(s, c)\<close>, \<open>Contains\<close> and \<open>Split(s, c)\<close> for a one-byte separator.\<close>

definition CountByte :: "string \<Rightarrow> char \<Rightarrow> nat" where
  "CountByte s c = length (filter (\<lambda>x. x = c) s)"

fun SplitByte :: "string \<Rightarrow> char \<Rightarrow> string list" where
  "SplitByte [] c = [[]]"
| "SplitByte (x # xs) c =
     (if x = c then [] # SplitByte xs c
      else (case SplitByte xs c of [] \<Rightarrow> [[x]] | y # ys \<Rightarrow> (x # y) # ys))"

text \<open>\<open>strings.SplitN(s, c, 2)\<close>: cut at the first separator, if there is one.\<close>

definition SplitN2 :: "string \<Rightarrow> char \<Rightarrow> string list" where
  "SplitN2 s c = (case dropWhile (\<lambda>x. x \<noteq> c) s of
     [] \<Rightarrow> [s]
   | _ # rest \<Rightarrow> [takeWhile (\<lambda>x. x \<noteq> c) s, rest])"

lemma HasPrefix_iff: "HasPrefix s p \<longleftrightarrow> (\<exists>r. s = p @ r)"
  by (auto simp: HasPrefix_def) (metis append_take_drop_id)

lemma TrimPrefix_append [simp]: "TrimPrefix (p @ r) p = r"
  by (simp add: TrimPrefix_def HasPrefix_def)

lemma SplitByte_nonempty [simp]: "SplitByte s c \<noteq> []"
  by (induction s) (auto split: list.split)

lemma length_SplitByte: "length (SplitByte s c) = Suc (CountByte s c)"
  by (induction s) (auto simp: CountByte_def split: list.split)

lemma SplitByte_no_sep: "c \<notin> set s \<Longrightarrow> SplitByte s c = [s]"
  by (induction s) auto

lemma SplitByte_sep: "c \<notin> set a \<Longrightarrow> SplitByte (a @ c # b) c = a # SplitByte b c"
  by (induction a) auto

lemma SplitN2_no_sep:
  assumes "c \<notin> set s"
  shows "SplitN2 s c = [s]"
proof -
  have "dropWhile (\<lambda>x. x \<noteq> c) s = []"
    using assms by (auto simp: dropWhile_eq_Nil_conv)
  then show ?thesis by (simp only: SplitN2_def list.case)
qed

lemma SplitN2_sep: "c \<notin> set a \<Longrightarrow> SplitN2 (a @ c # b) c = [a, b]"
  by (induction a) (auto simp: SplitN2_def split: list.splits)

text \<open>A string cut at the first occurrence of a byte has one first part and one rest.\<close>

lemma sep_inject:
  "x \<notin> set a \<Longrightarrow> x \<notin> set a' \<Longrightarrow> a @ x # b = a' @ x # b' \<longleftrightarrow> a = a' \<and> b = b'"
proof (induction a arbitrary: a')
  case Nil
  then show ?case by (cases a') auto
next
  case (Cons y a)
  then show ?case by (cases a') auto
qed

subsection \<open>TrimSpace\<close>

text \<open>
  The UTF-8 encodings of the code points with the Unicode property White\_Space.
  \<open>TrimSpace\<close> removes any number of them at both ends; a byte that starts no such
  encoding ends the trimming, also where it is not valid UTF-8.
\<close>

definition space_seqs :: "string list" where
  "space_seqs =
     [[CHR 0x09], [CHR 0x0A], [CHR 0x0B], [CHR 0x0C], [CHR 0x0D], [CHR 0x20],
      [CHR 0xC2, CHR 0x85], [CHR 0xC2, CHR 0xA0], [CHR 0xE1, CHR 0x9A, CHR 0x80],
      [CHR 0xE2, CHR 0x80, CHR 0x80], [CHR 0xE2, CHR 0x80, CHR 0x81],
      [CHR 0xE2, CHR 0x80, CHR 0x82], [CHR 0xE2, CHR 0x80, CHR 0x83],
      [CHR 0xE2, CHR 0x80, CHR 0x84], [CHR 0xE2, CHR 0x80, CHR 0x85],
      [CHR 0xE2, CHR 0x80, CHR 0x86], [CHR 0xE2, CHR 0x80, CHR 0x87],
      [CHR 0xE2, CHR 0x80, CHR 0x88], [CHR 0xE2, CHR 0x80, CHR 0x89],
      [CHR 0xE2, CHR 0x80, CHR 0x8A], [CHR 0xE2, CHR 0x80, CHR 0xA8],
      [CHR 0xE2, CHR 0x80, CHR 0xA9], [CHR 0xE2, CHR 0x80, CHR 0xAF],
      [CHR 0xE2, CHR 0x81, CHR 0x9F], [CHR 0xE3, CHR 0x80, CHR 0x80]]"

function strip_seqs :: "string list \<Rightarrow> string \<Rightarrow> string" where
  "strip_seqs ps s = (case find (\<lambda>p. p \<noteq> [] \<and> HasPrefix s p) ps of
     None \<Rightarrow> s
   | Some p \<Rightarrow> strip_seqs ps (drop (length p) s))"
  by pat_completeness auto
termination
  by (relation "measure (\<lambda>(ps, s). length s)")
    (auto simp: find_Some_iff HasPrefix_iff)

declare strip_seqs.simps [simp del]

definition TrimSpace :: "string \<Rightarrow> string" where
  "TrimSpace s = rev (strip_seqs (map rev space_seqs) (rev (strip_seqs space_seqs s)))"

text \<open>What is left starts with none of the sequences.\<close>

lemma strip_seqs_find_None:
  "find (\<lambda>p. p \<noteq> [] \<and> HasPrefix s p) ps = None \<Longrightarrow> strip_seqs ps s = s"
  by (subst strip_seqs.simps) simp

lemma strip_seqs_find_Some:
  "find (\<lambda>p. p \<noteq> [] \<and> HasPrefix s p) ps = Some p \<Longrightarrow>
   strip_seqs ps s = strip_seqs ps (drop (length p) s)"
  by (subst strip_seqs.simps) simp

lemma strip_seqs_id: "(\<And>p. p \<in> set ps \<Longrightarrow> p \<noteq> [] \<Longrightarrow> \<not> HasPrefix s p) \<Longrightarrow> strip_seqs ps s = s"
  by (rule strip_seqs_find_None) (auto simp: find_None_iff)

lemma strip_seqs_none: "p \<in> set ps \<Longrightarrow> p \<noteq> [] \<Longrightarrow> \<not> HasPrefix (strip_seqs ps s) p"
proof (induction ps s rule: strip_seqs.induct)
  case (1 ps s)
  show ?case
  proof (cases "find (\<lambda>p. p \<noteq> [] \<and> HasPrefix s p) ps")
    case None
    with "1.prems" show ?thesis
      by (simp add: strip_seqs_find_None) (auto simp: find_None_iff)
  next
    case (Some q)
    with "1.IH" [OF Some "1.prems"] show ?thesis
      by (simp add: strip_seqs_find_Some)
  qed
qed

lemma strip_seqs_suffix: "\<exists>r. s = r @ strip_seqs ps s"
proof (induction ps s rule: strip_seqs.induct)
  case (1 ps s)
  show ?case
  proof (cases "find (\<lambda>p. p \<noteq> [] \<and> HasPrefix s p) ps")
    case None
    then show ?thesis by (simp add: strip_seqs_find_None)
  next
    case (Some p)
    then have p: "s = p @ drop (length p) s"
      by (auto simp: find_Some_iff HasPrefix_iff)
    obtain r where "drop (length p) s = r @ strip_seqs ps (drop (length p) s)"
      using "1.IH" [OF Some] by blast
    with p have "s = (p @ r) @ strip_seqs ps s"
      using strip_seqs_find_Some [OF Some] by simp
    then show ?thesis by blast
  qed
qed

subsection \<open>ToLower\<close>

text \<open>
  \<open>strings.ToLower\<close> maps the letters of an ASCII string byte by byte; any other string
  goes through the Unicode tables, which are the parameter \<open>ul\<close>.
\<close>

definition is_ascii :: "string \<Rightarrow> bool" where
  "is_ascii s \<longleftrightarrow> list_all (\<lambda>c. of_char c < (128::nat)) s"

definition ascii_lower :: "char \<Rightarrow> char" where
  "ascii_lower c = (let n = of_char c :: nat in
     if 65 \<le> n \<and> n \<le> 90 then char_of (n + 32) else c)"

definition ToLower :: "(string \<Rightarrow> string) \<Rightarrow> string \<Rightarrow> string" where
  "ToLower ul s = (if is_ascii s then map ascii_lower s else ul s)"

definition has_upper :: "string \<Rightarrow> bool" where
  "has_upper s \<longleftrightarrow> list_ex (\<lambda>c. 65 \<le> (of_char c :: nat) \<and> of_char c \<le> (90 :: nat)) s"

lemma of_char_ascii_lower:
  "(of_char (ascii_lower c) :: nat) =
     (if 65 \<le> (of_char c :: nat) \<and> of_char c \<le> (90 :: nat) then of_char c + 32 else of_char c)"
  by (simp add: ascii_lower_def Let_def)

lemma ascii_lower_not_upper: "\<not> has_upper (map ascii_lower s)"
  by (induction s) (auto simp: has_upper_def of_char_ascii_lower)

lemma is_ascii_lower: "is_ascii s \<Longrightarrow> is_ascii (map ascii_lower s)"
  by (induction s) (auto simp: is_ascii_def of_char_ascii_lower)

lemma ascii_lower_id: "\<not> has_upper s \<Longrightarrow> map ascii_lower s = s"
  by (induction s) (auto simp: has_upper_def ascii_lower_def Let_def)

lemma ToLower_idem: "is_ascii s \<Longrightarrow> ToLower ul (ToLower ul s) = ToLower ul s"
  by (simp add: ToLower_def is_ascii_lower ascii_lower_id ascii_lower_not_upper del: map_map)

section \<open>os.Getenv\<close>

text \<open>
  The environment is the list \<open>os.Environ()\<close> of strings \<open>NAME=value\<close>, each name once;
  the names the code asks for contain no \<open>=\<close>.
\<close>

type_synonym environ = "string list"

definition Getenv :: "environ \<Rightarrow> string \<Rightarrow> string" where
  "Getenv env k = (case find (\<lambda>e. HasPrefix e (k @ ''='')) env of
     None \<Rightarrow> ''''
   | Some e \<Rightarrow> drop (Suc (length k)) e)"

section \<open>net.JoinHostPort\<close>

definition JoinHostPort :: "string \<Rightarrow> string \<Rightarrow> string" where
  "JoinHostPort host port =
     (if CHR '':'' \<in> set host then ''['' @ host @ '']:'' @ port else host @ '':'' @ port)"

section \<open>strconv.Itoa\<close>

fun Itoa :: "nat \<Rightarrow> string" where
  "Itoa n = (if n < 10 then [char_of (n + 48)] else Itoa (n div 10) @ [char_of (n mod 10 + 48)])"

declare Itoa.simps [simp del]

section \<open>encoding/binary, big endian\<close>

definition byte_at :: "nat \<Rightarrow> u32 \<Rightarrow> u8" where
  "byte_at n w = ucast (drop_bit (8 * n) w)"

text \<open>\<open>binary.BigEndian.PutUint32(buf[i:i+4], v)\<close>\<close>

definition PutUint32 :: "u8 list \<Rightarrow> nat \<Rightarrow> u32 \<Rightarrow> u8 list" where
  "PutUint32 buf i v = buf[i := byte_at 3 v, i + 1 := byte_at 2 v, i + 2 := byte_at 1 v,
     i + 3 := byte_at 0 v]"

text \<open>The reader of the format, \<open>BigEndian.Uint32(buf[i:i+4])\<close>.\<close>

definition Uint32 :: "u8 list \<Rightarrow> nat \<Rightarrow> u32" where
  "Uint32 buf i = push_bit 24 (ucast (buf ! i)) OR push_bit 16 (ucast (buf ! (i + 1)))
     OR push_bit 8 (ucast (buf ! (i + 2))) OR ucast (buf ! (i + 3))"

lemma length_PutUint32 [simp]: "length (PutUint32 buf i v) = length buf"
  by (simp add: PutUint32_def)

lemma join_bytes:
  "push_bit 24 (ucast (byte_at 3 v)) OR push_bit 16 (ucast (byte_at 2 v))
     OR push_bit 8 (ucast (byte_at 1 v)) OR ucast (byte_at 0 v) = (v :: u32)"
proof (rule bit_word_eqI)
  fix n assume "n < LENGTH(32)"
  then consider "n < 8" | "8 \<le> n" "n < 16" | "16 \<le> n" "n < 24" | "24 \<le> n" "n < 32"
    by fastforce
  then show "bit (push_bit 24 (ucast (byte_at 3 v)) OR push_bit 16 (ucast (byte_at 2 v))
      OR push_bit 8 (ucast (byte_at 1 v)) OR ucast (byte_at 0 v) :: u32) n \<longleftrightarrow> bit v n"
    by cases (auto simp: byte_at_def bit_simps less_diff_conv2)
qed

lemma Uint32_PutUint32: "i + 4 \<le> length buf \<Longrightarrow> Uint32 (PutUint32 buf i v) i = v"
  by (simp add: Uint32_def PutUint32_def nth_list_update join_bytes [unfolded One_nat_def])

lemma Uint32_PutUint32_other:
  "i + 4 \<le> j \<or> j + 4 \<le> i \<Longrightarrow> Uint32 (PutUint32 buf i v) j = Uint32 buf j"
  by (auto simp: Uint32_def PutUint32_def nth_list_update)

section \<open>time\<close>

text \<open>
  A \<open>time.Time\<close> is the number of nanoseconds since its zero value (the start of year 1);
  \<open>time.Unix(s, 0)\<close> adds the offset of 1970 to the 64-bit seconds, wrapping around.
  A \<open>time.Duration\<close> is 64 bits of nanoseconds, and \<open>Sub\<close> saturates.
\<close>

type_synonym gotime = int

definition wrap64 :: "int \<Rightarrow> int" where
  "wrap64 x = (x + 2 ^ 63) mod 2 ^ 64 - 2 ^ 63"

definition time_Unix :: "int \<Rightarrow> gotime" where
  "time_Unix s = wrap64 (s + 62135596800) * 1000000000"

definition time_Sub :: "gotime \<Rightarrow> gotime \<Rightarrow> int" where
  "time_Sub t u = max (- (2 ^ 63)) (min (2 ^ 63 - 1) (t - u))"

definition second :: int where "second = 1000000000"

definition minute :: int where "minute = 60 * second"

definition hour :: int where "hour = 60 * minute"

lemma wrap64_id: "- (2 ^ 63) \<le> x \<Longrightarrow> x < 2 ^ 63 \<Longrightarrow> wrap64 x = x"
  by (simp add: wrap64_def)

end
