(* ===== verification/Logger.thy ===== *)
theory Logger
  imports GoStd
begin

text \<open>
  \<open>internal/logger/logger.go\<close>: the level of the process and the lines each call writes.
  A written line is its prefixed format string with the arguments; the text that
  \<open>fmt\<close> makes of them is not modelled. Errors returned by \<open>Errorf\<close> and \<open>Warnf\<close> keep the
  format string.
\<close>

datatype LogLevel = DEBUG | INFO

text \<open>The numbers behind the \<open>iota\<close> constants; the code compares them with \<open><=\<close>.\<close>

fun level_num :: "LogLevel \<Rightarrow> int" where
  "level_num DEBUG = 0"
| "level_num INFO = 1"

instantiation LogLevel :: linorder
begin

definition less_eq_LogLevel :: "LogLevel \<Rightarrow> LogLevel \<Rightarrow> bool" where
  "a \<le> b \<longleftrightarrow> level_num a \<le> level_num b"

definition less_LogLevel :: "LogLevel \<Rightarrow> LogLevel \<Rightarrow> bool" where
  "a < b \<longleftrightarrow> level_num a < level_num b"

instance
proof
  fix a b :: LogLevel
  show "a = b" if "a \<le> b" "b \<le> a"
    using that by (cases a; cases b) (simp_all add: less_eq_LogLevel_def)
qed (auto simp: less_eq_LogLevel_def less_LogLevel_def)

end

record 'a log_state =
  currentLevel :: LogLevel
  written :: "(string \<times> 'a list) list"

definition log_initial :: "'a log_state" where
  "log_initial = \<lparr>currentLevel = INFO, written = []\<rparr>"

definition log_Printf :: "string \<Rightarrow> 'a list \<Rightarrow> ('a log_state, unit) prog" where
  "log_Printf format args = modify (\<lambda>l. l\<lparr>written := written l @ [(format, args)]\<rparr>)"

definition SetLevel :: "LogLevel \<Rightarrow> ('a log_state, unit) prog" where
  "SetLevel level = modify (\<lambda>l. l\<lparr>currentLevel := level\<rparr>)"

definition SetDebug :: "('a log_state, unit) prog" where
  "SetDebug = andThen (SetLevel DEBUG) (\<lambda>_. log_Printf ''Debug logging enabled'' [])"

definition SetProduction :: "('a log_state, unit) prog" where
  "SetProduction = SetLevel INFO"

definition IsDebug :: "('a log_state, bool) prog" where
  "IsDebug = gets (\<lambda>l. currentLevel l = DEBUG)"

definition Debug :: "string \<Rightarrow> 'a list \<Rightarrow> ('a log_state, unit) prog" where
  "Debug format args l =
     (if currentLevel l \<le> DEBUG
      then log_Printf (''[DEBUG] '' @ format) args l else ret () l)"

definition Info :: "string \<Rightarrow> 'a list \<Rightarrow> ('a log_state, unit) prog" where
  "Info format args l =
     (if currentLevel l \<le> INFO
      then log_Printf (''[INFO] '' @ format) args l else ret () l)"

definition Error :: "string \<Rightarrow> 'a list \<Rightarrow> ('a log_state, unit) prog" where
  "Error format args = log_Printf (''[ERROR] '' @ format) args"

definition Errorf :: "string \<Rightarrow> 'a list \<Rightarrow> ('a log_state, error) prog" where
  "Errorf format args =
     andThen (log_Printf (''[ERROR] '' @ format) args) (\<lambda>_. ret (Err format))"

definition Warn :: "string \<Rightarrow> 'a list \<Rightarrow> ('a log_state, unit) prog" where
  "Warn format args = log_Printf (''[WARN] '' @ format) args"

definition Warnf :: "string \<Rightarrow> 'a list \<Rightarrow> ('a log_state, error) prog" where
  "Warnf format args =
     andThen (log_Printf (''[WARN] '' @ format) args) (\<lambda>_. ret (Err format))"

definition Fatal :: "string \<Rightarrow> 'a list \<Rightarrow> ('a log_state, unit) prog" where
  "Fatal format args = andThen (log_Printf (''[FATAL] '' @ format) args) (\<lambda>_. exit)"

definition Printf :: "string \<Rightarrow> 'a list \<Rightarrow> ('a log_state, unit) prog" where
  "Printf format args = Info format args"

text \<open>
  \<open>dotenv\<close> is \<open>godotenv.Load(".env")\<close>: the environment with the variables of the file, or
  no environment when the file cannot be read.
\<close>

definition InitFromEnv ::
  "(environ \<Rightarrow> environ option) \<Rightarrow> environ \<Rightarrow> ('a log_state, unit) prog" where
  "InitFromEnv dotenv env =
     andThen
       (case dotenv env of
          None \<Rightarrow> log_Printf
            ''Warning: could not load .env file, falling back to system environment'' []
        | Some _ \<Rightarrow> ret ())
       (\<lambda>_. let logLevel = Getenv (case dotenv env of None \<Rightarrow> env | Some env' \<Rightarrow> env') ''LOG_LEVEL''
          in if logLevel = ''debug'' \<or> logLevel = ''DEBUG'' then SetDebug else SetProduction)"

section \<open>Properties\<close>

lemmas log_defs = log_Printf_def SetLevel_def SetDebug_def SetProduction_def IsDebug_def
  less_eq_LogLevel_def Debug_def Info_def Error_def Errorf_def Warn_def Warnf_def Fatal_def Printf_def

text \<open>Written lines are never taken back, whatever is called.\<close>

definition log_grows :: "'a log_state \<Rightarrow> 'a log_state \<Rightarrow> bool" where
  "log_grows l l' \<longleftrightarrow> (\<exists>ls. written l' = written l @ ls)"

interpretation log: frame "log_grows :: 'a log_state \<Rightarrow> 'a log_state \<Rightarrow> bool"
  by unfold_locales (auto simp: log_grows_def)

lemma log_Printf_grows: "related log_grows (log_Printf f args)"
  by (auto simp: related_def log_grows_def log_Printf_def prog_simps)

lemma SetLevel_grows: "related log_grows (SetLevel v)"
  by (auto simp: related_def log_grows_def SetLevel_def prog_simps)

lemma InitFromEnv_grows: "related log_grows (InitFromEnv dotenv env)"
  unfolding InitFromEnv_def SetDebug_def SetProduction_def Let_def
  by (auto intro!: log.related_rules log_Printf_grows SetLevel_grows split: option.split)

lemma debug_lines:
  "snd (Debug f args l) = (if currentLevel l = DEBUG
     then l\<lparr>written := written l @ [(''[DEBUG] '' @ f, args)]\<rparr> else l)"
  by (cases "currentLevel l") (auto simp: log_defs prog_simps)

lemma info_always: "Info f args = log_Printf (''[INFO] '' @ f) args"
  by (rule ext, case_tac "currentLevel x") (auto simp: log_defs prog_simps)

lemma InitFromEnv_level:
  "currentLevel (snd (InitFromEnv dotenv env l)) = DEBUG \<longleftrightarrow>
     Getenv (case dotenv env of None \<Rightarrow> env | Some env' \<Rightarrow> env') ''LOG_LEVEL'' \<in> {''debug'', ''DEBUG''}"
  by (auto simp: InitFromEnv_def log_defs prog_simps Let_def split: option.split)

text \<open>Debug output is controlled by LOG_LEVEL alone. After the process initialised
  its logger from the environment, a Debug call writes exactly one line, prefixed, when
  LOG_LEVEL is \<open>debug\<close> or \<open>DEBUG\<close>, and writes nothing otherwise; an Info call always
  writes its line, and no line written before is lost.\<close>

theorem log_level_controls_debug:
  "let l' = snd (InitFromEnv dotenv env l) in
     written (snd (Debug f args l')) =
       (if Getenv (case dotenv env of None \<Rightarrow> env | Some env' \<Rightarrow> env') ''LOG_LEVEL''
             \<in> {''debug'', ''DEBUG''}
        then written l' @ [(''[DEBUG] '' @ f, args)] else written l')
     \<and> written (snd (Info f args l')) = written l' @ [(''[INFO] '' @ f, args)]
     \<and> (\<exists>ls. written l' = written l @ ls)"
proof -
  have "log_grows l (snd (InitFromEnv dotenv env l))"
    by (rule related_snd [OF InitFromEnv_grows])
  then show ?thesis
    using InitFromEnv_level [of dotenv env l]
    by (simp add: debug_lines info_always log_Printf_def prog_simps log_grows_def Let_def)
qed

end
