(* ===== verification/Config.thy ===== *)
theory Config
  imports GoStd
begin

text \<open>
  \<open>internal/config/config.go\<close>: the proxy's configuration from the environment and the
  connection string of the pools. \<open>log.Fatal\<close> ends the process: it is the left side of
  the result of \<open>Load\<close>.
\<close>

record Config =
  ProxyHost :: string
  ProxyPort :: string
  DBHost :: string
  ServiceUser :: string
  ServicePass :: string

text \<open>
  \<open>dotenv\<close> is \<open>godotenv.Load(".env")\<close>: the environment with the variables of the file, or
  no environment when the file cannot be read (which \<open>Load\<close> only logs).
\<close>

definition Load :: "(environ \<Rightarrow> environ option) \<Rightarrow> environ \<Rightarrow> error + Config" where
  "Load dotenv env0 =
    (let env = (case dotenv env0 of None \<Rightarrow> env0 | Some e \<Rightarrow> e);
         proxyHost = (let h = Getenv env ''PROXY_HOST'' in if h = '''' then ''0.0.0.0'' else h);
         proxyPort = (let p = Getenv env ''PROXY_PORT'' in if p = '''' then ''7777'' else p);
         dbHost = (let h = Getenv env ''DB_HOST'' in if h = '''' then ''localhost'' else h);
         serviceUser = Getenv env ''GPRXY_USER'';
         servicePass = Getenv env ''GPRXY_PASS''
     in if serviceUser = '''' then Inl (Err ''GPRXY_USER environment variable is required'')
        else if servicePass = '''' then Inl (Err ''GPRXY_PASS environment variable is required'')
        else Inr \<lparr>ProxyHost = proxyHost, ProxyPort = proxyPort, DBHost = dbHost,
                  ServiceUser = serviceUser, ServicePass = servicePass\<rparr>)"

definition BuildConnectionString :: "Config \<Rightarrow> string \<Rightarrow> string" where
  "BuildConnectionString c database =
     ''postgres://'' @ ServiceUser c @ '':'' @ ServicePass c @ ''@'' @ DBHost c
       @ '':5432/'' @ database"

section \<open>Properties\<close>

text \<open>The configuration that an environment asks for, field by field.\<close>

definition env_or :: "environ \<Rightarrow> string \<Rightarrow> string \<Rightarrow> string" where
  "env_or env k d = (if Getenv env k = '''' then d else Getenv env k)"

definition configured :: "environ \<Rightarrow> Config \<Rightarrow> bool" where
  "configured env c \<longleftrightarrow> ProxyHost c = env_or env ''PROXY_HOST'' ''0.0.0.0''
     \<and> ProxyPort c = env_or env ''PROXY_PORT'' ''7777'' \<and> DBHost c = env_or env ''DB_HOST'' ''localhost''
     \<and> ServiceUser c = Getenv env ''GPRXY_USER'' \<and> ServicePass c = Getenv env ''GPRXY_PASS''"

text \<open>A configuration the proxy can run with: no field is empty.\<close>

definition config_ok :: "Config \<Rightarrow> bool" where
  "config_ok c \<longleftrightarrow> ProxyHost c \<noteq> [] \<and> ProxyPort c \<noteq> [] \<and> DBHost c \<noteq> []
     \<and> ServiceUser c \<noteq> [] \<and> ServicePass c \<noteq> []"

lemma Load_cases:
  "Load dotenv env0 = Inr c \<Longrightarrow> config_ok c \<and> configured (case dotenv env0 of None \<Rightarrow> env0 | Some e \<Rightarrow> e) c"
  by (auto simp: Load_def Let_def config_ok_def configured_def env_or_def split: if_splits)

text \<open>Configuration loading succeeds exactly when both service credentials are set,
  and then every field of the configuration is non-empty (defaults fill in the listen
  address, the port and the database host) and the credentials are the ones of the
  environment.\<close>

theorem load_total:
  "let env = (case dotenv env0 of None \<Rightarrow> env0 | Some e \<Rightarrow> e) in
     (\<exists>c. Load dotenv env0 = Inr c \<and> config_ok c
        \<and> ServiceUser c = Getenv env ''GPRXY_USER'' \<and> ServicePass c = Getenv env ''GPRXY_PASS''
        \<and> DBHost c = (if Getenv env ''DB_HOST'' = [] then ''localhost'' else Getenv env ''DB_HOST''))
     = (Getenv env ''GPRXY_USER'' \<noteq> [] \<and> Getenv env ''GPRXY_PASS'' \<noteq> [])"
  by (auto simp: Load_def Let_def config_ok_def)

text \<open>
  The connection string is read back as an URL by the pool. Without the delimiters of
  the user-information part in the credentials and the host it is unambiguous.
\<close>

definition delimiter_free :: "Config \<Rightarrow> bool" where
  "delimiter_free c \<longleftrightarrow>
     CHR '':'' \<notin> set (ServiceUser c) \<and> CHR ''@'' \<notin> set (ServicePass c) \<and> CHR '':'' \<notin> set (DBHost c)"

lemma BuildConnectionString_inject:
  assumes "delimiter_free c" and "delimiter_free c'"
    and "BuildConnectionString c d = BuildConnectionString c' d'"
  shows "ServiceUser c = ServiceUser c' \<and> ServicePass c = ServicePass c'
    \<and> DBHost c = DBHost c' \<and> d = d'"
  using assms by (simp add: BuildConnectionString_def delimiter_free_def sep_inject)

text \<open>Two configurations whose credentials and host contain no URL delimiter have the
  same connection string only if user, password, host and database all agree: no pool is
  opened with the credentials of another.\<close>

theorem connection_string_unambiguous:
  assumes "delimiter_free c" and "delimiter_free c'"
    and "BuildConnectionString c d = BuildConnectionString c' d'"
  shows "ServiceUser c = ServiceUser c' \<and> ServicePass c = ServicePass c'
    \<and> DBHost c = DBHost c' \<and> d = d'"
  using assms by (rule BuildConnectionString_inject)

definition sample_config :: Config where
  "sample_config = \<lparr>ProxyHost = ''0.0.0.0'', ProxyPort = ''7777'', DBHost = ''db'',
     ServiceUser = ''app'', ServicePass = ''pw''\<rparr>"

theorem connection_string_unambiguous_witness:
  "ServiceUser sample_config = ''app''
     \<and> BuildConnectionString sample_config ''d'' = ''postgres://app:pw@db:5432/d''"
proof -
  have s: "delimiter_free sample_config"
    by (simp add: delimiter_free_def sample_config_def)
  have "ServiceUser sample_config = ServiceUser sample_config"
    using connection_string_unambiguous [OF s s, of "''d''" "''d''"] by simp
  then show ?thesis by (simp add: BuildConnectionString_def sample_config_def)
qed

text \<open>The code does not escape what it puts into the URL, so the hypothesis above is
  needed: with a delimiter in the password, two configurations with different users,
  passwords, hosts and databases have the same connection string.\<close>

theorem connection_string_not_escaped:
  "\<exists>c c' d d'. BuildConnectionString c d = BuildConnectionString c' d'
     \<and> ServicePass c \<noteq> ServicePass c' \<and> DBHost c \<noteq> DBHost c' \<and> config_ok c \<and> config_ok c'"
proof -
  let ?c = "sample_config\<lparr>ServicePass := ''pw@evil'', DBHost := ''db''\<rparr>"
  let ?c' = "sample_config\<lparr>ServicePass := ''pw'', DBHost := ''evil@db''\<rparr>"
  have "BuildConnectionString ?c ''d'' = BuildConnectionString ?c' ''d''"
    by (simp add: BuildConnectionString_def sample_config_def)
  then show ?thesis
    by (intro exI [of _ ?c] exI [of _ ?c'] exI [of _ "''d''"] conjI)
      (simp_all add: config_ok_def sample_config_def)
qed

end
