(* ===== verification/Pool.thy ===== *)
theory Pool
  imports GoStd
begin

text \<open>
  \<open>internal/pool/manager.go\<close>: the process-wide map of connection pools, one per user and
  database, and the acquisition of a connection. The pools themselves are \<open>pgxpool\<close>'s: what
  its calls return are fields of the world. The second part models the double-checked
  locking of \<open>GetOrCreatePool\<close> with any number of goroutines, step by step with its read-write
  lock; a goroutine that is alone computes \<open>GetOrCreatePool\<close> (\<open>caller_alone\<close>).
\<close>

section \<open>Data\<close>

type_synonym poolKey = "string \<times> string"

text \<open>A parsed pool configuration: the fields the code sets, and where it connects to.\<close>

record pool_config =
  MaxConns :: int
  MinConns :: int
  MaxConnLifetime :: int
  MaxConnIdleTime :: int
  HealthCheckPeriod :: int
  ConnectTimeout :: int
  connTarget :: string

record pool =
  poolId :: nat
  poolConfig :: pool_config

text \<open>A connection of a pool: its identity, process id and secret key, and its pool.\<close>

record pool_conn =
  pcId :: nat
  pcPID :: u32
  pcSecret :: u32
  pcPool :: pool

text \<open>
  \<open>created\<close> counts the pools made so far; \<open>new_error n\<close> is the error of the \<open>n\<close>-th attempt,
  if it fails. \<open>acquireq\<close> and \<open>pingq\<close> list the results of the \<open>Acquire\<close> and \<open>Ping\<close> calls, an
  error or the connection's identity, process id and secret key; \<open>checkedOut\<close> holds the
  identities of the acquired connections.
\<close>

record pool_world =
  poolManager :: "poolKey \<rightharpoonup> pool"
  created :: nat
  parse_config :: "string \<Rightarrow> error + pool_config"
  new_error :: "nat \<Rightarrow> error option"
  acquireq :: "(error + nat \<times> u32 \<times> u32) list"
  pingq :: "(error + unit) list"
  checkedOut :: "nat list"

section \<open>GetOrCreatePool\<close>

definition withLimits :: "pool_config \<Rightarrow> pool_config" where
  "withLimits config = config\<lparr>MaxConns := 5, MinConns := 0, MaxConnLifetime := hour,
     MaxConnIdleTime := minute * 30, HealthCheckPeriod := minute, ConnectTimeout := second * 5\<rparr>"

text \<open>The read-locked section.\<close>

definition lookupPool :: "poolKey \<Rightarrow> ('a pool_world_scheme, pool option) prog" where
  "lookupPool key = gets (\<lambda>w. poolManager w key)"

definition NewWithConfig :: "pool_config \<Rightarrow> ('a pool_world_scheme, error + pool) prog" where
  "NewWithConfig config w = (case new_error w (created w) of
     Some e \<Rightarrow> (Ret (Inl e), w)
   | None \<Rightarrow> (Ret (Inr \<lparr>poolId = created w, poolConfig = config\<rparr>), w\<lparr>created := Suc (created w)\<rparr>))"

text \<open>The write-locked section: look again, then make the pool and store it.\<close>

definition makePool :: "poolKey \<Rightarrow> string \<Rightarrow> ('a pool_world_scheme, error + pool) prog" where
  "makePool key connectionString =
    ifErr (gets (\<lambda>w. parse_config w connectionString))
      (\<lambda>e. ret (Inl (Wrap ''failed to parse config: %w'' e))) (\<lambda>config.
    ifErr (NewWithConfig (withLimits config))
      (\<lambda>e. ret (Inl (Wrap ''failed to create pool: %w'' e))) (\<lambda>pool.
    andThen (modify (\<lambda>w. w\<lparr>poolManager := (poolManager w)(key \<mapsto> pool)\<rparr>)) (\<lambda>_.
    ret (Inr pool))))"

definition createPool :: "poolKey \<Rightarrow> string \<Rightarrow> ('a pool_world_scheme, error + pool) prog" where
  "createPool key connectionString =
    andThen (lookupPool key) (\<lambda>r. case r of
      Some pool \<Rightarrow> ret (Inr pool)
    | None \<Rightarrow> makePool key connectionString)"

definition GetOrCreatePool ::
  "string \<Rightarrow> string \<Rightarrow> string \<Rightarrow> ('a pool_world_scheme, error + pool) prog" where
  "GetOrCreatePool user database connectionString =
    andThen (lookupPool (user, database)) (\<lambda>r. case r of
      Some pool \<Rightarrow> ret (Inr pool)
    | None \<Rightarrow> createPool (user, database) connectionString)"

section \<open>AcquireConnection\<close>

definition pool_Acquire :: "pool \<Rightarrow> ('a pool_world_scheme, error + pool_conn) prog" where
  "pool_Acquire p w = (case acquireq w of
     [] \<Rightarrow> (Blocked, w)
   | Inl e # rs \<Rightarrow> (Ret (Inl e), w\<lparr>acquireq := rs\<rparr>)
   | Inr (n, pid, secret) # rs \<Rightarrow>
       (Ret (Inr \<lparr>pcId = n, pcPID = pid, pcSecret = secret, pcPool = p\<rparr>),
        w\<lparr>acquireq := rs, checkedOut := n # checkedOut w\<rparr>))"

definition conn_Ping :: "pool_conn \<Rightarrow> ('a pool_world_scheme, error + unit) prog" where
  "conn_Ping c w = (case pingq w of
     [] \<Rightarrow> (Blocked, w)
   | r # rs \<Rightarrow> (Ret r, w\<lparr>pingq := rs\<rparr>))"

definition conn_Release :: "pool_conn \<Rightarrow> ('a pool_world_scheme, unit) prog" where
  "conn_Release c = modify (\<lambda>w. w\<lparr>checkedOut := remove1 (pcId c) (checkedOut w)\<rparr>)"

definition AcquireConnection ::
  "string \<Rightarrow> string \<Rightarrow> string \<Rightarrow> ('a pool_world_scheme, error + pool_conn) prog" where
  "AcquireConnection user database connectionString =
    ifErr (GetOrCreatePool user database connectionString)
      (\<lambda>e. ret (Inl (Wrap ''error while creating connection to the database: %w'' e))) (\<lambda>pool.
    ifErr (pool_Acquire pool)
      (\<lambda>e. ret (Inl (Wrap ''error while acquiring connection from the database pool: %w'' e))) (\<lambda>connection.
    ifErr (conn_Ping connection)
      (\<lambda>e. andThen (conn_Release connection) (\<lambda>_. ret (Inl (Wrap ''could not ping database: %w'' e))))
      (\<lambda>_. ret (Inr connection))))"

text \<open>\<open>LogPoolStats\<close> (\<open>internal/pool/stats.go\<close>) looks the pool up and logs its statistics, or a
  warning; the result says which.\<close>

definition LogPoolStats :: "string \<Rightarrow> string \<Rightarrow> ('a pool_world_scheme, bool) prog" where
  "LogPoolStats user database =
     andThen (lookupPool (user, database)) (\<lambda>r. case r of None \<Rightarrow> ret False | Some _ \<Rightarrow> ret True)"

section \<open>Properties of the sequential operations\<close>

lemmas pool_defs = AcquireConnection_def GetOrCreatePool_def lookupPool_def createPool_def makePool_def
  NewWithConfig_def pool_Acquire_def conn_Ping_def conn_Release_def

text \<open>
  A pool that exists keeps its key; identities are handed out in order, so different
  keys have different pools.
\<close>

definition pools_inv :: "'a pool_world_scheme \<Rightarrow> bool" where
  "pools_inv w \<longleftrightarrow> finite (dom (poolManager w)) \<and> card (dom (poolManager w)) \<le> created w
     \<and> (\<forall>k p. poolManager w k = Some p \<longrightarrow> poolId p < created w)
     \<and> (\<forall>k k' p p'. poolManager w k = Some p \<longrightarrow> poolManager w k' = Some p' \<longrightarrow>
          poolId p = poolId p' \<longrightarrow> k = k')"

lemma pools_inv_distinct:
  "pools_inv w \<Longrightarrow> poolManager w k = Some p \<Longrightarrow> poolManager w k' = Some p' \<Longrightarrow>
     poolId p = poolId p' \<Longrightarrow> k = k'"
  by (cases k; cases k') (simp add: pools_inv_def)

lemma makePool_cases:
  assumes "makePool key cs w = (r, w')"
  obtains e where "r = Ret (Inl e)" "w' = w"
  | config where "parse_config w cs = Inr config"
      "r = Ret (Inr \<lparr>poolId = created w, poolConfig = withLimits config\<rparr>)"
      "w' = w\<lparr>poolManager := (poolManager w)(key \<mapsto> \<lparr>poolId = created w, poolConfig = withLimits config\<rparr>),
              created := Suc (created w)\<rparr>"
proof (cases "\<exists>config. parse_config w cs = Inr config \<and> new_error w (created w) = None")
  case False
  with assms have "\<exists>e. r = Ret (Inl e) \<and> w' = w"
    by (auto simp: makePool_def NewWithConfig_def prog_simps split: sum.splits option.splits)
  with that(1) show thesis by blast
next
  case True
  with assms show thesis by (auto intro!: that(2) simp: makePool_def NewWithConfig_def prog_simps)
qed

lemma createPool_cases:
  assumes "createPool key cs w = (r, w')"
  obtains p where "poolManager w key = Some p" "r = Ret (Inr p)" "w' = w"
  | e where "poolManager w key = None" "r = Ret (Inl e)" "w' = w"
  | config where "poolManager w key = None" "parse_config w cs = Inr config"
      "r = Ret (Inr \<lparr>poolId = created w, poolConfig = withLimits config\<rparr>)"
      "w' = w\<lparr>poolManager := (poolManager w)(key \<mapsto> \<lparr>poolId = created w, poolConfig = withLimits config\<rparr>),
              created := Suc (created w)\<rparr>"
proof (cases "poolManager w key")
  case None
  with assms have "makePool key cs w = (r, w')"
    by (simp add: createPool_def lookupPool_def prog_simps)
  then show thesis by (cases rule: makePool_cases) (use None that in blast)+
next
  case (Some p)
  with assms show thesis by (intro that(1)) (auto simp: createPool_def lookupPool_def prog_simps)
qed

lemma createPool_stored:
  "createPool key cs w = (Ret (Inr p), w') \<Longrightarrow> poolManager w' key = Some p"
  by (cases rule: createPool_cases) auto

lemma createPool_checkedOut: "createPool key cs w = (r, w') \<Longrightarrow> checkedOut w' = checkedOut w"
  by (erule createPool_cases) simp_all

lemma GetOrCreatePool_checkedOut:
  "GetOrCreatePool user database cs w = (r, w') \<Longrightarrow> checkedOut w' = checkedOut w"
  by (cases "poolManager w (user, database)")
    (auto simp: GetOrCreatePool_def lookupPool_def prog_simps dest: createPool_checkedOut)

lemma AcquireConnection_no_panic: "fst (AcquireConnection user database cs w) \<noteq> Panic"
proof -
  obtain q w1 where g: "GetOrCreatePool user database cs w = (q, w1)" by fastforce
  then obtain r where "q = Ret r"
    by (cases "poolManager w (user, database)")
      (auto simp: GetOrCreatePool_def lookupPool_def prog_simps elim: createPool_cases)
  with g show ?thesis
    by (cases r; cases "acquireq w1"; cases "pingq w1")
      (auto simp: AcquireConnection_def pool_Acquire_def conn_Ping_def conn_Release_def prog_simps
        split: sum.split)
qed

lemma makePool_inv:
  assumes "pools_inv w" and "poolManager w key = None" and "makePool key cs w = (r, w')"
  shows "pools_inv w'"
  using assms(3)
proof (cases rule: makePool_cases)
  case (2 config)
  let ?p = "\<lparr>poolId = created w, poolConfig = withLimits config\<rparr>"
  from assms(1,2) have card: "card (dom (poolManager w')) \<le> created w'" "finite (dom (poolManager w'))"
    by (simp_all add: 2(3) pools_inv_def domIff card_insert_if)
  have look: "poolManager w' k = Some p \<longleftrightarrow> (if k = key then p = ?p else poolManager w k = Some p)" for k p
    by (auto simp: 2(3))
  from assms(1) have lt: "poolManager w k = Some p \<Longrightarrow> poolId p < created w" for k p
    by (cases k) (simp add: pools_inv_def)
  have "poolId p < created w'" if "poolManager w' k = Some p" for k p
  proof (cases "k = key")
    case True
    with that have "p = ?p" by (simp only: look if_True)
    then show ?thesis by (simp add: 2(3))
  next
    case False
    with that have "poolManager w k = Some p" by (simp only: look if_False)
    from lt [OF this] show ?thesis by (simp add: 2(3))
  qed
  moreover have "k = k'"
    if "poolManager w' k = Some p" "poolManager w' k' = Some p'" "poolId p = poolId p'" for k k' p p'
  proof (cases "k = key"; cases "k' = key")
    assume a: "k = key" "k' \<noteq> key"
    with that(1,2) have "p = ?p" "poolManager w k' = Some p'" by (simp_all only: look if_True if_False)
    with lt [of k' p'] that(3) show ?thesis by simp
  next
    assume a: "k \<noteq> key" "k' = key"
    with that(1,2) have "p' = ?p" "poolManager w k = Some p" by (simp_all only: look if_True if_False)
    with lt [of k p] that(3) show ?thesis by simp
  next
    assume a: "k \<noteq> key" "k' \<noteq> key"
    with that(1,2) have "poolManager w k = Some p" "poolManager w k' = Some p'"
      by (simp_all only: look if_False)
    from pools_inv_distinct [OF assms(1) this that(3)] show ?thesis .
  qed simp
  ultimately show ?thesis using card by (simp add: pools_inv_def)
qed (use assms(1) in simp_all)

lemma makePool_stored:
  "makePool key cs w = (Ret (Inr p), w') \<Longrightarrow> poolManager w' key = Some p"
  by (cases rule: makePool_cases) auto

lemma makePool_stable:
  assumes "makePool key cs w = (r, w')" and "poolManager w key = None" and "poolManager w k = Some p"
  shows "poolManager w' k = Some p"
  using assms by (cases rule: makePool_cases) auto

lemma makePool_returns: "\<exists>r w'. makePool key cs w = (Ret r, w')"
proof -
  obtain q w' where m: "makePool key cs w = (q, w')" by fastforce
  then have "\<exists>r. q = Ret r" by (cases rule: makePool_cases) auto
  with m show ?thesis by blast
qed

text \<open>A connection is never leaked by the acquisition: when it returns a connection, that one and
  no other has been checked out; when it returns an error, none.\<close>

lemma AcquireConnection_checkedOut:
  assumes "AcquireConnection user database cs w = (Ret r, w')"
  shows "checkedOut w' = (case r of Inr c \<Rightarrow> pcId c # checkedOut w | Inl _ \<Rightarrow> checkedOut w)"
proof -
  obtain q w1 where g: "GetOrCreatePool user database cs w = (q, w1)" by fastforce
  note same = GetOrCreatePool_checkedOut [OF g]
  show ?thesis
  proof (cases "\<exists>p. q = Ret (Inr p)")
    case False
    with assms g same show ?thesis
      by (cases q) (auto simp: AcquireConnection_def prog_simps split: sum.splits)
  next
    case True
    then obtain p where "q = Ret (Inr p)" by blast
    with assms g same show ?thesis
      by (cases "acquireq w1"; cases "pingq w1")
        (auto simp: AcquireConnection_def pool_Acquire_def conn_Ping_def conn_Release_def prog_simps
          split: sum.splits)
  qed
qed

definition sample_pool_config :: "string \<Rightarrow> pool_config" where
  "sample_pool_config cs = \<lparr>MaxConns = 4, MinConns = 0, MaxConnLifetime = 0, MaxConnIdleTime = 0,
     HealthCheckPeriod = 0, ConnectTimeout = 0, connTarget = cs\<rparr>"

definition sample_pools :: pool_world where
  "sample_pools = \<lparr>poolManager = Map.empty, created = 0,
     parse_config = (\<lambda>cs. Inr (sample_pool_config cs)), new_error = (\<lambda>_. None),
     acquireq = [Inr (3, 41, 42)], pingq = [Inl (Err ''timeout'')],
     checkedOut = [1]\<rparr>"

text \<open>
  The pool of a user and database was made from the connection string \<open>f database\<close> of the
  first caller, and so were the connections it gives out. The hypothesis on the parser is
  that a parsed configuration connects to where the string says.
\<close>

definition targets_ok :: "(string \<Rightarrow> string) \<Rightarrow> 'a pool_world_scheme \<Rightarrow> bool" where
  "targets_ok f w \<longleftrightarrow> (\<forall>user database p.
     poolManager w (user, database) = Some p \<longrightarrow> connTarget (poolConfig p) = f database)"

definition parse_target :: "'a pool_world_scheme \<Rightarrow> bool" where
  "parse_target w \<longleftrightarrow> (\<forall>cs config. parse_config w cs = Inr config \<longrightarrow> connTarget config = cs)"

lemma createPool_targets:
  assumes "targets_ok f w" and "parse_target w" and "createPool (user, database) (f database) w = (r, w')"
  shows "targets_ok f w' \<and> (\<forall>p. r = Ret (Inr p) \<longrightarrow> connTarget (poolConfig p) = f database)"
  using assms(3)
proof (cases rule: createPool_cases)
  case (1 p)
  with assms(1) show ?thesis by (auto simp: targets_ok_def)
next
  case (3 config)
  with assms(2) have "connTarget (withLimits config) = f database"
    by (simp add: parse_target_def withLimits_def)
  with 3 assms(1) show ?thesis by (auto simp: targets_ok_def split: if_splits)
qed (use assms(1) in auto)

lemma AcquireConnection_target:
  assumes "targets_ok f w" and "parse_target w"
    and "AcquireConnection user database (f database) w = (Ret (Inr c), w')"
  shows "targets_ok f w' \<and> connTarget (poolConfig (pcPool c)) = f database
    \<and> poolManager w' (user, database) = Some (pcPool c)"
proof -
  obtain q w1 where g: "GetOrCreatePool user database (f database) w = (q, w1)" by fastforce
  with assms(3) obtain p where p: "q = Ret (Inr p)"
    by (auto simp: AcquireConnection_def prog_simps split: outcome.splits sum.splits)
  have "targets_ok f w1 \<and> connTarget (poolConfig p) = f database \<and> poolManager w1 (user, database) = Some p"
  proof (cases "poolManager w (user, database)")
    case None
    with g p have "createPool (user, database) (f database) w = (Ret (Inr p), w1)"
      by (simp add: GetOrCreatePool_def lookupPool_def prog_simps)
    with createPool_targets [OF assms(1,2) this] show ?thesis by (simp add: createPool_stored)
  next
    case (Some p')
    with g p have "p' = p" "w1 = w" by (auto simp: GetOrCreatePool_def lookupPool_def prog_simps)
    with Some assms(1) show ?thesis by (auto simp: targets_ok_def)
  qed
  moreover from assms(3) g p have "pcPool c = p \<and> poolManager w' = poolManager w1"
    by (cases "acquireq w1"; cases "pingq w1")
      (auto simp: AcquireConnection_def pool_Acquire_def conn_Ping_def conn_Release_def prog_simps
        split: sum.splits)
  ultimately show ?thesis by (simp add: targets_ok_def)
qed

section \<open>Concurrent callers\<close>

text \<open>
  The goroutines in \<open>GetOrCreatePool\<close> and their lock. A \<open>sync.RWMutex\<close> counts its readers
  and knows its writer: \<open>Lock\<close> first makes the caller the writer, which keeps new readers
  and other writers out, and then waits for the readers that are inside. A goroutine is
  before \<open>RLock\<close>, reads the map, has read it, is before \<open>Lock\<close>, waits in \<open>Lock\<close> for the
  readers, looks into the map again, makes the pool, is before its deferred \<open>Unlock\<close>, or has
  returned; between any two of these steps anything may happen.
\<close>

datatype pool_pc =
    Calling poolKey string
  | Reading poolKey string
  | Looked poolKey string "pool option"
  | Missed poolKey string
  | Waiting poolKey string
  | Writing poolKey string
  | Making poolKey string
  | Leaving poolKey "error + pool"
  | Returned poolKey "error + pool"

record pool_system =
  shared :: pool_world
  callers :: "nat \<Rightarrow> pool_pc option"
  readers :: nat
  writer :: "nat option"

definition at_pc :: "nat \<Rightarrow> pool_pc \<Rightarrow> pool_system \<Rightarrow> pool_system" where
  "at_pc t pc s = s\<lparr>callers := (callers s)(t \<mapsto> pc)\<rparr>"

lemma at_pc_simps [simp]:
  "shared (at_pc t pc s) = shared s" "callers (at_pc t pc s) = (callers s)(t \<mapsto> pc)"
  "readers (at_pc t pc s) = readers s" "writer (at_pc t pc s) = writer s"
  by (simp_all add: at_pc_def)

inductive pool_step :: "pool_system \<Rightarrow> pool_system \<Rightarrow> bool" where
  call: "callers s t = None \<Longrightarrow> pool_step s (at_pc t (Calling key cs) s)"
| r_lock: "callers s t = Some (Calling key cs) \<Longrightarrow> writer s = None \<Longrightarrow>
     pool_step s (at_pc t (Reading key cs) (s\<lparr>readers := Suc (readers s)\<rparr>))"
| look: "callers s t = Some (Reading key cs) \<Longrightarrow> lookupPool key (shared s) = (Ret x, w') \<Longrightarrow>
     pool_step s (at_pc t (Looked key cs x) (s\<lparr>shared := w'\<rparr>))"
| r_unlock: "callers s t = Some (Looked key cs x) \<Longrightarrow>
     pool_step s (at_pc t (case x of Some p \<Rightarrow> Returned key (Inr p) | None \<Rightarrow> Missed key cs)
       (s\<lparr>readers := readers s - 1\<rparr>))"
| lock: "callers s t = Some (Missed key cs) \<Longrightarrow> writer s = None \<Longrightarrow>
     pool_step s (at_pc t (Waiting key cs) (s\<lparr>writer := Some t\<rparr>))"
| readers_left: "callers s t = Some (Waiting key cs) \<Longrightarrow> readers s = 0 \<Longrightarrow>
     pool_step s (at_pc t (Writing key cs) s)"
| look_again: "callers s t = Some (Writing key cs) \<Longrightarrow> lookupPool key (shared s) = (Ret x, w') \<Longrightarrow>
     pool_step s (at_pc t (case x of Some p \<Rightarrow> Leaving key (Inr p) | None \<Rightarrow> Making key cs)
       (s\<lparr>shared := w'\<rparr>))"
| make: "callers s t = Some (Making key cs) \<Longrightarrow> makePool key cs (shared s) = (Ret r, w') \<Longrightarrow>
     pool_step s (at_pc t (Leaving key r) (s\<lparr>shared := w'\<rparr>))"
| unlock: "callers s t = Some (Leaving key r) \<Longrightarrow>
     pool_step s (at_pc t (Returned key r) (s\<lparr>writer := None\<rparr>))"

inductive_cases pool_stepE: "pool_step s s'"

definition pool_start :: "pool_system \<Rightarrow> bool" where
  "pool_start s \<longleftrightarrow> poolManager (shared s) = Map.empty \<and> created (shared s) = 0
     \<and> callers s = Map.empty \<and> readers s = 0 \<and> writer s = None"

section \<open>The lock\<close>

text \<open>Who holds the read lock, who the write lock (or waits in \<open>Lock\<close> for the readers), and
  who is inside the write-locked section.\<close>

fun reads :: "pool_pc option \<Rightarrow> bool" where
  "reads (Some (Reading _ _)) = True"
| "reads (Some (Looked _ _ _)) = True"
| "reads _ = False"

fun writes :: "pool_pc option \<Rightarrow> bool" where
  "writes (Some (Waiting _ _)) = True"
| "writes (Some (Writing _ _)) = True"
| "writes (Some (Making _ _)) = True"
| "writes (Some (Leaving _ _)) = True"
| "writes _ = False"

fun excludes :: "pool_pc option \<Rightarrow> bool" where
  "excludes (Some (Writing _ _)) = True"
| "excludes (Some (Making _ _)) = True"
| "excludes (Some (Leaving _ _)) = True"
| "excludes _ = False"

lemma reads_some: "reads c \<Longrightarrow> \<exists>pc. c = Some pc"
  by (cases c) auto

definition reading :: "pool_system \<Rightarrow> nat set" where
  "reading s = {t. reads (callers s t)}"

lemma reading_at_pc:
  "reading (at_pc t pc s) = (if reads (Some pc) then insert t (reading s) else reading s - {t})"
  by (auto simp: reading_def)

lemma reading_fields [simp]:
  "reading (shared_update f s) = reading s" "reading (readers_update g s) = reading s"
  "reading (writer_update h s) = reading s"
  by (simp_all add: reading_def)

definition finite_callers :: "pool_system \<Rightarrow> bool" where
  "finite_callers s \<longleftrightarrow> finite (dom (callers s))"

lemma finite_reading: "finite_callers s \<Longrightarrow> finite (reading s)"
  unfolding finite_callers_def reading_def by (erule rev_finite_subset) (auto dest: reads_some)

text \<open>
  The lock counts right: \<open>readers\<close> is the number of goroutines that hold the read lock,
  \<open>writer\<close> is the one that holds or waits for the write lock, and no reader is inside
  together with it.
\<close>

definition lock_inv :: "pool_system \<Rightarrow> bool" where
  "lock_inv s \<longleftrightarrow> finite_callers s \<and> readers s = card (reading s)
     \<and> (\<forall>t. writes (callers s t) \<longleftrightarrow> writer s = Some t)
     \<and> (\<forall>t. excludes (callers s t) \<longrightarrow> readers s = 0)"

lemma lock_inv_writer: "lock_inv s \<Longrightarrow> writes (callers s t) \<longleftrightarrow> writer s = Some t"
  by (simp add: lock_inv_def)

lemma lock_inv_alone: "lock_inv s \<Longrightarrow> writes (callers s t) \<Longrightarrow> writes (callers s u) \<Longrightarrow> u = t"
  by (simp add: lock_inv_writer)

lemma excludes_writes: "excludes c \<Longrightarrow> writes c"
  by (cases c rule: excludes.cases) simp_all

lemma lock_start: "pool_start s \<Longrightarrow> lock_inv s"
  by (simp add: pool_start_def lock_inv_def finite_callers_def reading_def)

lemma lock_step:
  assumes inv: "lock_inv s" and "pool_step s s'"
  shows "lock_inv s'"
proof -
  from inv have fin: "finite_callers s" "finite (reading s)" and r: "readers s = card (reading s)"
    and w: "\<And>t. writes (callers s t) \<longleftrightarrow> writer s = Some t"
    by (simp_all add: lock_inv_def finite_reading)
  from inv have x: "\<And>t. excludes (callers s t) \<Longrightarrow> card (reading s) = 0"
    unfolding lock_inv_def by metis
  have f: "finite_callers s'"
    using assms(2) fin(1) by (cases rule: pool_step.cases) (simp_all add: finite_callers_def)
  have in_reading: "t \<in> reading s \<longleftrightarrow> reads (callers s t)" for t by (simp add: reading_def)
  from assms(2) have "readers s' = card (reading s')
     \<and> (\<forall>t. writes (callers s' t) \<longleftrightarrow> writer s' = Some t)
     \<and> (\<forall>t. excludes (callers s' t) \<longrightarrow> readers s' = 0)"
  proof cases
    case (call t key cs)
    with w [of t] show ?thesis by (auto simp: reading_at_pc in_reading r w x)
  next
    case (r_lock t key cs)
    with w [of t] fin(2) show ?thesis
      by (auto simp: reading_at_pc in_reading r w dest: excludes_writes)
  next
    case (look t key cs y w')
    with w [of t] show ?thesis by (auto simp: reading_at_pc in_reading insert_absorb r w x)
  next
    case (r_unlock t key cs y)
    with w [of t] fin(2) show ?thesis
      by (auto simp: reading_at_pc in_reading r w x split: option.split dest: x)
  next
    case (lock t key cs)
    with w [of t] show ?thesis by (auto simp: reading_at_pc in_reading r w x dest: excludes_writes)
  next
    case (readers_left t key cs)
    with w [of t] show ?thesis by (auto simp: reading_at_pc in_reading r w x)
  next
    case (look_again t key cs y w')
    with w [of t] x [of t] show ?thesis by (auto simp: reading_at_pc in_reading r w split: option.split)
  next
    case (make t key cs q w')
    with w [of t] x [of t] show ?thesis by (auto simp: reading_at_pc in_reading r w)
  next
    case (unlock t key q)
    with w [of t] x [of t] show ?thesis by (auto simp: reading_at_pc in_reading r w)
  qed
  with f show ?thesis unfolding lock_inv_def by blast
qed

interpretation locked: transition_invariant pool_start pool_step lock_inv
  by unfold_locales (auto intro: lock_start lock_step)

section \<open>One pool per key\<close>

text \<open>What a goroutine knows of the map, and what holds in every reachable state: a pool it has
  found or made is in the map, and since nobody but the writer changes the map, a key that
  was missing when the writer looked again is still missing when it makes the pool.\<close>

fun pc_ok :: "pool_world \<Rightarrow> pool_pc option \<Rightarrow> bool" where
  "pc_ok w (Some (Looked key _ (Some p))) = (poolManager w key = Some p)"
| "pc_ok w (Some (Leaving key (Inr p))) = (poolManager w key = Some p)"
| "pc_ok w (Some (Returned key (Inr p))) = (poolManager w key = Some p)"
| "pc_ok w (Some (Making key _)) = (poolManager w key = None)"
| "pc_ok w _ = True"

definition pool_system_inv :: "pool_system \<Rightarrow> bool" where
  "pool_system_inv s \<longleftrightarrow> lock_inv s \<and> pools_inv (shared s)
     \<and> card (dom (poolManager (shared s))) = created (shared s)
     \<and> (\<forall>t. pc_ok (shared s) (callers s t))"

lemma pool_system_pc: "pool_system_inv s \<Longrightarrow> callers s t = Some pc \<Longrightarrow> pc_ok (shared s) (Some pc)"
  by (metis pool_system_inv_def)

text \<open>Another goroutine that is not the writer does not mind that a missing pool is made.\<close>

lemma pc_ok_make:
  assumes "pc_ok w c" and "\<not> writes c" and "makePool key cs w = (r, w')" and "poolManager w key = None"
  shows "pc_ok w' c"
  using assms(1,2) makePool_stable [OF assms(3,4)] by (cases "(w, c)" rule: pc_ok.cases) auto

lemma pool_start_inv: "pool_start s \<Longrightarrow> pool_system_inv s"
  by (simp add: lock_start pool_system_inv_def) (simp add: pool_start_def pools_inv_def)

lemma makePool_count:
  assumes "pools_inv w" and "makePool key cs w = (r, w')" and "poolManager w key = None"
    and "card (dom (poolManager w)) = created w"
  shows "card (dom (poolManager w')) = created w'"
  using assms(2)
proof (cases rule: makePool_cases)
  case (2 config)
  with assms(1,3,4) show ?thesis by (simp add: pools_inv_def domIff card_insert_if)
qed (use assms(4) in simp_all)

text \<open>A step that leaves the map alone needs to be checked for its own goroutine only.\<close>

lemma pool_system_inv_frame:
  assumes "pool_system_inv s" and "lock_inv s'"
    and "shared s' = shared s" and "callers s' = (callers s)(t \<mapsto> pc)" and "pc_ok (shared s) (Some pc)"
  shows "pool_system_inv s'"
  using assms by (simp add: pool_system_inv_def)

lemma pool_step_make:
  assumes inv: "pool_system_inv s" and "lock_inv (at_pc t (Leaving key r) (s\<lparr>shared := w'\<rparr>))"
    and t: "callers s t = Some (Making key cs)" and m: "makePool key cs (shared s) = (Ret r, w')"
  shows "pool_system_inv (at_pc t (Leaving key r) (s\<lparr>shared := w'\<rparr>))"
proof -
  from inv have lock: "lock_inv s" and old: "pools_inv (shared s)"
    "card (dom (poolManager (shared s))) = created (shared s)" and ok: "pc_ok (shared s) (callers s u)" for u
    by (simp_all add: pool_system_inv_def)
  from pool_system_pc [OF inv t] have none: "poolManager (shared s) key = None" by simp
  have "pc_ok w' (callers s u)" if "u \<noteq> t" for u
    using that lock_inv_alone [OF lock, of t u] t by (intro pc_ok_make [OF ok _ m none]) auto
  moreover have "pc_ok w' (Some (Leaving key r))"
    using m by (cases r) (auto dest: makePool_stored)
  ultimately show ?thesis
    using makePool_inv [OF old(1) none m] makePool_count [OF old(1) m none old(2)] assms(2)
    by (simp add: pool_system_inv_def)
qed

lemma pc_ok_Looked: "pc_ok w (Some (Looked key cs x)) \<longleftrightarrow> (\<forall>p. x = Some p \<longrightarrow> poolManager w key = Some p)"
  by (cases x) auto

lemma lookupPool_eq: "lookupPool key w = (Ret x, w') \<longleftrightarrow> x = poolManager w key \<and> w' = w"
  by (auto simp: lookupPool_def prog_simps)

lemma pool_step_inv:
  assumes inv: "pool_system_inv s" and step: "pool_step s s'"
  shows "pool_system_inv s'"
proof -
  have "lock_inv s" using inv by (simp add: pool_system_inv_def)
  then have lock': "lock_inv s'" using step by (rule lock_step)
  note frame = pool_system_inv_frame [OF inv lock']
  from step show ?thesis
  proof cases
    case (look t key cs x w')
    then show ?thesis
      by (intro frame [of t "Looked key cs x"]) (simp_all add: lookupPool_eq pc_ok_Looked)
  next
    case (r_unlock t key cs x)
    with pool_system_pc [OF inv r_unlock(2)] show ?thesis
      by (intro frame [of t "case x of Some p \<Rightarrow> Returned key (Inr p) | None \<Rightarrow> Missed key cs"]; cases x) simp_all
  next
    case (look_again t key cs x w')
    then show ?thesis
      by (intro frame [of t "case poolManager (shared s) key of Some p \<Rightarrow> Leaving key (Inr p) | None \<Rightarrow> Making key cs"];
          cases "poolManager (shared s) key") (simp_all add: lookupPool_eq)
  next
    case (make t key cs r w')
    with lock' show ?thesis by (simp add: pool_step_make [OF inv])
  next
    case (unlock t key r)
    with pool_system_pc [OF inv unlock(2)] show ?thesis
      by (intro frame [of t "Returned key r"]; cases r) simp_all
  next
    case (call t key cs)
    then show ?thesis by (intro frame [of t "Calling key cs"]) simp_all
  next
    case (r_lock t key cs)
    then show ?thesis by (intro frame [of t "Reading key cs"]) simp_all
  next
    case (lock t key cs)
    then show ?thesis by (intro frame [of t "Waiting key cs"]) simp_all
  next
    case (readers_left t key cs)
    then show ?thesis by (intro frame [of t "Writing key cs"]) simp_all
  qed
qed

interpretation pools: transition_invariant pool_start pool_step pool_system_inv
  by unfold_locales (auto intro: pool_start_inv pool_step_inv)

text \<open>C13: One pool per user and database. However the calls of any number of goroutines
  interleave, all calls that succeed for the same user and database return the same pool,
  calls for different ones return different pools, and the number of pools ever created
  is the number of keys in the map: no pool is created twice or lost.\<close>

theorem one_pool_per_key:
  assumes "pool_start s" and "pool_step\<^sup>*\<^sup>* s s'"
    and "callers s' t = Some (Returned key (Inr p))"
    and "callers s' t' = Some (Returned key' (Inr p'))"
  shows "(key = key' \<longleftrightarrow> poolId p = poolId p') \<and> (key = key' \<longrightarrow> p = p')
    \<and> card (dom (poolManager (shared s'))) = created (shared s')"
proof -
  have inv: "pool_system_inv s'" using assms(1,2) by (rule pools.inv_reachable)
  from pool_system_pc [OF inv assms(3)] pool_system_pc [OF inv assms(4)]
  have "poolManager (shared s') key = Some p" "poolManager (shared s') key' = Some p'" by simp_all
  moreover from inv have "pools_inv (shared s')" "card (dom (poolManager (shared s'))) = created (shared s')"
    by (simp_all add: pool_system_inv_def)
  ultimately show ?thesis by (metis option.inject pools_inv_distinct)
qed

section \<open>Sequential and concurrent calls\<close>

text \<open>A goroutine that is alone goes through the steps with the result of \<open>GetOrCreatePool\<close>.\<close>

lemma at_pc_twice [simp]: "at_pc t pc (at_pc t pc' s) = at_pc t pc s"
  by (simp add: at_pc_def)

lemma at_pc_fields [simp]:
  "shared_update f (at_pc t pc s) = at_pc t pc (shared_update f s)"
  "readers_update g (at_pc t pc s) = at_pc t pc (readers_update g s)"
  "writer_update h (at_pc t pc s) = at_pc t pc (writer_update h s)"
  by (simp_all add: at_pc_def)

lemma look_steps:
  assumes "callers s t = Some (Calling key cs)" and "writer s = None"
  shows "pool_step\<^sup>*\<^sup>* s (at_pc t (case poolManager (shared s) key of
    Some p \<Rightarrow> Returned key (Inr p) | None \<Rightarrow> Missed key cs) s)"
proof -
  let ?x = "poolManager (shared s) key" and ?r = "s\<lparr>readers := Suc (readers s)\<rparr>"
  have "pool_step s (at_pc t (Reading key cs) ?r)"
    using assms by (rule pool_step.r_lock)
  moreover have "pool_step (at_pc t (Reading key cs) ?r) (at_pc t (Looked key cs ?x) ?r)"
    using pool_step.look [of "at_pc t (Reading key cs) ?r" t key cs ?x "shared s"]
    by (simp add: lookupPool_eq)
  moreover have "pool_step (at_pc t (Looked key cs ?x) ?r)
      (at_pc t (case ?x of Some p \<Rightarrow> Returned key (Inr p) | None \<Rightarrow> Missed key cs) s)"
    using pool_step.r_unlock [of "at_pc t (Looked key cs ?x) ?r" t key cs ?x] by simp
  ultimately show ?thesis by (meson converse_rtranclp_into_rtranclp rtranclp.rtrancl_refl)
qed

lemma create_steps:
  assumes "callers s t = Some (Missed key cs)" and "writer s = None" and "readers s = 0"
    and c: "createPool key cs (shared s) = (Ret r, w')"
  shows "pool_step\<^sup>*\<^sup>* s (at_pc t (Returned key r) (s\<lparr>shared := w'\<rparr>))"
proof -
  let ?l = "s\<lparr>writer := Some t\<rparr>" and ?x = "poolManager (shared s) key"
  have "pool_step s (at_pc t (Waiting key cs) ?l)"
    using assms(1,2) by (rule pool_step.lock)
  moreover have "pool_step (at_pc t (Waiting key cs) ?l) (at_pc t (Writing key cs) ?l)"
    using pool_step.readers_left [of "at_pc t (Waiting key cs) ?l" t key cs] assms(3) by simp
  moreover have "pool_step (at_pc t (Writing key cs) ?l)
      (at_pc t (case ?x of Some p \<Rightarrow> Leaving key (Inr p) | None \<Rightarrow> Making key cs) ?l)"
    using pool_step.look_again [of "at_pc t (Writing key cs) ?l" t key cs ?x "shared s"]
    by (simp add: lookupPool_eq)
  moreover have "pool_step\<^sup>*\<^sup>* (at_pc t (case ?x of Some p \<Rightarrow> Leaving key (Inr p) | None \<Rightarrow> Making key cs) ?l)
      (at_pc t (Leaving key r) (?l\<lparr>shared := w'\<rparr>))"
  proof (cases ?x)
    case None
    with c have "makePool key cs (shared s) = (Ret r, w')" by (simp add: createPool_def lookupPool_def prog_simps)
    with pool_step.make [of "at_pc t (Making key cs) ?l" t key cs r w'] None show ?thesis by auto
  next
    case (Some p)
    with c have "r = Inr p" "w' = shared s" by (simp_all add: createPool_def lookupPool_def prog_simps)
    with Some show ?thesis by simp
  qed
  moreover have "s\<lparr>shared := w', writer := None\<rparr> = s\<lparr>shared := w'\<rparr>" using assms(2) by (cases s) simp
  then have "pool_step (at_pc t (Leaving key r) (?l\<lparr>shared := w'\<rparr>)) (at_pc t (Returned key r) (s\<lparr>shared := w'\<rparr>))"
    using pool_step.unlock [of "at_pc t (Leaving key r) (?l\<lparr>shared := w'\<rparr>)" t key r] by simp
  ultimately show ?thesis
    by (meson converse_rtranclp_into_rtranclp rtranclp_trans rtranclp.rtrancl_into_rtrancl)
qed

lemma caller_alone:
  assumes t: "callers s t = Some (Calling (user, database) cs)" and "writer s = None" and "readers s = 0"
    and g: "GetOrCreatePool user database cs (shared s) = (out, w')"
  shows "\<exists>r. out = Ret r \<and> pool_step\<^sup>*\<^sup>* s (at_pc t (Returned (user, database) r) (s\<lparr>shared := w'\<rparr>))"
proof (cases "poolManager (shared s) (user, database)")
  case None
  with g have c: "createPool (user, database) cs (shared s) = (out, w')"
    by (simp add: GetOrCreatePool_def lookupPool_def prog_simps)
  then obtain r where r: "out = Ret r" by (cases rule: createPool_cases) auto
  have "pool_step\<^sup>*\<^sup>* s (at_pc t (Missed (user, database) cs) s)"
    using look_steps [OF t assms(2)] None by simp
  also have "pool_step\<^sup>*\<^sup>* (at_pc t (Missed (user, database) cs) s)
      (at_pc t (Returned (user, database) r) (s\<lparr>shared := w'\<rparr>))"
    using create_steps [of "at_pc t (Missed (user, database) cs) s" t "(user, database)" cs r w']
      assms(2,3) c r by simp
  finally show ?thesis using r by blast
next
  case (Some p)
  with g have "out = Ret (Inr p)" "w' = shared s"
    by (simp_all add: GetOrCreatePool_def lookupPool_def prog_simps)
  with look_steps [OF t assms(2)] Some show ?thesis by simp
qed

text \<open>Two goroutines that both miss: the second one finds the pool of the first.\<close>

definition racing_start :: pool_system where
  "racing_start = \<lparr>shared = sample_pools, callers = Map.empty, readers = 0, writer = None\<rparr>"

text \<open>Two goroutines that have just called.\<close>

definition two_calls :: pool_system where
  "two_calls = at_pc 1 (Calling (''u'', ''d'') ''cs'') (at_pc 0 (Calling (''u'', ''d'') ''cs'') racing_start)"

definition racing_pool :: pool where
  "racing_pool = \<lparr>poolId = 0, poolConfig = withLimits (sample_pool_config ''cs'')\<rparr>"

definition racing_end :: pool_system where
  "racing_end = \<lparr>shared = sample_pools\<lparr>poolManager := [(''u'', ''d'') \<mapsto> racing_pool], created := 1\<rparr>,
     callers = [0 \<mapsto> Returned (''u'', ''d'') (Inr racing_pool), 1 \<mapsto> Returned (''u'', ''d'') (Inr racing_pool)],
     readers = 0, writer = None\<rparr>"

lemma racing_start_ok: "pool_start racing_start"
  by (simp add: pool_start_def racing_start_def sample_pools_def)

lemma two_calls_reachable: "pool_step\<^sup>*\<^sup>* racing_start two_calls"
proof -
  let ?c = "Calling (''u'', ''d'') ''cs''"
  have "pool_step racing_start (at_pc 0 ?c racing_start)"
    by (rule pool_step.call) (simp add: racing_start_def)
  moreover have "pool_step (at_pc 0 ?c racing_start) two_calls"
    unfolding two_calls_def by (rule pool_step.call) (simp add: racing_start_def)
  ultimately show ?thesis by (blast intro: rtranclp.rtrancl_into_rtrancl [of pool_step])
qed

lemma racing_run: "pool_step\<^sup>*\<^sup>* racing_start racing_end"
proof -
  let ?k = "(''u'', ''d'')" and ?w = "sample_pools"
  let ?w' = "sample_pools\<lparr>poolManager := [(''u'', ''d'') \<mapsto> racing_pool], created := 1\<rparr>"
  let ?m = "Missed ?k ''cs''" and ?d = "Returned ?k (Inr racing_pool)"
  let ?s = "\<lambda>w p q. \<lparr>shared = w, callers = [0 \<mapsto> p, 1 \<mapsto> q], readers = 0, writer = None\<rparr>"
  have c: "createPool ?k ''cs'' ?w = (Ret (Inr racing_pool), ?w')"
    by (simp add: pool_defs prog_simps sample_pools_def racing_pool_def)
  have c': "createPool ?k ''cs'' ?w' = (Ret (Inr racing_pool), ?w')"
    by (simp add: pool_defs prog_simps)
  have n: "poolManager sample_pools ?k = None" by (simp add: sample_pools_def)
  let ?c = "Calling ?k ''cs''"
  have "two_calls = ?s ?w ?c ?c" by (simp add: two_calls_def racing_start_def at_pc_def)
  with two_calls_reachable have "pool_step\<^sup>*\<^sup>* racing_start (?s ?w ?c ?c)" by simp
  moreover have "pool_step\<^sup>*\<^sup>* (?s ?w ?c ?c) (?s ?w ?m ?c)"
    using look_steps [of "?s ?w ?c ?c" 0 ?k "''cs''"] n by (simp add: at_pc_def fun_upd_twist)
  moreover have "pool_step\<^sup>*\<^sup>* (?s ?w ?m ?c) (?s ?w ?m ?m)"
    using look_steps [of "?s ?w ?m ?c" 1 ?k "''cs''"] n by (simp add: at_pc_def)
  moreover have "pool_step\<^sup>*\<^sup>* (?s ?w ?m ?m) (?s ?w' ?d ?m)"
    using create_steps [of "?s ?w ?m ?m" 0 ?k "''cs''" "Inr racing_pool" ?w'] c
    by (simp add: at_pc_def fun_upd_twist)
  moreover have "pool_step\<^sup>*\<^sup>* (?s ?w' ?d ?m) (?s ?w' ?d ?d)"
    using create_steps [of "?s ?w' ?d ?m" 1 ?k "''cs''" "Inr racing_pool" ?w'] c' by (simp add: at_pc_def)
  ultimately show ?thesis unfolding racing_end_def by (blast intro: rtranclp_trans)
qed

theorem one_pool_per_key_witness:
  "card (dom (poolManager (shared racing_end))) = created (shared racing_end)"
proof -
  have "callers racing_end 0 = Some (Returned (''u'', ''d'') (Inr racing_pool))"
    "callers racing_end 1 = Some (Returned (''u'', ''d'') (Inr racing_pool))"
    by (simp_all add: racing_end_def)
  from one_pool_per_key [OF racing_start_ok racing_run this] show ?thesis by simp
qed

section \<open>Every caller returns\<close>

text \<open>The steps of the goroutines that have called, without new calls.\<close>

definition pool_work :: "pool_system \<Rightarrow> pool_system \<Rightarrow> bool" where
  "pool_work s s' \<longleftrightarrow> pool_step s s' \<and> dom (callers s') = dom (callers s)"

fun pc_todo :: "pool_pc option \<Rightarrow> nat" where
  "pc_todo (Some (Calling _ _)) = 8"
| "pc_todo (Some (Reading _ _)) = 7"
| "pc_todo (Some (Looked _ _ _)) = 6"
| "pc_todo (Some (Missed _ _)) = 5"
| "pc_todo (Some (Waiting _ _)) = 4"
| "pc_todo (Some (Writing _ _)) = 3"
| "pc_todo (Some (Making _ _)) = 2"
| "pc_todo (Some (Leaving _ _)) = 1"
| "pc_todo _ = 0"

definition pool_todo :: "pool_system \<Rightarrow> nat" where
  "pool_todo s = (\<Sum>t\<in>dom (callers s). pc_todo (callers s t))"

text \<open>All calls have returned and the lock is free.\<close>

definition all_returned :: "pool_system \<Rightarrow> bool" where
  "all_returned s \<longleftrightarrow> (\<forall>t\<in>dom (callers s). \<exists>key r. callers s t = Some (Returned key r))
     \<and> readers s = 0 \<and> writer s = None"

lemma work_step:
  "pool_step s (at_pc t pc s') \<Longrightarrow> callers s' = callers s \<Longrightarrow> callers s t \<noteq> None \<Longrightarrow>
     \<exists>s''. pool_work s s''"
  unfolding pool_work_def by (intro exI [of _ "at_pc t pc s'"]) auto

lemma pool_todo_at_pc:
  assumes "finite_callers s" and "callers s t \<noteq> None" and "callers s' = (callers s)(t \<mapsto> pc)"
    and "pc_todo (Some pc) < pc_todo (callers s t)"
  shows "pool_todo s' < pool_todo s"
proof -
  have d: "dom (callers s') = dom (callers s)" using assms(2,3) by auto
  show ?thesis unfolding pool_todo_def d
    using assms by (intro sum_strict_mono_ex1) (auto simp: finite_callers_def)
qed

lemma pool_todo_step:
  assumes "lock_inv s" and "pool_work s s'"
  shows "pool_todo s' < pool_todo s"
proof -
  from assms(2) have step: "pool_step s s'" and d: "dom (callers s') = dom (callers s)"
    by (simp_all add: pool_work_def)
  from assms(1) have fin: "finite_callers s" by (simp add: lock_inv_def)
  from step show ?thesis
  proof cases
    case (call t key cs)
    with d show ?thesis by auto
  next
    case (r_unlock t key cs x)
    then show ?thesis by (cases x) (auto intro: pool_todo_at_pc [OF fin, of t])
  next
    case (look_again t key cs x w')
    then show ?thesis by (cases x) (auto intro: pool_todo_at_pc [OF fin, of t])
  qed (auto intro: pool_todo_at_pc [OF fin])
qed

text \<open>A goroutine inside a locked section can always go on: a reader leaves, the writer makes
  its pool or fails and unlocks.\<close>

lemma reader_goes_on:
  assumes "reads (callers s t)"
  shows "\<exists>s'. pool_work s s'"
proof -
  from assms obtain pc where t: "callers s t = Some pc" by (auto dest: reads_some)
  with assms consider (reading) key cs where "pc = Reading key cs"
    | (looked) key cs x where "pc = Looked key cs x" by (cases pc) auto
  then show ?thesis
  proof cases
    case (reading key cs)
    from pool_step.look [OF t [unfolded reading], of "poolManager (shared s) key" "shared s"]
    show ?thesis by (rule work_step) (simp_all add: lookupPool_eq t)
  next
    case (looked key cs x)
    from pool_step.r_unlock [OF t [unfolded looked]] show ?thesis
      by (rule work_step) (simp_all add: t)
  qed
qed

lemma writer_goes_on:
  assumes inv: "lock_inv s" and "writes (callers s t)"
  shows "\<exists>s'. pool_work s s'"
proof -
  from assms(2) obtain pc where t: "callers s t = Some pc" by (cases "callers s t") auto
  with assms(2) consider (waiting) key cs where "pc = Waiting key cs"
    | (writing) key cs where "pc = Writing key cs" | (making) key cs where "pc = Making key cs"
    | (leaving) key r where "pc = Leaving key r" by (cases pc) auto
  then show ?thesis
  proof cases
    case (waiting key cs)
    show ?thesis
    proof (cases "readers s = 0")
      case True
      from pool_step.readers_left [OF t [unfolded waiting] this] show ?thesis
        by (rule work_step) (simp_all add: t)
    next
      case False
      with inv have "reading s \<noteq> {}" by (auto simp: lock_inv_def)
      then show ?thesis by (auto simp: reading_def intro: reader_goes_on)
    qed
  next
    case (writing key cs)
    from pool_step.look_again [OF t [unfolded writing], of "poolManager (shared s) key" "shared s"]
    show ?thesis by (rule work_step) (simp_all add: lookupPool_eq t)
  next
    case (making key cs)
    obtain r w' where "makePool key cs (shared s) = (Ret r, w')" using makePool_returns by blast
    from pool_step.make [OF t [unfolded making] this] show ?thesis
      by (rule work_step) (simp_all add: t)
  next
    case (leaving key r)
    from pool_step.unlock [OF t [unfolded leaving]] show ?thesis
      by (rule work_step) (simp_all add: t)
  qed
qed

lemma pool_progress:
  assumes inv: "lock_inv s" and "\<not> all_returned s"
  shows "\<exists>s'. pool_work s s'"
proof (cases "(\<exists>t. reads (callers s t)) \<or> (\<exists>t. writes (callers s t))")
  case True
  then show ?thesis by (auto intro: reader_goes_on writer_goes_on [OF inv])
next
  case False
  with inv have free: "readers s = 0" "writer s = None"
    by (auto simp: lock_inv_def reading_def)
  with assms(2) obtain t pc where t: "callers s t = Some pc" and "\<nexists>key r. pc = Returned key r"
    by (auto simp: all_returned_def)
  moreover have "\<not> reads (Some pc)" "\<not> writes (Some pc)" using False t by metis+
  ultimately consider (calling) key cs where "pc = Calling key cs" | (missed) key cs where "pc = Missed key cs"
    by (cases pc) auto
  then show ?thesis
  proof cases
    case (calling key cs)
    from pool_step.r_lock [OF t [unfolded calling] free(2)] show ?thesis
      by (rule work_step) (simp_all add: t)
  next
    case (missed key cs)
    from pool_step.lock [OF t [unfolded missed] free(2)] show ?thesis
      by (rule work_step) (simp_all add: t)
  qed
qed

interpretation working: finishing_system lock_inv pool_work lock_inv pool_todo all_returned
proof
  show "lock_inv t" if "lock_inv s" "pool_work s t" for s t
    using that lock_step by (simp add: pool_work_def)
qed (auto intro: pool_todo_step pool_progress)

text \<open>C33: No caller of \<open>GetOrCreatePool\<close> is left waiting for the lock. In every reachable state of
  any number of goroutines, if no new calls come in, then however they interleave they take
  together at most eight steps per goroutine, and they can only stop when all calls have
  returned and nobody holds the lock: every \<open>RLock\<close> has its \<open>RUnlock\<close> and every \<open>Lock\<close> its
  \<open>Unlock\<close> on every path, also when the configuration is bad or the pool cannot be made.\<close>

theorem pool_callers_return:
  assumes "pool_start s" and "pool_step\<^sup>*\<^sup>* s s'"
  shows "must_finish pool_work all_returned (8 * card (dom (callers s'))) s'"
proof -
  have inv: "lock_inv s'" using assms by (rule locked.inv_reachable)
  have "pc_todo c \<le> 8" for c by (cases c rule: pc_todo.cases) auto
  then have "pool_todo s' \<le> 8 * card (dom (callers s'))"
    using sum_bounded_above [of "dom (callers s')" "\<lambda>t. pc_todo (callers s' t)" 8]
    by (simp add: pool_todo_def mult.commute)
  with must_finish_mono [OF working.finishes [OF inv]] show ?thesis by blast
qed

theorem pool_callers_return_witness: "must_finish pool_work all_returned 16 two_calls"
  using pool_callers_return [OF racing_start_ok two_calls_reachable]
  by (simp add: two_calls_def racing_start_def dom_fun_upd)

end
