(* ===== verification/Wire.thy ===== *)
theory Wire
  imports GoStd
begin

text \<open>
  The PostgreSQL protocol messages as the code sees them: the types of \<open>pgproto3\<close> that it
  names, with the fields it reads or sets. A message of a type that the code never names
  is \<open>OtherFrontend\<close>, \<open>OtherBackend\<close> or \<open>GSSEncRequest\<close> (the one other start-up message of
  pgproto3). Encoding and parsing are \<open>pgproto3\<close>'s.
\<close>

type_synonym parameters = "string \<rightharpoonup> string"

datatype StartupMsg =
    StartupMessage parameters
  | SSLRequest
  | CancelRequest (cancelPID: u32) (cancelKey: u32)
  | GSSEncRequest

datatype FrontendMessage =
    SendStartup parameters
  | PasswordMessage string
  | SASLInitialResponse string string
  | SASLResponse string
  | Query string
  | Parse string string
  | Describe char string
  | Bind string string "string list"
  | Execute string u32
  | Sync
  | Terminate
  | OtherFrontend string

datatype BackendMessage =
    AuthenticationOk
  | AuthenticationCleartextPassword
  | AuthenticationMD5Password "u8 list"
  | AuthenticationSASL "string list"
  | AuthenticationSASLContinue string
  | AuthenticationSASLFinal string
  | ErrorResponse string string string
  | ReadyForQuery char
  | ParameterStatus string string
  | BackendKeyData u32 u32
  | CommandComplete string
  | OtherBackend string

text \<open>
  The client's connection is a TCP connection or, after an upgrade, TLS over it. A
  \<open>pgproto3.Backend\<close> is bound to the connection it was made from; the model passes that
  transport around and tags what is written with it. \<open>RawByte\<close> is the one-byte answer to
  an SSLRequest.
\<close>

datatype transport = PlainTCP | TLSConn

datatype client_out = RawByte char | Msg BackendMessage

type_synonym client_link = "(FrontendMessage, transport \<times> client_out) endpoint"

type_synonym backend_link = "(BackendMessage, FrontendMessage) endpoint"

text \<open>The error message the proxy sends on its own account (\<open>sendErrorToClient\<close>).\<close>

definition proxyError :: "string \<Rightarrow> BackendMessage" where
  "proxyError msg = ErrorResponse ''FATAL'' ''08006'' msg"

end
