(* ===== verification/Server.thy ===== *)
theory Server
  imports Pool Wire Config "HOL-Library.AList"
begin

text \<open>
  \<open>internal/proxy/server.go\<close>, the registry part: the \<open>Server\<close> and \<open>Connection\<close> structs, the
  map from cancel keys to the connections of the clients that were given them, and the
  operations on it. Connections are shared by pointer, so they live in a heap.
\<close>

unbundle bit_operations_syntax

section \<open>Data\<close>

text \<open>
  The field \<open>poolConn\<close>: nil, a connection that was acquired, or one that has been given
  back with \<open>Release\<close>, on which \<open>Conn\<close> must not be called any more (pgxpool dereferences
  a nil pointer then).
\<close>

datatype pool_ref = NoPool | Held pool_conn | Released pool_conn

text \<open>The fields of \<open>Connection\<close>; those that never change after \<open>Start\<close> made it are the
  server's.\<close>

record Connection =
  pc_conn :: transport
  pc_poolConn :: pool_ref
  pc_bf :: "pool_conn option"
  pc_user :: string
  pc_db :: string
  pc_key :: "(u32 \<times> u32) option"

text \<open>\<open>activeConnections\<close> is an association list with distinct keys; \<open>srv_tlsConfig\<close> says
  whether there is a TLS configuration.\<close>

record Server =
  srv_config :: Config
  srv_tlsConfig :: bool
  activeConnections :: "(u64 \<times> nat) list"

record server_world = Server +
  heap :: "nat \<Rightarrow> Connection"

definition NewServer :: "Config \<Rightarrow> bool \<Rightarrow> Server" where
  "NewServer cfg tls = \<lparr>srv_config = cfg, srv_tlsConfig = tls, activeConnections = []\<rparr>"

text \<open>The struct \<open>Start\<close> makes for an accepted connection.\<close>

definition newConnection :: Connection where
  "newConnection = \<lparr>pc_conn = PlainTCP, pc_poolConn = NoPool, pc_bf = None, pc_user = '''',
     pc_db = '''', pc_key = None\<rparr>"

section \<open>Operations\<close>

definition makeCancelKey :: "u32 \<Rightarrow> u32 \<Rightarrow> u64" where
  "makeCancelKey processId secretKey = push_bit 32 (ucast processId) OR ucast secretKey"

text \<open>\<open>c.Conn().PgConn()\<close>, with the process id and the secret key it has.\<close>

definition PgConn :: "pool_ref \<Rightarrow> ('w, u32 \<times> u32) prog" where
  "PgConn c = (case c of Held p \<Rightarrow> ret (pcPID p, pcSecret p) | _ \<Rightarrow> panic)"

text \<open>
  The loop that logs the registry: it reads the keys of the pool connection of every
  entry, and panics if one has none. (Go iterates in any order; the outcome is the same.)
\<close>

fun logRegistry :: "(u64 \<times> nat) list \<Rightarrow> ('a server_world_scheme, unit) prog" where
  "logRegistry [] = ret ()"
| "logRegistry ((k, v) # es) =
     andThen (gets (\<lambda>w. pc_poolConn (heap w v))) (\<lambda>c.
     andThen (PgConn c) (\<lambda>_. logRegistry es))"

definition registerConnection :: "u32 \<Rightarrow> u32 \<Rightarrow> nat \<Rightarrow> ('a server_world_scheme, unit) prog" where
  "registerConnection processId secretkey pc =
     andThen (modify (activeConnections_update (AList.update (makeCancelKey processId secretkey) pc))) (\<lambda>_.
     andThen (gets activeConnections) logRegistry)"

definition unregisterConnection :: "u32 \<Rightarrow> u32 \<Rightarrow> nat \<Rightarrow> ('a server_world_scheme, unit) prog" where
  "unregisterConnection processId secretkey pc =
     modify (activeConnections_update (AList.delete (makeCancelKey processId secretkey)))"

definition getConnectionForCancelRequest ::
  "u32 \<Rightarrow> u32 \<Rightarrow> ('a server_world_scheme, nat option) prog" where
  "getConnectionForCancelRequest processId secretkey =
     gets (\<lambda>w. map_of (activeConnections w) (makeCancelKey processId secretkey))"

section \<open>Cancel keys\<close>

lemma makeCancelKey_pid: "(ucast (drop_bit 32 (makeCancelKey pid sk)) :: u32) = pid"
  by (rule bit_word_eqI) (auto simp: makeCancelKey_def bit_simps dest: bit_imp_le_length)

lemma makeCancelKey_secret: "(ucast (makeCancelKey pid sk) :: u32) = sk"
  by (rule bit_word_eqI) (auto simp: makeCancelKey_def bit_simps dest: bit_imp_le_length)

text \<open>The registry key of a cancel key holds the process id in its upper and the secret key in
  its lower half, so distinct pairs have distinct registry keys.\<close>

theorem cancel_key_roundtrip:
  "ucast (drop_bit 32 (makeCancelKey pid sk)) = pid \<and> ucast (makeCancelKey pid sk) = sk
    \<and> (makeCancelKey pid sk = makeCancelKey pid' sk') = (pid = pid' \<and> sk = sk')"
  by (metis makeCancelKey_pid makeCancelKey_secret)

section \<open>The registry as a table\<close>

text \<open>What the users of the registry rely on: it is a table from key pairs to connections.\<close>

datatype 'k table_op = Register 'k nat | Unregister 'k

fun table_step :: "'k table_op \<Rightarrow> ('k \<rightharpoonup> nat) \<Rightarrow> ('k \<rightharpoonup> nat)" where
  "table_step (Register k c) t = t(k \<mapsto> c)"
| "table_step (Unregister k) t = t(k := None)"

locale cancel_registry =
  fixes find :: "'m \<Rightarrow> 'k \<Rightarrow> nat option"
    and add :: "'k \<Rightarrow> nat \<Rightarrow> 'm \<Rightarrow> 'm"
    and del :: "'k \<Rightarrow> 'm \<Rightarrow> 'm"
  assumes find_add: "find (add k c m) k' = (if k' = k then Some c else find m k')"
    and find_del: "find (del k m) k' = (if k' = k then None else find m k')"
begin

lemma refines_step:
  "find (case op of Register k c \<Rightarrow> add k c m | Unregister k \<Rightarrow> del k m) = table_step op (find m)"
  by (rule ext) (cases op, simp_all add: find_add find_del)

lemma refines_table:
  "find (fold (\<lambda>op m. case op of Register k c \<Rightarrow> add k c m | Unregister k \<Rightarrow> del k m) ops m)
     = fold table_step ops (find m)"
  by (induction ops arbitrary: m) (simp_all only: fold_simps refines_step)

lemma sound_add:
  assumes "\<And>k c. find m k = Some c \<Longrightarrow> P k c" and "P k c"
    and "find (add k c m) k' = Some c'"
  shows "P k' c'"
  using assms by (auto simp: find_add split: if_splits)

lemma sound_del:
  assumes "\<And>k c. find m k = Some c \<Longrightarrow> P k c" and "find (del k m) k' = Some c'"
  shows "k' \<noteq> k \<and> P k' c'"
  using assms by (auto simp: find_del split: if_splits)

end

definition findConn :: "(u64 \<times> nat) list \<Rightarrow> u32 \<times> u32 \<Rightarrow> nat option" where
  "findConn m k = map_of m (makeCancelKey (fst k) (snd k))"

definition addConn :: "u32 \<times> u32 \<Rightarrow> nat \<Rightarrow> (u64 \<times> nat) list \<Rightarrow> (u64 \<times> nat) list" where
  "addConn k = AList.update (makeCancelKey (fst k) (snd k))"

definition delConn :: "u32 \<times> u32 \<Rightarrow> (u64 \<times> nat) list \<Rightarrow> (u64 \<times> nat) list" where
  "delConn k = AList.delete (makeCancelKey (fst k) (snd k))"

lemma makeCancelKey_eq [simp]: "makeCancelKey a b = makeCancelKey c d \<longleftrightarrow> a = c \<and> b = d"
  by (metis makeCancelKey_pid makeCancelKey_secret)

interpretation reg: cancel_registry findConn addConn delConn
  by unfold_locales
    (auto simp: findConn_def addConn_def delConn_def update_conv' delete_conv' prod_eq_iff)

section \<open>What the operations do\<close>

definition is_Held :: "pool_ref \<Rightarrow> bool" where
  "is_Held c \<longleftrightarrow> (\<exists>p. c = Held p)"

lemma is_Held_simps [simp]: "is_Held (Held p)" "\<not> is_Held NoPool" "\<not> is_Held (Released p)"
  by (simp_all add: is_Held_def)

lemma logRegistry_eq:
  "logRegistry es w =
     (if \<forall>e\<in>set es. is_Held (pc_poolConn (heap w (snd e))) then Ret () else Panic, w)"
proof (induction es)
  case (Cons e es)
  then show ?case
    by (cases e; cases "pc_poolConn (heap w (snd e))") (simp_all add: PgConn_def prog_simps)
qed (simp add: prog_simps)

lemma registerConnection_eq:
  "registerConnection pid sk pc w =
     (let es = addConn (pid, sk) pc (activeConnections w) in
      (if \<forall>e\<in>set es. is_Held (pc_poolConn (heap w (snd e))) then Ret () else Panic,
       w\<lparr>activeConnections := es\<rparr>))"
  by (simp add: registerConnection_def addConn_def prog_simps logRegistry_eq Let_def)

lemma unregisterConnection_eq:
  "unregisterConnection pid sk pc w =
     (Ret (), w\<lparr>activeConnections := delConn (pid, sk) (activeConnections w)\<rparr>)"
  by (simp add: unregisterConnection_def delConn_def prog_simps)

lemma getConnection_eq:
  "getConnectionForCancelRequest pid sk w = (Ret (findConn (activeConnections w) (pid, sk)), w)"
  by (simp add: getConnectionForCancelRequest_def findConn_def prog_simps)

lemmas registry_eqs = registerConnection_eq unregisterConnection_eq getConnection_eq

lemma distinct_addConn: "distinct (map fst m) \<Longrightarrow> distinct (map fst (addConn k c m))"
  unfolding addConn_def by (rule distinct_update)

lemma distinct_delConn: "distinct (map fst m) \<Longrightarrow> distinct (map fst (delConn k m))"
  unfolding delConn_def by (rule distinct_delete)

lemma set_addConn: "set (addConn k c m) \<subseteq> insert (makeCancelKey (fst k) (snd k), c) (set m)"
  unfolding addConn_def by (induction m) auto

lemma addConn_new: "(makeCancelKey (fst k) (snd k), c) \<in> set (addConn k c m)"
  unfolding addConn_def by (induction m) auto

lemma addConn_keeps:
  "e \<in> set m \<Longrightarrow> fst e \<noteq> makeCancelKey (fst k) (snd k) \<Longrightarrow> e \<in> set (addConn k c m)"
  unfolding addConn_def by (induction m) auto

lemma set_delConn: "set (delConn k m) = {e \<in> set m. fst e \<noteq> makeCancelKey (fst k) (snd k)}"
  unfolding delConn_def by (induction m) auto

section \<open>Registry properties\<close>

text \<open>A sequence of calls on the registry, as goroutines make them.\<close>

fun serve :: "(u32 \<times> u32) table_op list \<Rightarrow> ('a server_world_scheme, unit) prog" where
  "serve [] = ret ()"
| "serve (Register k c # ops) = andThen (registerConnection (fst k) (snd k) c) (\<lambda>_. serve ops)"
| "serve (Unregister k # ops) = andThen (unregisterConnection (fst k) (snd k) 0) (\<lambda>_. serve ops)"

fun op_conns :: "'k table_op list \<Rightarrow> nat set" where
  "op_conns [] = {}"
| "op_conns (Register k c # ops) = insert c (op_conns ops)"
| "op_conns (Unregister k # ops) = op_conns ops"

lemma serve_result:
  assumes "\<forall>c\<in>op_conns ops \<union> snd ` set (activeConnections w). is_Held (pc_poolConn (heap w c))"
  shows "serve ops w = (Ret (), w\<lparr>activeConnections := fold (\<lambda>op m. case op of
     Register k c \<Rightarrow> addConn k c m | Unregister k \<Rightarrow> delConn k m) ops (activeConnections w)\<rparr>)"
  using assms
proof (induction ops arbitrary: w rule: serve.induct)
  case (2 k c ops)
  let ?es = "addConn k c (activeConnections w)"
  have "\<forall>e\<in>set ?es. is_Held (pc_poolConn (heap w (snd e)))"
    using 2(2) set_addConn [of k c "activeConnections w"] by fastforce
  moreover from this 2(2) have "\<forall>v\<in>op_conns ops \<union> snd ` set ?es. is_Held (pc_poolConn (heap w v))"
    by auto
  ultimately show ?case
    using 2(1) [of "w\<lparr>activeConnections := ?es\<rparr>"]
    by (simp add: registerConnection_eq prog_simps Let_def)
next
  case (3 k ops)
  let ?es = "delConn k (activeConnections w)"
  from 3(2) have "\<forall>v\<in>op_conns ops \<union> snd ` set ?es. is_Held (pc_poolConn (heap w v))"
    by (auto simp: set_delConn)
  with 3(1) [of "w\<lparr>activeConnections := ?es\<rparr>"] show ?case
    by (simp add: unregisterConnection_eq prog_simps)
qed (simp add: prog_simps)

text \<open>C17: The registry is a table. As long as every registered connection holds its pool
  connection, any sequence of \<open>registerConnection\<close> and \<open>unregisterConnection\<close> calls
  returns, and afterwards \<open>getConnectionForCancelRequest\<close> answers for every process id
  and secret key as a finite map under the same updates would.\<close>

theorem registry_refines_table:
  assumes "\<forall>c\<in>op_conns ops \<union> snd ` set (activeConnections w). is_Held (pc_poolConn (heap w c))"
  shows "\<exists>w'. serve ops w = (Ret (), w') \<and> (\<forall>pid sk.
     getConnectionForCancelRequest pid sk w'
       = (Ret (fold table_step ops (findConn (activeConnections w)) (pid, sk)), w'))"
  using serve_result [OF assms] by (simp add: getConnection_eq reg.refines_table)

definition sample_pool_conn :: "u32 \<Rightarrow> u32 \<Rightarrow> pool_conn" where
  "sample_pool_conn pid sk = \<lparr>pcId = unat pid, pcPID = pid, pcSecret = sk,
     pcPool = \<lparr>poolId = 0, poolConfig = sample_pool_config ''cs''\<rparr>\<rparr>"

definition sample_server_world :: server_world where
  "sample_server_world = \<lparr>srv_config = sample_config, srv_tlsConfig = False, activeConnections = [],
     heap = (\<lambda>c. newConnection\<lparr>pc_poolConn := Held (sample_pool_conn (of_nat c) 7)\<rparr>)\<rparr>"

theorem registry_refines_table_witness:
  "\<exists>w'. serve [Register (41, 7) 1, Register (42, 7) 2, Unregister (41, 7)] sample_server_world = (Ret (), w')
     \<and> getConnectionForCancelRequest 42 7 w' = (Ret (Some 2), w')
     \<and> getConnectionForCancelRequest 41 7 w' = (Ret None, w')"
proof -
  let ?ops = "[Register (41, 7) 1, Register (42, 7) 2, Unregister (41, 7)] :: (u32 \<times> u32) table_op list"
  have "\<forall>c\<in>op_conns ?ops \<union> snd ` set (activeConnections sample_server_world).
      is_Held (pc_poolConn (heap sample_server_world c))"
    by (simp add: sample_server_world_def)
  from registry_refines_table [OF this] show ?thesis by auto
qed

text \<open>
  Registering dereferences the pool connection of every entry in the registry, for a log
  line that is written only at debug level: one released connection makes it panic.
\<close>

lemma register_panics:
  assumes "(k, c) \<in> set (activeConnections w)" and "\<not> is_Held (pc_poolConn (heap w c))"
    and "k \<noteq> makeCancelKey pid sk"
  shows "fst (registerConnection pid sk pc w) = Panic"
  using addConn_keeps [of "(k, c)" "activeConnections w" "(pid, sk)" pc] assms
  by (force simp: registerConnection_eq Let_def)

end
