(* ===== verification/Accept.thy ===== *)
theory Accept
  imports Server
begin

text \<open>
  \<open>Start\<close> of \<open>internal/proxy/server.go\<close>: the accept loop, the goroutine that closes the
  listener when the context is cancelled, and the wait group that the shutdown waits on.
  The goroutines interleave, so this is a step relation; its steps are labelled with who makes
  them happen. A panic of a connection's handler, which nobody recovers, ends the process.
\<close>

section \<open>Steps\<close>

definition listenAddr :: "Config \<Rightarrow> string" where
  "listenAddr c = JoinHostPort (ProxyHost c) (ProxyPort c)"

text \<open>Where the goroutine of \<open>Start\<close> is: before \<open>net.Listen\<close>, at \<open>Accept\<close>, in \<open>wg.Wait\<close>, or
  back in its caller.\<close>

datatype start_pc = AtListen | AtAccept | Draining | StartReturned "error + unit"

text \<open>
  Accepted connections are numbered. The wrapper goroutine of a connection runs
  \<open>defer wg.Done(); go pc.handleConnection()\<close>: it is in \<open>spawning\<close> until it has started the
  handler and in \<open>leaving\<close> until its deferred \<open>Done\<close>.
\<close>

record accept_state =
  ctxDone :: bool
  listening :: bool
  start_at :: start_pc
  accepted :: nat
  wg :: nat
  spawning :: "nat set"
  leaving :: "nat set"
  handling :: "nat set"
  handled :: "nat set"
  crashed :: bool

text \<open>
  Who makes a step happen: the goroutines of \<open>Start\<close> and the wrappers, which run when the
  scheduler lets them, or the outside (the signal, the network, and the handlers of the clients,
  which may end, panic or go on for ever). \<open>Accept\<close> returns an error for certain only when the
  listener is closed. A panic of a handler ends the process.
\<close>

datatype actor = Program | Outside

inductive start_step :: "actor \<Rightarrow> accept_state \<Rightarrow> accept_state \<Rightarrow> bool" where
  listen_error: "\<not> crashed s \<Longrightarrow> start_at s = AtListen \<Longrightarrow>
     start_step Outside s (s\<lparr>start_at := StartReturned (Inl (Wrap ''failed to start proxy server: %w'' e))\<rparr>)"
| listen: "\<not> crashed s \<Longrightarrow> start_at s = AtListen \<Longrightarrow>
     start_step Outside s (s\<lparr>start_at := AtAccept, listening := True\<rparr>)"
| cancel: "\<not> crashed s \<Longrightarrow> start_step Outside s (s\<lparr>ctxDone := True\<rparr>)"
| close_listener: "\<not> crashed s \<Longrightarrow> ctxDone s \<Longrightarrow> listening s \<Longrightarrow>
     start_step Program s (s\<lparr>listening := False\<rparr>)"
| accept: "\<not> crashed s \<Longrightarrow> start_at s = AtAccept \<Longrightarrow> listening s \<Longrightarrow>
     start_step Outside s (s\<lparr>accepted := Suc (accepted s), wg := Suc (wg s),
       spawning := insert (accepted s) (spawning s)\<rparr>)"
| accept_error: "\<not> crashed s \<Longrightarrow> start_at s = AtAccept \<Longrightarrow> listening s \<Longrightarrow>
     start_step Outside s (if ctxDone s then s\<lparr>start_at := Draining\<rparr> else s)"
| accept_closed: "\<not> crashed s \<Longrightarrow> start_at s = AtAccept \<Longrightarrow> \<not> listening s \<Longrightarrow>
     start_step Program s (if ctxDone s then s\<lparr>start_at := Draining\<rparr> else s)"
| drained: "\<not> crashed s \<Longrightarrow> start_at s = Draining \<Longrightarrow> wg s = 0 \<Longrightarrow>
     start_step Program s (s\<lparr>start_at := StartReturned (Inr ())\<rparr>)"
| spawn: "\<not> crashed s \<Longrightarrow> n \<in> spawning s \<Longrightarrow>
     start_step Program s (s\<lparr>spawning := spawning s - {n}, leaving := insert n (leaving s),
       handling := insert n (handling s)\<rparr>)"
| wg_done: "\<not> crashed s \<Longrightarrow> n \<in> leaving s \<Longrightarrow>
     start_step Program s (s\<lparr>leaving := leaving s - {n}, wg := wg s - 1\<rparr>)"
| handler_end: "\<not> crashed s \<Longrightarrow> n \<in> handling s \<Longrightarrow>
     start_step Outside s (s\<lparr>handling := handling s - {n}, handled := insert n (handled s)\<rparr>)"
| handler_panic: "\<not> crashed s \<Longrightarrow> n \<in> handling s \<Longrightarrow>
     start_step Outside s (s\<lparr>handling := handling s - {n}, handled := insert n (handled s), crashed := True\<rparr>)"

inductive_cases start_stepE: "start_step a s s'"

definition server_step :: "accept_state \<Rightarrow> accept_state \<Rightarrow> bool" where
  "server_step s s' \<longleftrightarrow> (\<exists>a. start_step a s s')"

lemmas server_stepI = server_step_def [THEN iffD2, OF exI]

definition start_init :: "accept_state \<Rightarrow> bool" where
  "start_init s \<longleftrightarrow> start_at s = AtListen \<and> \<not> listening s \<and> accepted s = 0 \<and> wg s = 0
     \<and> spawning s = {} \<and> leaving s = {} \<and> handling s = {} \<and> handled s = {} \<and> \<not> crashed s"

section \<open>Invariant\<close>

text \<open>The counter counts the wrapper goroutines, and every accepted connection is waiting for
  its handler, handled, or has been.\<close>

definition start_inv :: "accept_state \<Rightarrow> bool" where
  "start_inv s \<longleftrightarrow> finite (spawning s) \<and> finite (leaving s) \<and> spawning s \<inter> leaving s = {}
     \<and> wg s = card (spawning s) + card (leaving s)
     \<and> spawning s \<inter> (handling s \<union> handled s) = {}
     \<and> spawning s \<union> handling s \<union> handled s = {..<accepted s}
     \<and> leaving s \<subseteq> handling s \<union> handled s
     \<and> (start_at s = StartReturned (Inr ()) \<longrightarrow> wg s = 0 \<and> ctxDone s)
     \<and> (start_at s = Draining \<longrightarrow> ctxDone s)
     \<and> (start_at s = AtAccept \<longrightarrow> listening s \<or> ctxDone s)"

lemma start_init_inv: "start_init s \<Longrightarrow> start_inv s"
  by (auto simp: start_init_def start_inv_def)

lemma start_step_inv:
  assumes "start_inv s" and "start_step a s s'"
  shows "start_inv s'"
  using assms(2)
proof cases
  case accept
  from assms(1) have all: "spawning s \<union> handling s \<union> handled s = {..<accepted s}"
    and lv: "leaving s \<subseteq> handling s \<union> handled s" by (simp_all add: start_inv_def)
  have "accepted s \<notin> spawning s \<union> handling s \<union> handled s" unfolding all by simp
  with lv have "accepted s \<notin> spawning s" "accepted s \<notin> leaving s"
    "accepted s \<notin> handling s" "accepted s \<notin> handled s" by blast+
  moreover have "insert (accepted s) (spawning s) \<union> handling s \<union> handled s = {..<Suc (accepted s)}"
    using all by (simp add: lessThan_Suc)
  ultimately show ?thesis using assms(1) accept by (simp add: start_inv_def)
next
  case (spawn n)
  with assms(1) have "finite (spawning s)" "n \<notin> leaving s" by (auto simp: start_inv_def)
  moreover from this(1) spawn(4) have "card (spawning s) = Suc (card (spawning s - {n}))"
    by (rule card.remove)
  moreover note spawn assms(1)
  ultimately show ?thesis by (auto simp: start_inv_def)
next
  case (wg_done n)
  from assms(1) have "finite (leaving s)" by (simp add: start_inv_def)
  then have "card (leaving s) = Suc (card (leaving s - {n}))" using wg_done(4) by (rule card.remove)
  then have "wg s - 1 = card (spawning s) + card (leaving s - {n})"
    using assms(1) by (simp add: start_inv_def)
  moreover have "spawning s \<inter> (leaving s - {n}) = {}" "leaving s - {n} \<subseteq> handling s \<union> handled s"
    "finite (leaving s - {n})"
    using assms(1) by (auto simp: start_inv_def)
  ultimately show ?thesis using assms(1) unfolding wg_done(2) start_inv_def by auto
qed (use assms(1) in \<open>auto simp: start_inv_def\<close>)

interpretation starts: transition_invariant start_init server_step start_inv
  by unfold_locales (auto simp: server_step_def intro: start_init_inv start_step_inv)

section \<open>Shutdown\<close>

text \<open>What the shutdown waits for. When \<open>Start\<close> has returned without an error, the context was
  cancelled, no wrapper goroutine is left, and the handler of every connection that was
  accepted has been started; none was dropped between \<open>Accept\<close> and its handler.\<close>

theorem shutdown_waits_for_wrappers:
  assumes "start_init s" and "server_step\<^sup>*\<^sup>* s s'" and "start_at s' = StartReturned (Inr ())"
  shows "ctxDone s' \<and> wg s' = 0 \<and> spawning s' = {} \<and> leaving s' = {}
    \<and> handling s' \<union> handled s' = {..<accepted s'}"
  using starts.inv_reachable [OF assms(1,2)] assms(3) by (auto simp: start_inv_def)

definition accept0 :: accept_state where
  "accept0 = \<lparr>ctxDone = False, listening = False, start_at = AtListen, accepted = 0, wg = 0,
     spawning = {}, leaving = {}, handling = {}, handled = {}, crashed = False\<rparr>"

definition abandoned :: accept_state where
  "abandoned = \<lparr>ctxDone = True, listening = False, start_at = StartReturned (Inr ()), accepted = 1, wg = 0,
     spawning = {}, leaving = {}, handling = {0}, handled = {}, crashed = False\<rparr>"

lemmas start_more = rtranclp.rtrancl_into_rtrancl [of server_step]

lemma abandoned_reachable: "server_step\<^sup>*\<^sup>* accept0 abandoned"
proof -
  let ?s = "\<lambda>ctx l at n w sp lv h. \<lparr>ctxDone = ctx, listening = l, start_at = at, accepted = n, wg = w,
     spawning = sp, leaving = lv, handling = h, handled = {}, crashed = False\<rparr>"
  have 1: "server_step\<^sup>*\<^sup>* accept0 accept0" by simp
  have 2: "server_step accept0 (?s False True AtAccept 0 0 {} {} {})"
    using server_stepI [OF start_step.listen [of accept0]] by (simp add: accept0_def)
  have 3: "server_step (?s False True AtAccept 0 0 {} {} {}) (?s False True AtAccept 1 1 {0} {} {})"
    using server_stepI [OF start_step.accept [of "?s False True AtAccept 0 0 {} {} {}"]] by simp
  have 4: "server_step (?s False True AtAccept 1 1 {0} {} {}) (?s False True AtAccept 1 1 {} {0} {0})"
    using server_stepI [OF start_step.spawn [of "?s False True AtAccept 1 1 {0} {} {}" 0]] by simp
  have 5: "server_step (?s False True AtAccept 1 1 {} {0} {0}) (?s False True AtAccept 1 0 {} {} {0})"
    using server_stepI [OF start_step.wg_done [of "?s False True AtAccept 1 1 {} {0} {0}" 0]] by simp
  have 6: "server_step (?s False True AtAccept 1 0 {} {} {0}) (?s True True AtAccept 1 0 {} {} {0})"
    using server_stepI [OF start_step.cancel [of "?s False True AtAccept 1 0 {} {} {0}"]] by simp
  have 7: "server_step (?s True True AtAccept 1 0 {} {} {0}) (?s True False AtAccept 1 0 {} {} {0})"
    using server_stepI [OF start_step.close_listener [of "?s True True AtAccept 1 0 {} {} {0}"]] by simp
  have 8: "server_step (?s True False AtAccept 1 0 {} {} {0}) (?s True False Draining 1 0 {} {} {0})"
    using server_stepI [OF start_step.accept_closed [of "?s True False AtAccept 1 0 {} {} {0}"]] by simp
  have 9: "server_step (?s True False Draining 1 0 {} {} {0}) abandoned"
    using server_stepI [OF start_step.drained [of "?s True False Draining 1 0 {} {} {0}"]] by (simp add: abandoned_def)
  show ?thesis
    by (rule start_more [OF start_more [OF start_more [OF start_more [OF start_more [OF start_more
          [OF start_more [OF start_more [OF 1 2] 3] 4] 5] 6] 7] 8] 9])
qed

text \<open>The shutdown does not wait for clients. \<open>Start\<close> can return (logging that all connections
  are drained) while the handler of an accepted connection is still running: the wrapper
  goroutine calls \<open>wg.Done\<close> as soon as it has started the handler, not when it has ended.\<close>

theorem shutdown_abandons_clients:
  "\<exists>s. server_step\<^sup>*\<^sup>* accept0 s \<and> start_init accept0 \<and> start_at s = StartReturned (Inr ()) \<and> handling s \<noteq> {}"
  using abandoned_reachable
  by (intro exI [of _ abandoned]) (simp add: accept0_def start_init_def abandoned_def)

theorem shutdown_waits_for_wrappers_witness: "handling abandoned \<union> handled abandoned = {..<1}"
proof -
  have "start_init accept0" by (simp add: accept0_def start_init_def)
  moreover have "start_at abandoned = StartReturned (Inr ())" by (simp add: abandoned_def)
  ultimately show ?thesis
    using shutdown_waits_for_wrappers [OF _ abandoned_reachable] by (simp add: abandoned_def)
qed




section \<open>The shutdown comes to its end\<close>

text \<open>Steps that change something; a cancelled context cannot be cancelled again.\<close>

definition busy_step :: "accept_state \<Rightarrow> accept_state \<Rightarrow> bool" where
  "busy_step s s' \<longleftrightarrow> server_step s s' \<and> s' \<noteq> s"

definition closing :: "accept_state \<Rightarrow> bool" where
  "closing s \<longleftrightarrow> start_inv s \<and> ctxDone s \<and> start_at s \<in> {AtAccept, Draining, StartReturned (Inr ())}"

definition drained :: "accept_state \<Rightarrow> bool" where
  "drained s \<longleftrightarrow> start_at s = StartReturned (Inr ()) \<and> handling s \<union> handled s = {..<accepted s}"

fun start_rank :: "start_pc \<Rightarrow> nat" where
  "start_rank AtAccept = 2"
| "start_rank Draining = 1"
| "start_rank _ = 0"

definition drain_todo :: "accept_state \<Rightarrow> nat" where
  "drain_todo s = 3 * card (spawning s) + card (leaving s) + card (handling s) + start_rank (start_at s)
     + (if listening s then 1 else 0)"

lemma closing_step:
  assumes "closing s" and "start_step a s s'"
  shows "closing s'"
proof -
  have "start_inv s'" using assms start_step_inv unfolding closing_def by blast
  moreover from assms(2,1) have "ctxDone s' \<and> start_at s' \<in> {AtAccept, Draining, StartReturned (Inr ())}"
    by (elim start_stepE) (auto simp: closing_def)
  ultimately show ?thesis by (simp add: closing_def)
qed

lemma inv_finite: "start_inv s \<Longrightarrow> finite (spawning s) \<and> finite (leaving s) \<and> finite (handling s)"
proof -
  assume inv: "start_inv s"
  then have "handling s \<subseteq> {..<accepted s}" unfolding start_inv_def by blast
  with inv show ?thesis by (auto simp: start_inv_def intro: finite_subset)
qed

text \<open>Only a client that is still accepted brings new work.\<close>

lemma drain_todo_step:
  assumes "closing s" and "start_step a s s'" and "s' \<noteq> s"
  shows "Suc (drain_todo s') + 4 * accepted s \<le> drain_todo s + 4 * accepted s'
    \<and> (\<not> listening s \<longrightarrow> \<not> listening s' \<and> accepted s' = accepted s)"
proof -
  have fin: "finite (spawning s)" "finite (leaving s)" "finite (handling s)"
    using inv_finite assms(1) by (auto simp: closing_def)
  from assms(2) show ?thesis
  proof cases
    case cancel
    with assms(1,3) show ?thesis by (cases s) (simp add: closing_def)
  next
    case accept
    have "card (insert (accepted s) (spawning s)) \<le> Suc (card (spawning s))"
      by (simp add: card_insert_if fin)
    with accept show ?thesis by (simp add: drain_todo_def)
  next
    case (spawn n)
    from card.remove [of "spawning s" n] fin spawn(4)
    have "card (spawning s) = Suc (card (spawning s - {n}))" by simp
    moreover have "card (insert n (leaving s)) \<le> Suc (card (leaving s))"
      "card (insert n (handling s)) \<le> Suc (card (handling s))"
      by (simp_all add: card_insert_if fin)
    ultimately show ?thesis using spawn(2) by (simp add: drain_todo_def)
  next
    case (wg_done n)
    from card.remove [of "leaving s" n] fin wg_done(4)
    have "card (leaving s) = Suc (card (leaving s - {n}))" by simp
    with wg_done(2) show ?thesis by (simp add: drain_todo_def)
  next
    case (handler_end n)
    from card.remove [of "handling s" n] fin handler_end(4)
    have "card (handling s) = Suc (card (handling s - {n}))" by simp
    with handler_end(2) show ?thesis by (simp add: drain_todo_def)
  next
    case (handler_panic n)
    from card.remove [of "handling s" n] fin handler_panic(4)
    have "card (handling s) = Suc (card (handling s - {n}))" by simp
    with handler_panic(2) show ?thesis by (simp add: drain_todo_def)
  qed (use assms(1,3) in \<open>auto simp: closing_def drain_todo_def split: if_splits\<close>)
qed

lemma drain_run:
  assumes "closing s"
  shows "(busy_step ^^ n) s t \<Longrightarrow> closing t \<and> n + drain_todo t + 4 * accepted s \<le> drain_todo s + 4 * accepted t
    \<and> (\<not> listening s \<longrightarrow> \<not> listening t \<and> accepted t = accepted s)"
proof (induction n arbitrary: t)
  case (Suc n)
  then obtain u where u: "(busy_step ^^ n) s u" "busy_step u t" by auto
  note ih = Suc.IH [OF u(1)]
  from u(2) obtain a where a: "start_step a u t" "t \<noteq> u" by (auto simp: busy_step_def server_step_def)
  with ih closing_step [of u a t] drain_todo_step [of u a t] show ?case by linarith
qed (use assms in simp)

text \<open>The program itself can go on until \<open>Start\<close> has returned.\<close>

lemma own_step: "start_step Program s s' \<Longrightarrow> f s' \<noteq> f s \<Longrightarrow> \<exists>s'. start_step Program s s' \<and> s' \<noteq> s"
  by blast

lemma drain_progress:
  assumes "closing s" and "\<not> crashed s" and "\<not> drained s"
  shows "\<exists>s'. start_step Program s s' \<and> s' \<noteq> s"
proof -
  have inv: "start_inv s" and ctx: "ctxDone s" using assms(1) by (simp_all add: closing_def)
  consider (spawn) n where "n \<in> spawning s" | (leave) n where "n \<in> leaving s" "spawning s = {}"
    | (none) "spawning s = {}" "leaving s = {}" by blast
  then show ?thesis
  proof cases
    case (spawn n)
    from start_step.spawn [OF assms(2) this] show ?thesis
      by (rule own_step [where f = spawning]) (use spawn in auto)
  next
    case (leave n)
    from start_step.wg_done [OF assms(2) this(1)] show ?thesis
      by (rule own_step [where f = leaving]) (use leave in auto)
  next
    case none
    with inv have "wg s = 0" and all: "handling s \<union> handled s = {..<accepted s}"
      by (simp_all add: start_inv_def)
    moreover have "start_at s \<noteq> StartReturned (Inr ())" using assms(3) all by (simp add: drained_def)
    ultimately consider (still) "start_at s = AtAccept" "listening s"
      | (closed) "start_at s = AtAccept" "\<not> listening s" | (draining) "start_at s = Draining" "wg s = 0"
      using assms(1) by (auto simp: closing_def)
    then show ?thesis
    proof cases
      case still
      from start_step.close_listener [OF assms(2) ctx still(2)] show ?thesis
        by (rule own_step [where f = listening]) (use still in simp)
    next
      case closed
      from start_step.accept_closed [OF assms(2) closed] show ?thesis
        by (rule own_step [where f = start_at]) (use closed ctx in simp)
    next
      case draining
      from start_step.drained [OF assms(2) draining] show ?thesis
        by (rule own_step [where f = start_at]) (use draining in simp)
    qed
  qed
qed

text \<open>C32: The shutdown comes to its end. Take any reachable state in which the signal has come while
  \<open>Start\<close> is in its loop or waits, and any run from there, whatever the clients (who may go on
  connecting) and the handlers do (which may end, panic or go on for ever). The run is
  bounded by the goroutines there were and four steps for each connection that is still
  accepted. As long as the listener is open, the program can close it, and once it is closed
  nobody is accepted any more. And wherever the run stands, unless the panic of a handler has
  ended the process, the program has a step of its own to take until \<open>Start\<close> has returned without
  an error, with every accepted connection given to its handler.\<close>

theorem shutdown_completes:
  assumes "start_init s" and "server_step\<^sup>*\<^sup>* s s'"
    and "ctxDone s'" and "start_at s' = AtAccept \<or> start_at s' = Draining"
    and "(busy_step ^^ n) s' t"
  shows "n \<le> 3 * card (spawning s') + card (leaving s') + card (handling s') + 3 + 4 * (accepted t - accepted s')
    \<and> (listening t \<and> \<not> crashed t \<longrightarrow> start_step Program t (t\<lparr>listening := False\<rparr>))
    \<and> (\<not> listening s' \<longrightarrow> \<not> listening t \<and> accepted t = accepted s')
    \<and> (crashed t \<or> drained t \<or> (\<exists>u. start_step Program t u \<and> u \<noteq> t))"
proof -
  have c: "closing s'" using starts.inv_reachable [OF assms(1,2)] assms(3,4) by (auto simp: closing_def)
  note run = drain_run [OF c assms(5)]
  have "drain_todo s' \<le> 3 * card (spawning s') + card (leaving s') + card (handling s') + 3"
    using assms(4) by (auto simp: drain_todo_def)
  with run have "n \<le> 3 * card (spawning s') + card (leaving s') + card (handling s') + 3 + 4 * (accepted t - accepted s')"
    by linarith
  moreover have "start_step Program t (t\<lparr>listening := False\<rparr>)" if "listening t" "\<not> crashed t"
    using start_step.close_listener [OF that(2) _ that(1)] run by (simp add: closing_def)
  ultimately show ?thesis using run drain_progress [of t] by blast
qed

text \<open>A connection was accepted just before the signal; its wrapper goroutine has not run, and
  the listener is open.\<close>

definition interrupted :: accept_state where
  "interrupted = \<lparr>ctxDone = True, listening = True, start_at = AtAccept, accepted = 1, wg = 1,
     spawning = {0}, leaving = {}, handling = {}, handled = {}, crashed = False\<rparr>"

lemma interrupted_reachable: "server_step\<^sup>*\<^sup>* accept0 interrupted"
proof -
  let ?s = "\<lambda>ctx n w sp. \<lparr>ctxDone = ctx, listening = True, start_at = AtAccept, accepted = n, wg = w,
     spawning = sp, leaving = {}, handling = {}, handled = {}, crashed = False\<rparr>"
  have 1: "server_step\<^sup>*\<^sup>* accept0 accept0" by simp
  have 2: "server_step accept0 (?s False 0 0 {})"
    using server_stepI [OF start_step.listen [of accept0]] by (simp add: accept0_def)
  have 3: "server_step (?s False 0 0 {}) (?s False 1 1 {0})"
    using server_stepI [OF start_step.accept [of "?s False 0 0 {}"]] by simp
  have 4: "server_step (?s False 1 1 {0}) interrupted"
    using server_stepI [OF start_step.cancel [of "?s False 1 1 {0}"]] by (simp add: interrupted_def)
  show ?thesis by (rule start_more [OF start_more [OF start_more [OF 1 2] 3] 4])
qed

theorem shutdown_completes_witness:
  "\<exists>t u. (busy_step ^^ 1) interrupted t \<and> \<not> listening t \<and> start_step Program t u \<and> u \<noteq> t"
proof -
  let ?t = "interrupted\<lparr>listening := False\<rparr>"
  have i: "start_init accept0" by (simp add: accept0_def start_init_def)
  have s: "ctxDone interrupted" "start_at interrupted = AtAccept \<or> start_at interrupted = Draining"
    by (simp_all add: interrupted_def)
  have "server_step interrupted ?t"
    using server_stepI [OF start_step.close_listener [of interrupted]] by (simp add: interrupted_def)
  then have "busy_step interrupted ?t" by (simp add: busy_step_def interrupted_def)
  then have b: "(busy_step ^^ 1) interrupted ?t" by (simp add: eq_OO)
  have "\<not> crashed ?t" "\<not> drained ?t" by (simp_all add: drained_def interrupted_def)
  with shutdown_completes [OF i interrupted_reachable s b] have "\<exists>u. start_step Program ?t u \<and> u \<noteq> ?t" by blast
  with b show ?thesis by auto
qed

end
