(* ===== verification/Lifecycle.thy ===== *)
theory Lifecycle
  imports Server
begin

text \<open>
  All client connections at once: the steps of the \<open>handleConnection\<close> goroutines that touch
  what they share, the registry of the server and the pool connections, in every
  interleaving. The calls on the registry are the ones of \<open>Server\<close>.
\<close>

section \<open>Steps\<close>

text \<open>
  Where a goroutine is: before authentication, authenticated, with a pool connection,
  registered, in the deferred teardown before and after \<open>Release\<close>, and gone.
\<close>

datatype phase = Fresh | Authenticated | Acquired | Registered | Closing | GivenBack | Gone

record life = server_world +
  phase :: "nat \<Rightarrow> phase"
  crashed :: bool

definition set_phase :: "nat \<Rightarrow> phase \<Rightarrow> life \<Rightarrow> life" where
  "set_phase t p s = s\<lparr>phase := (phase s)(t := p)\<rparr>"

definition set_conn :: "nat \<Rightarrow> (Connection \<Rightarrow> Connection) \<Rightarrow> life \<Rightarrow> life" where
  "set_conn t f s = s\<lparr>heap := (heap s)(t := f (heap s t))\<rparr>"

text \<open>
  The pool gives a connection to one holder at a time and PostgreSQL gives live backends
  different process ids, so a connection that is acquired has a process id that no held
  connection has.
\<close>

definition available :: "life \<Rightarrow> pool_conn \<Rightarrow> bool" where
  "available s c \<longleftrightarrow> (\<forall>u p. pc_poolConn (heap s u) = Held p \<longrightarrow> pcPID p \<noteq> pcPID c)"

definition give_back :: "pool_ref \<Rightarrow> pool_ref" where
  "give_back c = (case c of Held p \<Rightarrow> Released p | c \<Rightarrow> c)"

inductive life_step :: "life \<Rightarrow> life \<Rightarrow> bool" where
  authenticate: "\<not> crashed s \<Longrightarrow> phase s t = Fresh \<Longrightarrow>
     life_step s (set_phase t Authenticated (set_conn t (pc_key_update (\<lambda>_. Some k)) s))"
| acquire: "\<not> crashed s \<Longrightarrow> phase s t = Authenticated \<Longrightarrow> available s c \<Longrightarrow>
     life_step s (set_phase t Acquired (set_conn t (\<lambda>pc. pc\<lparr>pc_poolConn := Held c, pc_bf := Some c,
       pc_user := user, pc_db := database, pc_key := Some (pcPID c, pcSecret c)\<rparr>) s))"
| register: "\<not> crashed s \<Longrightarrow> phase s t = Acquired \<Longrightarrow> pc_key (heap s t) = Some (pid, sk) \<Longrightarrow>
     registerConnection pid sk t s = (r, s') \<Longrightarrow>
     life_step s (set_phase t Registered (s'\<lparr>crashed := (r \<noteq> Ret ())\<rparr>))"
| teardown: "\<not> crashed s \<Longrightarrow> phase s t \<in> {Fresh, Authenticated, Acquired, Registered} \<Longrightarrow>
     life_step s (set_phase t Closing s)"
| release: "\<not> crashed s \<Longrightarrow> phase s t = Closing \<Longrightarrow>
     life_step s (set_phase t GivenBack (set_conn t (pc_poolConn_update give_back) s))"
| unregister: "\<not> crashed s \<Longrightarrow> phase s t = GivenBack \<Longrightarrow> pc_key (heap s t) = Some (pid, sk) \<Longrightarrow>
     unregisterConnection pid sk t s = (r, s') \<Longrightarrow>
     life_step s (set_phase t Gone s')"
| vanish: "\<not> crashed s \<Longrightarrow> phase s t = GivenBack \<Longrightarrow> pc_key (heap s t) = None \<Longrightarrow>
     life_step s (set_phase t Gone s)"

definition life_start :: "life \<Rightarrow> bool" where
  "life_start s \<longleftrightarrow> activeConnections s = [] \<and> (\<forall>t. heap s t = newConnection)
     \<and> (\<forall>t. phase s t = Fresh) \<and> \<not> crashed s"

section \<open>Invariant\<close>

text \<open>What a goroutine's struct looks like in each phase.\<close>

definition conn_ok :: "phase \<Rightarrow> Connection \<Rightarrow> bool" where
  "conn_ok ph c = (case ph of
     Fresh \<Rightarrow> pc_poolConn c = NoPool
   | Authenticated \<Rightarrow> pc_poolConn c = NoPool
   | Acquired \<Rightarrow> (\<exists>p. pc_poolConn c = Held p \<and> pc_key c = Some (pcPID p, pcSecret p))
   | Registered \<Rightarrow> (\<exists>p. pc_poolConn c = Held p \<and> pc_key c = Some (pcPID p, pcSecret p))
   | Closing \<Rightarrow> pc_poolConn c = NoPool
       \<or> (\<exists>p. pc_poolConn c = Held p \<and> pc_key c = Some (pcPID p, pcSecret p))
   | GivenBack \<Rightarrow> pc_poolConn c = NoPool
       \<or> (\<exists>p. pc_poolConn c = Released p \<and> pc_key c = Some (pcPID p, pcSecret p))
   | Gone \<Rightarrow> True)"

text \<open>An entry of the registry belongs to its owner's key, and the owner is not gone.\<close>

definition entry_ok :: "phase \<Rightarrow> Connection \<Rightarrow> u64 \<Rightarrow> bool" where
  "entry_ok ph c k \<longleftrightarrow> ph \<in> {Registered, Closing, GivenBack} \<and> pc_poolConn c \<noteq> NoPool
     \<and> (\<exists>pid sk. pc_key c = Some (pid, sk) \<and> k = makeCancelKey pid sk)"

definition life_inv :: "life \<Rightarrow> bool" where
  "life_inv s \<longleftrightarrow> (\<forall>t. conn_ok (phase s t) (heap s t))
     \<and> (\<forall>e\<in>set (activeConnections s). entry_ok (phase s (snd e)) (heap s (snd e)) (fst e))
     \<and> distinct (map fst (activeConnections s))
     \<and> (\<forall>t u p q. pc_poolConn (heap s t) = Held p \<longrightarrow> pc_poolConn (heap s u) = Held q \<longrightarrow>
          t \<noteq> u \<longrightarrow> pcPID p \<noteq> pcPID q)"

lemma life_start_inv: "life_start s \<Longrightarrow> life_inv s"
  by (simp add: life_start_def life_inv_def conn_ok_def newConnection_def)

text \<open>A step changes one goroutine's phase and struct and, twice, the registry.\<close>

lemma life_inv_change:
  assumes "life_inv s" and "conn_ok ph c"
    and "\<And>u. u \<noteq> t \<Longrightarrow> phase s' u = phase s u \<and> heap s' u = heap s u"
    and "phase s' t = ph" and "heap s' t = c"
    and "\<And>e. e \<in> set (activeConnections s') \<Longrightarrow>
      e \<in> set (activeConnections s) \<and> snd e \<noteq> t \<or> snd e = t \<and> entry_ok ph c (fst e)"
    and "\<And>p u q. pc_poolConn c = Held p \<Longrightarrow> pc_poolConn (heap s u) = Held q \<Longrightarrow> u \<noteq> t \<Longrightarrow> pcPID p \<noteq> pcPID q"
    and "distinct (map fst (activeConnections s'))"
  shows "life_inv s'"
proof -
  have "conn_ok (phase s' u) (heap s' u)" for u
    using assms(1,2,4,5) assms(3) [of u] by (cases "u = t") (auto simp: life_inv_def)
  moreover have "entry_ok (phase s' (snd e)) (heap s' (snd e)) (fst e)"
    if "e \<in> set (activeConnections s')" for e
    using assms(6) [OF that] assms(1) assms(3) [of "snd e"] assms(4,5) by (auto simp: life_inv_def)
  moreover have "pcPID p \<noteq> pcPID q"
    if h: "pc_poolConn (heap s' a) = Held p" "pc_poolConn (heap s' b) = Held q" "a \<noteq> b" for a b p q
  proof -
    consider "a = t" "b \<noteq> t" | "b = t" "a \<noteq> t" | "a \<noteq> t" "b \<noteq> t" using h(3) by blast
    then show ?thesis
    proof cases
      case 1
      with h assms(3) [of b] assms(5) show ?thesis by (intro assms(7) [of p b q]) auto
    next
      case 2
      with h assms(3) [of a] assms(5) have "pcPID q \<noteq> pcPID p" by (intro assms(7) [of q a p]) auto
      then show ?thesis by simp
    next
      case 3
      with h assms(1) assms(3) [of a] assms(3) [of b] show ?thesis unfolding life_inv_def by metis
    qed
  qed
  ultimately show ?thesis using assms(8) unfolding life_inv_def by blast
qed

lemma life_entry: "life_inv s \<Longrightarrow> e \<in> set (activeConnections s) \<Longrightarrow>
    entry_ok (phase s (snd e)) (heap s (snd e)) (fst e)"
  by (simp add: life_inv_def)

lemma life_distinct: "life_inv s \<Longrightarrow> distinct (map fst (activeConnections s))"
  by (simp add: life_inv_def)

lemma life_conn: "life_inv s \<Longrightarrow> conn_ok (phase s t) (heap s t)"
  by (simp add: life_inv_def)

lemma life_exclusive: "life_inv s \<Longrightarrow> pc_poolConn (heap s t) = Held p \<Longrightarrow>
    pc_poolConn (heap s u) = Held q \<Longrightarrow> t \<noteq> u \<Longrightarrow> pcPID p \<noteq> pcPID q"
  unfolding life_inv_def by blast

lemmas phase_defs = set_phase_def set_conn_def give_back_def conn_ok_def entry_ok_def

lemma life_step_inv:
  assumes inv: "life_inv s" and "life_step s s'"
  shows "life_inv s'"
  using assms(2)
proof cases
  case (authenticate t k)
  with life_conn [OF inv, of t] show ?thesis
    by (intro life_inv_change [OF inv, of Authenticated "(heap s t)\<lparr>pc_key := Some k\<rparr>" t])
      (auto simp: phase_defs simp: life_distinct [OF inv] distinct_addConn distinct_delConn
        dest: life_entry [OF inv])
next
  case (acquire t c database user)
  let ?c = "(heap s t)\<lparr>pc_poolConn := Held c, pc_bf := Some c, pc_user := user, pc_db := database,
       pc_key := Some (pcPID c, pcSecret c)\<rparr>"
  have "pcPID c \<noteq> pcPID q" if "pc_poolConn (heap s u) = Held q" for u q
    using acquire(4) that unfolding available_def by metis
  with acquire show ?thesis
    by (intro life_inv_change [OF inv, of Acquired ?c t])
      (auto simp: phase_defs simp: life_distinct [OF inv] distinct_addConn distinct_delConn
        dest: life_entry [OF inv])
next
  case (register t pid sk r s1)
  from register life_conn [OF inv, of t] obtain p where p: "pc_poolConn (heap s t) = Held p" "pid = pcPID p" "sk = pcSecret p"
    by (auto simp: conn_ok_def)
  have "s1 = s\<lparr>activeConnections := addConn (pid, sk) t (activeConnections s)\<rparr>"
    using register(5) by (simp add: registerConnection_eq Let_def)
  with register p life_exclusive [OF inv p(1)] show ?thesis
    by (intro life_inv_change [OF inv, of Registered "heap s t" t])
      (auto simp: phase_defs dest!: set_addConn [THEN subsetD] simp: life_distinct [OF inv] distinct_addConn distinct_delConn
        dest: life_entry [OF inv])
next
  case (teardown t)
  with life_conn [OF inv, of t] life_exclusive [OF inv, of t] show ?thesis
    by (intro life_inv_change [OF inv, of Closing "heap s t" t])
      (auto simp: phase_defs simp: life_distinct [OF inv] distinct_addConn distinct_delConn
        dest: life_entry [OF inv])
next
  case (release t)
  with life_conn [OF inv, of t] show ?thesis
    by (intro life_inv_change [OF inv, of GivenBack "(heap s t)\<lparr>pc_poolConn := give_back (pc_poolConn (heap s t))\<rparr>" t])
      (auto simp: phase_defs simp: life_distinct [OF inv] distinct_addConn distinct_delConn
        dest: life_entry [OF inv])
next
  case (unregister t pid sk r s1)
  have s1: "s1 = s\<lparr>activeConnections := delConn (pid, sk) (activeConnections s)\<rparr>"
    using unregister(5) by (simp add: unregisterConnection_eq)
  from unregister life_conn [OF inv, of t] s1 show ?thesis
    by (intro life_inv_change [OF inv, of Gone "heap s t" t])
      (auto simp: phase_defs set_delConn simp: life_distinct [OF inv] distinct_addConn distinct_delConn
        dest: life_entry [OF inv])
next
  case (vanish t)
  with life_conn [OF inv, of t] show ?thesis
    by (intro life_inv_change [OF inv, of Gone "heap s t" t])
      (auto simp: phase_defs simp: life_distinct [OF inv] distinct_addConn distinct_delConn
        dest: life_entry [OF inv])
qed

interpretation lives: transition_invariant life_start life_step life_inv
  by unfold_locales (auto intro: life_start_inv life_step_inv)

section \<open>Cancel keys of other clients\<close>

lemma findConn_entry:
  "findConn m k = Some c \<Longrightarrow> (makeCancelKey (fst k) (snd k), c) \<in> set m"
  by (simp add: findConn_def map_of_SomeD)

lemma life_lookup:
  assumes "life_inv s" and "findConn (activeConnections s) (pid, sk) = Some t"
  shows "pc_key (heap s t) = Some (pid, sk) \<and> phase s t \<in> {Registered, Closing, GivenBack}"
  using life_entry [OF assms(1) findConn_entry [OF assms(2)]] by (auto simp: entry_ok_def)

text \<open>C10: A cancel request reaches only the client whose key it carries. In every interleaving of
  any number of client connections, when \<open>getConnectionForCancelRequest\<close> finds a connection
  for a process id and secret key, that connection was given exactly this key, has been
  registered and is not gone; no other connection is found under the same key, and the
  lookup changes nothing.\<close>

theorem cancel_lookup_sound:
  assumes "life_start s" and "life_step\<^sup>*\<^sup>* s s'"
    and "getConnectionForCancelRequest pid sk s' = (Ret (Some t), s'')"
  shows "pc_key (heap s' t) = Some (pid, sk) \<and> phase s' t \<in> {Registered, Closing, GivenBack}
    \<and> s'' = s' \<and> (\<forall>pid' sk'. findConn (activeConnections s') (pid', sk') = Some t \<longrightarrow> pid' = pid \<and> sk' = sk)"
proof -
  have inv: "life_inv s'" using assms(1,2) by (rule lives.inv_reachable)
  from assms(3) have f: "findConn (activeConnections s') (pid, sk) = Some t" and "s'' = s'"
    by (auto simp: getConnection_eq)
  moreover have "pid' = pid \<and> sk' = sk"
    if "findConn (activeConnections s') (pid', sk') = Some t" for pid' sk'
    using life_lookup [OF inv that] life_lookup [OF inv f] by simp
  ultimately show ?thesis using life_lookup [OF inv f] by blast
qed

section \<open>The log loop and the teardown\<close>

lemma set_addConn_distinct:
  assumes "distinct (map fst m)"
  shows "set (addConn k c m) =
    insert (makeCancelKey (fst k) (snd k), c) {e \<in> set m. fst e \<noteq> makeCancelKey (fst k) (snd k)}"
  using assms unfolding addConn_def by (induction m) force+

text \<open>When registering panics. In every reachable state, a client that registers makes the
  proxy panic exactly if the registry has an entry, for another key, of a client that
  is in its teardown between \<open>Release\<close> and \<open>unregisterConnection\<close>.\<close>

theorem register_panic_window:
  assumes "life_start s" and "life_step\<^sup>*\<^sup>* s s'"
    and "phase s' t = Acquired" and "pc_key (heap s' t) = Some (pid, sk)"
  shows "(fst (registerConnection pid sk t s') = Panic) =
    (\<exists>k u. findConn (activeConnections s') k = Some u \<and> k \<noteq> (pid, sk) \<and> phase s' u = GivenBack)"
proof -
  have inv: "life_inv s'" using assms(1,2) by (rule lives.inv_reachable)
  have held: "is_Held (pc_poolConn (heap s' t))"
    using life_conn [OF inv, of t] assms(3) by (auto simp: conn_ok_def is_Held_def)
  have ent: "(is_Held (pc_poolConn (heap s' (snd e))) \<longleftrightarrow> phase s' (snd e) \<noteq> GivenBack)
      \<and> (\<exists>k. fst e = makeCancelKey (fst k) (snd k) \<and> findConn (activeConnections s') k = Some (snd e))"
    if e: "e \<in> set (activeConnections s')" for e
  proof -
    have "map_of (activeConnections s') (fst e) = Some (snd e)"
      using e life_distinct [OF inv] by simp
    with life_entry [OF inv e] life_conn [OF inv, of "snd e"] show ?thesis
      by (fastforce simp: entry_ok_def conn_ok_def findConn_def is_Held_def)
  qed
  have "(fst (registerConnection pid sk t s') = Panic) =
    (\<exists>e\<in>set (activeConnections s'). fst e \<noteq> makeCancelKey pid sk \<and> \<not> is_Held (pc_poolConn (heap s' (snd e))))"
  proof -
    have "(fst (registerConnection pid sk t s') = Panic) =
      (\<exists>e\<in>set (addConn (pid, sk) t (activeConnections s')). \<not> is_Held (pc_poolConn (heap s' (snd e))))"
      by (simp add: registerConnection_eq Let_def)
    with held show ?thesis
      unfolding set_addConn_distinct [OF life_distinct [OF inv]] by (simp del: split_paired_Ex) blast
  qed
  also have "\<dots> = (\<exists>k u. findConn (activeConnections s') k = Some u \<and> k \<noteq> (pid, sk) \<and> phase s' u = GivenBack)"
    (is "?L = ?R")
  proof
    assume ?L
    then show ?R using ent by (metis fst_conv snd_conv)
  next
    assume ?R
    then obtain a b u where "findConn (activeConnections s') (a, b) = Some u" "(a, b) \<noteq> (pid, sk)"
      "phase s' u = GivenBack" by (metis surj_pair)
    moreover from this ent [OF findConn_entry, of "(a, b)" u] have "\<not> is_Held (pc_poolConn (heap s' u))"
      by simp
    ultimately show ?L using findConn_entry [of _ "(a, b)" u] by force
  qed
  finally show ?thesis .
qed

section \<open>Two interleavings\<close>

text \<open>
  Client 1 authenticates, acquires the pool connection with process id 41, registers, and
  in its teardown releases the connection; client 2 then acquires a pool connection.
\<close>

definition life0 :: life where
  "life0 = \<lparr>srv_config = sample_config, srv_tlsConfig = False, activeConnections = [],
     heap = (\<lambda>_. newConnection), phase = (\<lambda>_. Fresh), crashed = False\<rparr>"

definition with_conn :: "pool_conn \<Rightarrow> Connection" where
  "with_conn c = newConnection\<lparr>pc_poolConn := Held c, pc_bf := Some c, pc_user := ''u'', pc_db := ''d'',
     pc_key := Some (pcPID c, pcSecret c)\<rparr>"

definition given_back :: life where
  "given_back = life0\<lparr>activeConnections := [(makeCancelKey 41 7, 1)],
     heap := (\<lambda>_. newConnection)(1 := (with_conn (sample_pool_conn 41 7))\<lparr>pc_poolConn :=
        Released (sample_pool_conn 41 7)\<rparr>),
     phase := (\<lambda>_. Fresh)(1 := GivenBack)\<rparr>"

lemmas life_examples = life0_def given_back_def with_conn_def newConnection_def sample_pool_conn_def

lemmas life_more = rtranclp.rtrancl_into_rtrancl [of life_step]

lemmas life_trans = rtranclp_trans [of life_step]

lemma life0_start: "life_start life0"
  by (simp add: life_start_def life0_def)

lemma connect_steps:
  assumes "\<not> crashed s" and "phase s t = Fresh" and "heap s t = newConnection" and "available s c"
  shows "life_step\<^sup>*\<^sup>* s (set_phase t Acquired (set_conn t (\<lambda>_. with_conn c) s))"
proof -
  let ?s1 = "set_phase t Authenticated (set_conn t (pc_key_update (\<lambda>_. Some (0, 0))) s)"
  have "life_step s ?s1" using assms(1,2) by (rule life_step.authenticate)
  moreover have "available ?s1 c" using assms(3,4)
    by (auto simp: available_def set_phase_def set_conn_def newConnection_def)
  then have "life_step ?s1 (set_phase t Acquired (set_conn t (\<lambda>pc. pc\<lparr>pc_poolConn := Held c, pc_bf := Some c,
       pc_user := ''u'', pc_db := ''d'', pc_key := Some (pcPID c, pcSecret c)\<rparr>) ?s1))"
    using assms(1) by (intro life_step.acquire) (simp_all add: set_phase_def set_conn_def)
  moreover have "set_phase t Acquired (set_conn t (\<lambda>pc. pc\<lparr>pc_poolConn := Held c, pc_bf := Some c,
       pc_user := ''u'', pc_db := ''d'', pc_key := Some (pcPID c, pcSecret c)\<rparr>) ?s1) =
     set_phase t Acquired (set_conn t (\<lambda>_. with_conn c) s)"
    by (simp add: set_phase_def set_conn_def with_conn_def assms(3) newConnection_def)
  ultimately show ?thesis by (metis converse_rtranclp_into_rtranclp rtranclp.rtrancl_refl)
qed

lemma given_back_reachable: "life_step\<^sup>*\<^sup>* life0 given_back"
proof -
  let ?c = "sample_pool_conn 41 7"
  let ?s1 = "set_phase 1 Acquired (set_conn 1 (\<lambda>_. with_conn ?c) life0)"
  have 1: "life_step\<^sup>*\<^sup>* life0 ?s1"
    by (rule connect_steps) (simp_all add: life0_def available_def newConnection_def)
  let ?s2 = "set_phase 1 Registered (?s1\<lparr>activeConnections := [(makeCancelKey 41 7, 1)], crashed := False\<rparr>)"
  have "registerConnection 41 7 1 ?s1 = (Ret (), ?s1\<lparr>activeConnections := [(makeCancelKey 41 7, 1)]\<rparr>)"
    by (simp add: registerConnection_eq addConn_def set_phase_def set_conn_def with_conn_def life0_def)
  from life_step.register [OF _ _ _ this] have 2: "life_step ?s1 ?s2"
    by (simp add: set_phase_def set_conn_def with_conn_def life0_def sample_pool_conn_def)
  let ?s3 = "set_phase 1 Closing ?s2"
  have 3: "life_step ?s2 ?s3"
    by (rule life_step.teardown) (simp_all add: set_phase_def)
  have "life_step ?s3 (set_phase 1 GivenBack (set_conn 1 (pc_poolConn_update give_back) ?s3))"
    by (rule life_step.release) (simp_all add: set_phase_def)
  also have "set_phase 1 GivenBack (set_conn 1 (pc_poolConn_update give_back) ?s3) = given_back"
    by (simp add: set_phase_def set_conn_def life_examples give_back_def)
  finally have 4: "life_step ?s3 given_back" .
  show ?thesis
    by (rule life_more [OF life_more
          [OF life_more [OF 1 2] 3] 4])
qed

text \<open>C37: A registration can be lost. There is an interleaving of two clients after which a client is
  registered and running, holding the pool connection whose cancel key it was told, and
  yet a cancel request with that key finds no connection: \<open>handleConnection\<close> releases the
  pool connection before it removes its key, so the next holder of the connection can
  register under the same key in between.\<close>

theorem registration_lost_reachable:
  "\<exists>s. life_step\<^sup>*\<^sup>* life0 s \<and> \<not> crashed s \<and> phase s 2 = Registered
     \<and> pc_key (heap s 2) = Some (41, 7) \<and> is_Held (pc_poolConn (heap s 2))
     \<and> getConnectionForCancelRequest 41 7 s = (Ret None, s)"
proof -
  let ?c = "sample_pool_conn 41 7"
  let ?s1 = "set_phase 2 Acquired (set_conn 2 (\<lambda>_. with_conn ?c) given_back)"
  have 1: "life_step\<^sup>*\<^sup>* given_back ?s1"
    by (rule connect_steps) (simp_all add: life_examples available_def)
  let ?s2 = "set_phase 2 Registered (?s1\<lparr>activeConnections := [(makeCancelKey 41 7, 2)], crashed := False\<rparr>)"
  have "registerConnection 41 7 2 ?s1 = (Ret (), ?s1\<lparr>activeConnections := [(makeCancelKey 41 7, 2)]\<rparr>)"
    by (simp add: registerConnection_eq addConn_def set_phase_def set_conn_def with_conn_def given_back_def)
  from life_step.register [OF _ _ _ this] have 2: "life_step ?s1 ?s2"
    by (simp add: set_phase_def set_conn_def life_examples)
  let ?s3 = "set_phase 1 Gone (?s2\<lparr>activeConnections := []\<rparr>)"
  have "unregisterConnection 41 7 1 ?s2 = (Ret (), ?s2\<lparr>activeConnections := []\<rparr>)"
    by (simp add: unregisterConnection_eq delConn_def set_phase_def)
  from life_step.unregister [OF _ _ _ this] have 3: "life_step ?s2 ?s3"
    by (simp add: set_phase_def set_conn_def life_examples)
  have "life_step\<^sup>*\<^sup>* life0 ?s3"
    by (rule life_more [OF life_more
          [OF life_trans [OF given_back_reachable 1] 2] 3])
  moreover have "\<not> crashed ?s3" "phase ?s3 2 = Registered" "pc_key (heap ?s3 2) = Some (41, 7)"
    "is_Held (pc_poolConn (heap ?s3 2))" "getConnectionForCancelRequest 41 7 ?s3 = (Ret None, ?s3)"
    by (simp_all add: set_phase_def set_conn_def life_examples getConnection_eq findConn_def)
  ultimately show ?thesis by blast
qed

text \<open>Use after release. There is an interleaving of two clients that crashes the proxy: the
  second one registers, and reads the keys of all registered pool connections for a log
  line, after the first has released its pool connection and before it is removed from
  the registry.\<close>

theorem register_crash_reachable: "\<exists>s. life_step\<^sup>*\<^sup>* life0 s \<and> crashed s"
proof -
  let ?c = "sample_pool_conn 42 7"
  let ?s1 = "set_phase 2 Acquired (set_conn 2 (\<lambda>_. with_conn ?c) given_back)"
  have 1: "life_step\<^sup>*\<^sup>* given_back ?s1"
    by (rule connect_steps) (simp_all add: life_examples available_def)
  have "fst (registerConnection 42 7 2 ?s1) = Panic"
    by (rule register_panics [where k = "makeCancelKey 41 7" and c = 1])
      (simp_all add: set_phase_def set_conn_def life_examples)
  then obtain s' where "registerConnection 42 7 2 ?s1 = (Panic, s')" by (metis prod.collapse)
  from life_step.register [OF _ _ _ this]
  have 2: "life_step ?s1 (set_phase 2 Registered (s'\<lparr>crashed := True\<rparr>))"
    by (simp add: set_phase_def set_conn_def life_examples)
  have "life_step\<^sup>*\<^sup>* life0 (set_phase 2 Registered (s'\<lparr>crashed := True\<rparr>))"
    by (rule life_more [OF life_trans [OF given_back_reachable 1] 2])
  then show ?thesis by (auto simp: set_phase_def)
qed

theorem cancel_lookup_sound_witness:
  "pc_key (heap given_back 1) = Some (41, 7) \<and> phase given_back 1 \<in> {Registered, Closing, GivenBack}"
proof -
  have "getConnectionForCancelRequest 41 7 given_back = (Ret (Some 1), given_back)"
    by (simp add: getConnection_eq findConn_def given_back_def)
  from cancel_lookup_sound [OF life0_start given_back_reachable this] show ?thesis by blast
qed

theorem register_panic_window_witness:
  "\<exists>s' :: life. phase s' 2 = Acquired \<and> fst (registerConnection 42 7 2 s') = Panic"
proof -
  let ?c = "sample_pool_conn 42 7"
  let ?s = "set_phase 2 Acquired (set_conn 2 (\<lambda>_. with_conn ?c) given_back)"
  have "life_step\<^sup>*\<^sup>* given_back ?s"
    by (rule connect_steps) (simp_all add: life_examples available_def)
  with given_back_reachable have r: "life_step\<^sup>*\<^sup>* life0 ?s" by (rule life_trans)
  have p: "phase ?s 2 = Acquired" "pc_key (heap ?s 2) = Some (42, 7)"
    by (simp_all add: set_phase_def set_conn_def life_examples)
  have "findConn (activeConnections ?s) (41, 7) = Some 1 \<and> ((41, 7) :: u32 \<times> u32) \<noteq> (42, 7)
      \<and> phase ?s 1 = GivenBack"
    by (simp add: set_phase_def set_conn_def life_examples findConn_def)
  then have "\<exists>k u. findConn (activeConnections ?s) k = Some u \<and> k \<noteq> (42, 7) \<and> phase ?s u = GivenBack"
    by (intro exI)
  with register_panic_window [OF life0_start r p] have "fst (registerConnection 42 7 2 ?s) = Panic"
    by (rule iffD2)
  with p(1) show ?thesis by (intro exI [of _ ?s] conjI)
qed

end
