(* ===== verification/Base64.thy ===== *)
theory Base64
  imports GoStd
begin

text \<open>
  \<open>base64.RawURLEncoding\<close> as the code uses it: URL alphabet, no padding; the decoder
  skips carriage returns and line feeds and ignores the unused low bits of the last
  digit.
\<close>

text \<open>The digits \<open>A..Z\<close>, \<open>a..z\<close>, \<open>0..9\<close>, \<open>-\<close> and \<open>_\<close>.\<close>

definition b64_char :: "nat \<Rightarrow> char" where
  "b64_char n = char_of
     (if n < 26 then n + 65 else if n < 52 then n + 71 else if n < 62 then n - 4
      else if n = 62 then 45 else 95)"

definition b64_index :: "char \<Rightarrow> nat option" where
  "b64_index c = (let n = of_char c :: nat in
     if 65 \<le> n \<and> n \<le> 90 then Some (n - 65)
     else if 97 \<le> n \<and> n \<le> 122 then Some (n - 71)
     else if 48 \<le> n \<and> n \<le> 57 then Some (n + 4)
     else if n = 45 then Some 62
     else if n = 95 then Some 63
     else None)"

fun b64_enc :: "nat list \<Rightarrow> nat list" where
  "b64_enc [] = []"
| "b64_enc [a] = [a div 4, (a mod 4) * 16]"
| "b64_enc [a, b] = [a div 4, (a mod 4) * 16 + b div 16, (b mod 16) * 4]"
| "b64_enc (a # b # c # r) =
     [a div 4, (a mod 4) * 16 + b div 16, (b mod 16) * 4 + c div 64, c mod 64] @ b64_enc r"

fun b64_dec :: "nat list \<Rightarrow> nat list option" where
  "b64_dec [] = Some []"
| "b64_dec [x] = None"
| "b64_dec [x, y] = Some [x * 4 + y div 16]"
| "b64_dec [x, y, z] = Some [x * 4 + y div 16, (y mod 16) * 16 + z div 4]"
| "b64_dec (x # y # z # w # r) = (case b64_dec r of
     None \<Rightarrow> None
   | Some bs \<Rightarrow> Some ([x * 4 + y div 16, (y mod 16) * 16 + z div 4, (z mod 4) * 64 + w] @ bs))"

definition EncodeToString :: "u8 list \<Rightarrow> string" where
  "EncodeToString bs = map b64_char (b64_enc (map unat bs))"

definition DecodeString :: "string \<Rightarrow> error + u8 list" where
  "DecodeString s =
    (case those (map b64_index (filter (\<lambda>c. c \<noteq> CHR 0x0A \<and> c \<noteq> CHR 0x0D) s)) of
       None \<Rightarrow> Inl (Err ''illegal base64 data'')
     | Some ds \<Rightarrow> (case b64_dec ds of
         None \<Rightarrow> Inl (Err ''illegal base64 data'')
       | Some bs \<Rightarrow> Inr (map of_nat bs)))"

section \<open>Round trip\<close>

lemma of_char_b64_char:
  "n < 64 \<Longrightarrow> of_char (b64_char n) =
     (if n < 26 then n + 65 else if n < 52 then n + 71 else if n < 62 then n - 4
      else if n = 62 then 45 else 95)"
  by (simp add: b64_char_def)

lemma b64_index_char: "n < 64 \<Longrightarrow> b64_index (b64_char n) = Some n"
  by (auto simp: b64_index_def of_char_b64_char Let_def)

lemma b64_char_neq:
  assumes "n < 64" and "(of_char c :: nat) < 45 \<or> (of_char c :: nat) = 46"
  shows "b64_char n \<noteq> c"
proof
  assume "b64_char n = c"
  then show False using assms of_char_b64_char [of n] by (auto split: if_splits)
qed

lemma b64_enc_digits: "\<forall>a\<in>set as. a < 256 \<Longrightarrow> \<forall>d\<in>set (b64_enc as). d < 64"
  by (induction as rule: b64_enc.induct) auto

lemma b64_dec_enc: "\<forall>a\<in>set as. a < 256 \<Longrightarrow> b64_dec (b64_enc as) = Some as"
  by (induction as rule: b64_enc.induct) auto

lemma those_index: "\<forall>d\<in>set ds. d < 64 \<Longrightarrow> those (map (\<lambda>d. b64_index (b64_char d)) ds) = Some ds"
  by (induction ds) (auto simp: b64_index_char)

lemma bytes_small: "\<forall>a\<in>set (map unat (bs :: u8 list)). a < 256"
  using unsigned_less [where 'b = 8 and 'a = nat] by auto

lemma enc_bytes_digits: "\<forall>d\<in>set (b64_enc (map unat (bs :: u8 list))). d < 64"
  by (rule b64_enc_digits [OF bytes_small])

lemma EncodeToString_no_char:
  "(of_char c :: nat) < 45 \<or> (of_char c :: nat) = 46 \<Longrightarrow> c \<notin> set (EncodeToString bs)"
  using enc_bytes_digits [of bs] b64_char_neq by (auto simp: EncodeToString_def)

lemma DecodeString_EncodeToString: "DecodeString (EncodeToString bs) = Inr bs"
proof -
  have "filter (\<lambda>c. c \<noteq> CHR 0x0A \<and> c \<noteq> CHR 0x0D) (EncodeToString bs) = EncodeToString bs"
    using EncodeToString_no_char [of "CHR 0x0A" bs] EncodeToString_no_char [of "CHR 0x0D" bs]
    by (auto simp: filter_id_conv)
  then show ?thesis
    by (simp add: DecodeString_def EncodeToString_def those_index [OF enc_bytes_digits]
        b64_dec_enc [OF bytes_small] o_def)
qed

text \<open>The separator of a token's parts occurs in no encoding.\<close>

lemma EncodeToString_no_dot: "CHR ''.'' \<notin> set (EncodeToString bs)"
  by (rule EncodeToString_no_char) simp

lemma length_b64_enc: "length (b64_enc as) = (length as * 4 + 2) div 3"
  by (induction as rule: b64_enc.induct) auto

lemma length_EncodeToString: "length (EncodeToString bs) = (length bs * 4 + 2) div 3"
  by (simp add: EncodeToString_def length_b64_enc)

end
