(* ===== verification/Jwt.thy ===== *)
theory Jwt
  imports Base64 Complex_Main
begin

text \<open>
  \<open>internal/auth/jwt.go\<close>: the validator of OAuth access tokens and its cache of signing
  keys. \<open>jwt.Parse\<close> (golang-jwt) is the parameter \<open>jwt_Parse\<close>; what the theorems need of
  it is stated in \<open>parse_contract\<close>. The clock, the responses of the key server, the JSON
  decoder of its documents and the conversion of out-of-range floats (which Go leaves to
  the implementation) are fields of the world. \<open>getPublicKey\<close> is modelled here without
  interference between its read-locked and its write-locked section; its interleavings are the
  theory \<open>KeyCache\<close>.
\<close>

section \<open>Data\<close>

text \<open>A decoded JSON value; a finite \<open>float64\<close> is a rational number.\<close>

datatype json = JNull | JBool bool | JNum rat | JStr string | JArr "json list" | JObj "(string \<times> json) list"

type_synonym claims = "string \<rightharpoonup> json"

record rsa_key =
  rsaN :: nat
  rsaE :: u64

record JWK =
  Kid :: string
  Kty :: string
  Use :: string
  jwkN :: string
  jwkE :: string
  jwkAlg :: string

record JWTValidator =
  issuer :: string
  audience :: string
  jwksURL :: string
  publicKeys :: "string \<rightharpoonup> rsa_key"
  lastKeysFetch :: gotime
  keysCacheTTL :: int

record OAuthContext =
  Email :: string
  Roles :: "string list"
  Subject :: string
  oServiceAccount :: string
  ExpiresAt :: gotime
  IssuedAt :: gotime

text \<open>
  The token object of golang-jwt, as far as the code reads it; \<open>tokClaims\<close> is \<open>None\<close>
  when the claims are not \<open>MapClaims\<close>.
\<close>

record jwt_token =
  tokAlg :: string
  tokHeader :: "string \<rightharpoonup> json"
  tokClaims :: "claims option"
  tokValid :: bool

text \<open>
  The world of the validator: its state, the readings of the clock, the results of the
  successive requests to the key server (status and body).
\<close>

record jwt_world =
  jwtValidator :: JWTValidator
  clock :: "nat \<Rightarrow> gotime"
  ticks :: nat
  request_ok :: "string \<Rightarrow> bool"
  jwks_responses :: "(error + nat \<times> string) list"
  decode_jwks :: "string \<Rightarrow> error + JWK list"
  float_to_int64 :: "rat \<Rightarrow> int"

definition now :: "('a jwt_world_scheme, gotime) prog" where
  "now w = (Ret (clock w (ticks w)), w\<lparr>ticks := Suc (ticks w)\<rparr>)"

definition NewJWTValidator :: "string \<Rightarrow> string \<Rightarrow> string \<Rightarrow> JWTValidator" where
  "NewJWTValidator iss aud url =
     \<lparr>issuer = iss, audience = aud, jwksURL = url, publicKeys = Map.empty,
      lastKeysFetch = 0, keysCacheTTL = 1 * hour\<rparr>"

section \<open>The key cache\<close>

definition big_SetBytes :: "u8 list \<Rightarrow> nat" where
  "big_SetBytes bs = foldl (\<lambda>n b. n * 256 + unat b) 0 bs"

text \<open>\<open>pubKey.E = pubKey.E<<8 + int(b)\<close> on a 64-bit integer.\<close>

definition exponent_of :: "u8 list \<Rightarrow> u64" where
  "exponent_of bs = foldl (\<lambda>E b. push_bit 8 E + ucast b) 0 bs"

text \<open>The loop over the keys of a document; the map is updated in place.\<close>

fun load_keys :: "JWK list \<Rightarrow> (string \<rightharpoonup> rsa_key) \<Rightarrow> (error + unit) \<times> (string \<rightharpoonup> rsa_key)" where
  "load_keys [] m = (Inr (), m)"
| "load_keys (jwk # keys) m =
     (if Kty jwk \<noteq> ''RSA'' \<or> Use jwk \<noteq> ''sig'' then load_keys keys m
      else (case DecodeString (jwkN jwk) of
        Inl e \<Rightarrow> (Inl (Wrap ''failed to decode n: %v'' e), m)
      | Inr nBytes \<Rightarrow> (case DecodeString (jwkE jwk) of
          Inl e \<Rightarrow> (Inl (Wrap ''failed to decode e: %v'' e), m)
        | Inr eBytes \<Rightarrow>
            load_keys keys (m(Kid jwk \<mapsto> \<lparr>rsaN = big_SetBytes nBytes, rsaE = exponent_of eBytes\<rparr>)))))"

definition store_keys :: "JWK list \<Rightarrow> ('a jwt_world_scheme, error + unit) prog" where
  "store_keys keys w =
    (case load_keys keys (publicKeys (jwtValidator w)) of (r, m) \<Rightarrow>
       (Ret r, w\<lparr>jwtValidator := (jwtValidator w)\<lparr>publicKeys := m\<rparr>\<rparr>))"

definition http_Do :: "('a jwt_world_scheme, error + nat \<times> string) prog" where
  "http_Do w = (case jwks_responses w of
     [] \<Rightarrow> (Blocked, w)
   | r # rs \<Rightarrow> (Ret r, w\<lparr>jwks_responses := rs\<rparr>))"

definition fetchJWKS :: "('a jwt_world_scheme, error + unit) prog" where
  "fetchJWKS =
    andThen (gets (\<lambda>w. request_ok w (jwksURL (jwtValidator w)))) (\<lambda>ok.
    if \<not> ok then ret (Inl (Err ''failed to create JWKS request: %v''))
    else ifErr http_Do
      (\<lambda>e. ret (Inl (Wrap ''failed to fetch JWKS: %w'' e)))
      (\<lambda>(status, body).
        if status \<noteq> 200 then ret (Inl (Err ''jwks endpoint returned %v''))
        else andThen (gets (\<lambda>w. decode_jwks w body)) (\<lambda>d.
          case d of
            Inl e \<Rightarrow> ret (Inl (Wrap ''failed to decode jwks: %v'' e))
          | Inr keys \<Rightarrow>
              ifErr (store_keys keys) (\<lambda>e. ret (Inl e)) (\<lambda>_.
              andThen now (\<lambda>t.
              andThen (modify (jwtValidator_update (lastKeysFetch_update (\<lambda>_. t)))) (\<lambda>_.
              ret (Inr ())))))))"

text \<open>\<open>key, exists := v.publicKeys[kid]; exists && time.Since(v.lastKeysFetch) < v.keysCacheTTL\<close>\<close>

definition cachedKey :: "string \<Rightarrow> ('a jwt_world_scheme, rsa_key option) prog" where
  "cachedKey kid =
    andThen (gets jwtValidator) (\<lambda>v.
    case publicKeys v kid of
      None \<Rightarrow> ret None
    | Some key \<Rightarrow> andThen now (\<lambda>t.
        if time_Sub t (lastKeysFetch v) < keysCacheTTL v then ret (Some key) else ret None))"

definition getPublicKey :: "string \<Rightarrow> ('a jwt_world_scheme, error + rsa_key) prog" where
  "getPublicKey kid =
    andThen (cachedKey kid) (\<lambda>r. case r of Some key \<Rightarrow> ret (Inr key) | None \<Rightarrow>
    andThen (cachedKey kid) (\<lambda>r. case r of Some key \<Rightarrow> ret (Inr key) | None \<Rightarrow>
    andThen fetchJWKS (\<lambda>err.
    andThen (gets (\<lambda>w. publicKeys (jwtValidator w) kid)) (\<lambda>key.
    case err of
      Inl e \<Rightarrow> (case key of Some k \<Rightarrow> ret (Inr k) | None \<Rightarrow> ret (Inl e))
    | Inr _ \<Rightarrow> (case key of
        None \<Rightarrow> ret (Inl (Err ''public key with kid %s not found in JWKS''))
      | Some k \<Rightarrow> ret (Inr k))))))"

section \<open>The claims\<close>

text \<open>The strings of a role claim: the string elements of an array, or the one string.\<close>

fun role_strings :: "json \<Rightarrow> string list" where
  "role_strings (JArr vs) = List.map_filter (\<lambda>v. case v of JStr s \<Rightarrow> Some s | _ \<Rightarrow> None) vs"
| "role_strings (JStr s) = [s]"
| "role_strings _ = []"

definition extractRoles :: "claims \<Rightarrow> string list" where
  "extractRoles claims =
     (case claims ''role'' of None \<Rightarrow> [] | Some v \<Rightarrow> role_strings v)
     @ (case claims ''roles'' of None \<Rightarrow> [] | Some v \<Rightarrow> role_strings v)"

definition validateAudience :: "JWTValidator \<Rightarrow> claims \<Rightarrow> error + unit" where
  "validateAudience v claims = (case claims ''aud'' of
     None \<Rightarrow> Inl (Err ''aud claim not found in jwt'')
   | Some (JStr a) \<Rightarrow>
       (if a \<noteq> audience v then Inl (Err ''invalid audience expected: %v, got: %v'') else Inr ())
   | Some (JArr as) \<Rightarrow>
       (if list_ex (\<lambda>a. a = JStr (audience v)) as then Inr ()
        else Inl (Err ''invalid audience: %s not found in audience list''))
   | Some _ \<Rightarrow> Inl (Err ''invalid audience type: %v''))"

text \<open>\<open>s, ok := claims[k].(string)\<close>\<close>

definition claim_string :: "claims \<Rightarrow> string \<Rightarrow> string option" where
  "claim_string claims k = (case claims k of Some (JStr s) \<Rightarrow> Some s | _ \<Rightarrow> None)"

definition claim_nonempty :: "claims \<Rightarrow> string \<Rightarrow> error \<Rightarrow> error + string" where
  "claim_nonempty claims k e = (case claim_string claims k of
     Some s \<Rightarrow> (if s = '''' then Inl e else Inr s)
   | None \<Rightarrow> Inl e)"

text \<open>\<open>int64(x)\<close>: truncation, where the result is representable.\<close>

definition int64_of :: "(rat \<Rightarrow> int) \<Rightarrow> rat \<Rightarrow> int" where
  "int64_of f x = (let n = (if 0 \<le> x then floor x else ceiling x)
     in if - (2 ^ 63) \<le> n \<and> n < 2 ^ 63 then n else f x)"

definition claim_time :: "(rat \<Rightarrow> int) \<Rightarrow> claims \<Rightarrow> string \<Rightarrow> gotime" where
  "claim_time f claims k = (case claims k of Some (JNum x) \<Rightarrow> time_Unix (int64_of f x) | _ \<Rightarrow> 0)"

text \<open>The part of \<open>ValidateJWT\<close> from the issuer check to the time stamps.\<close>

definition checkClaims :: "(rat \<Rightarrow> int) \<Rightarrow> JWTValidator \<Rightarrow> claims \<Rightarrow> error + OAuthContext" where
  "checkClaims f v claims =
    bindE (if claim_string claims ''iss'' = Some (issuer v) then Inr ()
           else Inl (Err ''invalid issue: %v'')) (\<lambda>_.
    bindE (validateAudience v claims) (\<lambda>_.
    bindE (claim_nonempty claims ''email'' (Err ''email not found in jwt'')) (\<lambda>email.
    bindE (claim_nonempty claims ''sub'' (Err ''sub claim not found in jwt'')) (\<lambda>sub.
    Inr \<lparr>Email = email, Roles = extractRoles claims, Subject = sub, oServiceAccount = '''',
         ExpiresAt = claim_time f claims ''exp'', IssuedAt = claim_time f claims ''iat''\<rparr>))))"

text \<open>The callback \<open>jwt.Parse\<close> calls to find the key of a token.\<close>

definition keyfunc :: "(string \<Rightarrow> ('w, error + rsa_key) prog) \<Rightarrow> jwt_token \<Rightarrow>
    ('w, error + rsa_key) prog" where
  "keyfunc getKey t =
    (if tokAlg t \<noteq> ''RS256'' then ret (Inl (Err ''unexpected signing method: %v ''))
     else (case tokHeader t ''kid'' of
       Some (JStr kid) \<Rightarrow> ifErr (getKey kid)
         (\<lambda>e. ret (Inl (Wrap ''failed to get public key: %v'' e)))
         (\<lambda>publicKey. ret (Inr publicKey))
     | _ \<Rightarrow> ret (Inl (Err ''key id (kid) not found in token header''))))"

type_synonym 'w jwt_parser =
  "string \<Rightarrow> (jwt_token \<Rightarrow> ('w, error + rsa_key) prog) \<Rightarrow> string list \<Rightarrow> ('w, error + jwt_token) prog"

definition ValidateJWT :: "'a jwt_world_scheme jwt_parser \<Rightarrow> string \<Rightarrow>
    ('a jwt_world_scheme, error + OAuthContext) prog" where
  "ValidateJWT jwt_Parse authToken =
    ifErr (jwt_Parse authToken (keyfunc getPublicKey) [''RS256''])
      (\<lambda>e. ret (Inl (Wrap ''jwt validation failed:%v'' e)))
      (\<lambda>token.
        if \<not> tokValid token then ret (Inl (Err ''jwt token invalid: %v''))
        else (case tokClaims token of
          None \<Rightarrow> ret (Inl (Err ''failed to parse jwt claims''))
        | Some claims \<Rightarrow>
            andThen (gets (\<lambda>w. checkClaims (float_to_int64 w) (jwtValidator w) claims)) (\<lambda>r.
            case r of
              Inl e \<Rightarrow> ret (Inl e)
            | Inr oauthContext \<Rightarrow>
                andThen now (\<lambda>t.
                if t > ExpiresAt oauthContext then ret (Inl (Err ''JWT token has expired''))
                else ret (Inr oauthContext)))))"

section \<open>Keys read from a document\<close>

lemma big_SetBytes_snoc: "big_SetBytes (bs @ [b]) = big_SetBytes bs * 256 + unat b"
  by (simp add: big_SetBytes_def)

lemma exponent_of_snoc: "exponent_of (bs @ [b]) = push_bit 8 (exponent_of bs) + ucast b"
  by (simp add: exponent_of_def)

lemma big_SetBytes_bound: "big_SetBytes bs < 256 ^ length bs"
proof (induction bs rule: rev_induct)
  case (snoc b bs)
  moreover have "unat b < 256" using unsigned_less [where 'b = 8 and 'a = nat, of b] by simp
  ultimately show ?case by (simp add: big_SetBytes_snoc)
qed (simp add: big_SetBytes_def)

lemma exponent_of_eq: "exponent_of bs = of_nat (big_SetBytes bs)"
proof (induction bs rule: rev_induct)
  case (snoc b bs)
  have "(ucast b :: u64) = of_nat (unat b)" by simp
  with snoc show ?case
    by (simp add: exponent_of_snoc big_SetBytes_snoc push_bit_eq_mult mult.commute)
qed (simp add: big_SetBytes_def exponent_of_def)

lemma exponent_of_small: "length bs \<le> 8 \<Longrightarrow> unat (exponent_of bs) = big_SetBytes bs"
proof -
  assume "length bs \<le> 8"
  then have "(256::nat) ^ length bs \<le> 256 ^ 8" by (intro power_increasing) auto
  then have "big_SetBytes bs < 2 ^ 64" using big_SetBytes_bound [of bs] by simp
  then show ?thesis by (simp add: exponent_of_eq unsigned_of_nat take_bit_nat_eq_self)
qed

definition jwk_of :: "string \<Rightarrow> u8 list \<Rightarrow> u8 list \<Rightarrow> JWK" where
  "jwk_of kid nb eb = \<lparr>Kid = kid, Kty = ''RSA'', Use = ''sig'', jwkN = EncodeToString nb,
     jwkE = EncodeToString eb, jwkAlg = ''RS256''\<rparr>"

text \<open>The loader reads back what a key server publishes: an RSA signing key whose modulus
  and exponent are the base64url encodings of big-endian numbers is stored under its key
  id with exactly these numbers, as long as the exponent has at most 8 bytes (the loop
  shifts in a 64-bit integer).\<close>

theorem jwk_roundtrip:
  assumes "length eb \<le> 8"
  shows "\<exists>key. load_keys [jwk_of kid nb eb] m = (Inr (), m(kid \<mapsto> key))
     \<and> rsaN key = big_SetBytes nb \<and> unat (rsaE key) = big_SetBytes eb"
  by (rule exI [of _ "\<lparr>rsaN = big_SetBytes nb, rsaE = exponent_of eb\<rparr>"])
    (simp add: jwk_of_def DecodeString_EncodeToString exponent_of_small assms)

theorem jwk_roundtrip_witness:
  "\<exists>key. load_keys [jwk_of ''k1'' [200, 1] [1, 0, 1]] Map.empty = (Inr (), [''k1'' \<mapsto> key])
     \<and> rsaN key = 51201 \<and> unat (rsaE key) = 65537"
  using jwk_roundtrip [of "[1, 0, 1]" "''k1''" "[200, 1]" Map.empty] by (simp add: big_SetBytes_def)

lemma load_keys_mono: "load_keys ks m = (r, m') \<Longrightarrow> dom m \<subseteq> dom m'"
  by (induction ks arbitrary: m) (fastforce split: if_splits sum.splits)+

lemma load_keys_other:
  "load_keys ks m = (r, m') \<Longrightarrow> kid \<notin> Kid ` set ks \<Longrightarrow> m' kid = m kid"
  by (induction ks arbitrary: m) (fastforce split: if_splits sum.splits)+

section \<open>What the validator leaves alone\<close>

text \<open>
  The validator never changes its configuration, never forgets a key id, never moves the
  clock back, and touches nothing outside its own fields.
\<close>

definition jwt_le :: "'a jwt_world_scheme \<Rightarrow> 'a jwt_world_scheme \<Rightarrow> bool" where
  "jwt_le w w' \<longleftrightarrow>
     issuer (jwtValidator w') = issuer (jwtValidator w)
   \<and> audience (jwtValidator w') = audience (jwtValidator w)
   \<and> jwksURL (jwtValidator w') = jwksURL (jwtValidator w)
   \<and> keysCacheTTL (jwtValidator w') = keysCacheTTL (jwtValidator w)
   \<and> dom (publicKeys (jwtValidator w)) \<subseteq> dom (publicKeys (jwtValidator w'))
   \<and> ticks w \<le> ticks w' \<and> clock w' = clock w \<and> float_to_int64 w' = float_to_int64 w
   \<and> jwt_world.more w' = jwt_world.more w"

interpretation jwtf: frame "jwt_le :: 'a jwt_world_scheme \<Rightarrow> 'a jwt_world_scheme \<Rightarrow> bool"
  by unfold_locales (auto simp: jwt_le_def)

lemma now_le: "related jwt_le now"
  by (simp add: related_def now_def jwt_le_def)

lemma store_keys_le: "related jwt_le (store_keys ks)"
  by (auto simp: related_def store_keys_def jwt_le_def split: prod.split dest: load_keys_mono)

lemma http_Do_le: "related jwt_le http_Do"
  by (auto simp: related_def http_Do_def jwt_le_def split: list.split)

lemma set_fetch_time_le: "related jwt_le (modify (jwtValidator_update (lastKeysFetch_update (\<lambda>_. t))))"
  by (simp add: related_def modify_def jwt_le_def)

lemma fetchJWKS_le: "related jwt_le fetchJWKS"
  unfolding fetchJWKS_def
  by (auto intro!: jwtf.related_rules http_Do_le store_keys_le now_le set_fetch_time_le
      split: sum.split prod.split)

lemma cachedKey_le: "related jwt_le (cachedKey kid)"
  unfolding cachedKey_def by (auto intro!: jwtf.related_rules now_le split: option.split)

lemma getPublicKey_le: "related jwt_le (getPublicKey kid)"
  unfolding getPublicKey_def
  by (auto intro!: jwtf.related_rules cachedKey_le fetchJWKS_le split: sum.split option.split)

lemma keyfunc_le: "related jwt_le (keyfunc getPublicKey t)"
  unfolding keyfunc_def
  by (auto intro!: jwtf.related_rules getPublicKey_le split: option.split json.split)

section \<open>Where keys come from\<close>

text \<open>
  The interface between the token check and the key cache: a function that finds the key
  of a key id, and the keys the world trusts. The law is that a key is only returned if
  it is trusted when the function returns.
\<close>

locale key_source =
  fixes getKey :: "string \<Rightarrow> ('w, error + rsa_key) prog"
    and trusted :: "'w \<Rightarrow> string \<Rightarrow> rsa_key option"
  assumes getKey_trusted: "getKey kid w = (Ret (Inr key), w') \<Longrightarrow> trusted w' kid = Some key"
begin

lemma keyfunc_Inr:
  assumes "keyfunc getKey t w = (Ret (Inr key), w')"
  shows "tokAlg t = ''RS256'' \<and>
    (\<exists>kid. tokHeader t ''kid'' = Some (JStr kid) \<and> trusted w' kid = Some key)"
  using assms
  by (auto simp: keyfunc_def prog_simps split: if_splits option.splits json.splits
      prod.splits outcome.splits sum.splits dest: getKey_trusted)

end

lemma cachedKey_Some:
  assumes "cachedKey kid w = (Ret (Some key), w')"
  shows "publicKeys (jwtValidator w') kid = Some key"
  using assms by (auto simp: cachedKey_def now_def prog_simps split: option.splits if_splits)

lemma getPublicKey_trusted:
  assumes "getPublicKey kid w = (Ret (Inr key), w')"
  shows "publicKeys (jwtValidator w') kid = Some key"
  using assms
  by (auto simp: getPublicKey_def prog_simps dest: cachedKey_Some
      split: option.splits prod.splits outcome.splits sum.splits)

interpretation keys: key_source getPublicKey "\<lambda>w. publicKeys (jwtValidator w)"
  by unfold_locales (rule getPublicKey_trusted)

section \<open>Validation\<close>

text \<open>
  What golang-jwt promises of \<open>Parse\<close>: a token it returns is one it found in the text,
  its algorithm is in the list of valid methods, the key for it was returned by the
  callback and the signature is valid under that key (the relation \<open>sig_ok\<close>); it calls
  the callback at most once and has no other effect.
\<close>

definition parse_contract :: "'w jwt_parser \<Rightarrow> (string \<Rightarrow> jwt_token \<Rightarrow> rsa_key \<Rightarrow> bool) \<Rightarrow> bool" where
  "parse_contract jwt_Parse sig_ok \<longleftrightarrow>
     (\<forall>text kf algs w t w'. jwt_Parse text kf algs w = (Ret (Inr t), w') \<longrightarrow>
        tokValid t \<and> tokAlg t \<in> set algs \<and>
        (\<exists>key. kf (t\<lparr>tokValid := False\<rparr>) w = (Ret (Inr key), w') \<and> sig_ok text t key))
   \<and> (\<forall>text kf algs w. snd (jwt_Parse text kf algs w) = w
        \<or> (\<exists>t. snd (jwt_Parse text kf algs w) = snd (kf t w)))"

lemma parse_contract_related:
  assumes "parse_contract jwt_Parse sig_ok" and "\<And>t. related R (kf t)" and "\<And>w. R w w"
  shows "related R (jwt_Parse text kf algs)"
proof (rule relatedI)
  fix w
  from assms(1) consider "snd (jwt_Parse text kf algs w) = w"
    | t where "snd (jwt_Parse text kf algs w) = snd (kf t w)"
    unfolding parse_contract_def by blast
  then show "R w (snd (jwt_Parse text kf algs w))"
    using assms(2,3) by cases (auto simp: related_def)
qed

lemma ValidateJWT_le:
  assumes "parse_contract jwt_Parse sig_ok"
  shows "related jwt_le (ValidateJWT jwt_Parse tok)"
  unfolding ValidateJWT_def
  by (auto intro!: jwtf.related_rules now_le keyfunc_le parse_contract_related [OF assms]
      jwtf.R_refl split: sum.split option.split)

text \<open>What an accepted set of claims looks like.\<close>

definition claims_ok :: "JWTValidator \<Rightarrow> claims \<Rightarrow> OAuthContext \<Rightarrow> bool" where
  "claims_ok v claims ctx \<longleftrightarrow>
     claims ''iss'' = Some (JStr (issuer v))
   \<and> (claims ''aud'' = Some (JStr (audience v))
       \<or> (\<exists>as. claims ''aud'' = Some (JArr as) \<and> JStr (audience v) \<in> set as))
   \<and> claims ''email'' = Some (JStr (Email ctx)) \<and> Email ctx \<noteq> []
   \<and> claims ''sub'' = Some (JStr (Subject ctx)) \<and> Subject ctx \<noteq> []
   \<and> Roles ctx = extractRoles claims"

lemma claim_string_Some [simp]: "claim_string claims k = Some s \<longleftrightarrow> claims k = Some (JStr s)"
  by (auto simp: claim_string_def split: option.split json.split)

lemma claim_nonempty_Inr [result_iff]:
  "claim_nonempty claims k e = Inr s \<longleftrightarrow> claims k = Some (JStr s) \<and> s \<noteq> []"
  by (auto simp: claim_nonempty_def split: option.split simp flip: claim_string_Some)

lemma validateAudience_Inr [result_iff]:
  "validateAudience v claims = Inr u \<longleftrightarrow> claims ''aud'' = Some (JStr (audience v))
     \<or> (\<exists>as. claims ''aud'' = Some (JArr as) \<and> JStr (audience v) \<in> set as)"
  by (auto simp: validateAudience_def list_ex_iff split: option.split json.split)

lemma checkClaims_Inr:
  "checkClaims f v claims = Inr ctx \<Longrightarrow> claims_ok v claims ctx
     \<and> ExpiresAt ctx = claim_time f claims ''exp'' \<and> IssuedAt ctx = claim_time f claims ''iat''"
  by (auto simp: checkClaims_def claims_ok_def result_iff split: if_splits)

lemma checkClaims_cong:
  "issuer v = issuer v' \<Longrightarrow> audience v = audience v' \<Longrightarrow> checkClaims f v = checkClaims f v'"
  by (rule ext) (simp add: checkClaims_def validateAudience_def split: option.split json.split)

lemma ValidateJWT_sound:
  assumes contract: "parse_contract jwt_Parse sig_ok"
    and run: "ValidateJWT jwt_Parse tok w = (Ret (Inr ctx), w')"
  shows "\<exists>t claims kid key. sig_ok tok t key \<and> tokAlg t = ''RS256''
    \<and> tokHeader t ''kid'' = Some (JStr kid) \<and> publicKeys (jwtValidator w') kid = Some key
    \<and> tokClaims t = Some claims \<and> claims_ok (jwtValidator w) claims ctx
    \<and> (\<exists>n\<ge>ticks w. clock w n \<le> ExpiresAt ctx)
    \<and> ExpiresAt ctx = claim_time (float_to_int64 w) claims ''exp''"
proof -
  obtain t w1 where p: "jwt_Parse tok (keyfunc getPublicKey) [''RS256''] w = (Ret (Inr t), w1)"
    using run by (auto simp: ValidateJWT_def prog_simps split: prod.splits outcome.splits sum.splits)
  then obtain key where k: "keyfunc getPublicKey (t\<lparr>tokValid := False\<rparr>) w = (Ret (Inr key), w1)"
    and s: "sig_ok tok t key" and v: "tokValid t"
    using contract unfolding parse_contract_def by blast
  from keyfunc_le k have le: "jwt_le w w1" by (rule relatedD)
  from run p v obtain claims where c: "tokClaims t = Some claims"
    and ch: "checkClaims (float_to_int64 w1) (jwtValidator w1) claims = Inr ctx"
    and n: "clock w1 (ticks w1) \<le> ExpiresAt ctx" "w' = w1\<lparr>ticks := Suc (ticks w1)\<rparr>"
    by (auto simp: ValidateJWT_def prog_simps now_def split: option.splits sum.splits if_splits)
  from ch le have ch': "checkClaims (float_to_int64 w) (jwtValidator w) claims = Inr ctx"
    using checkClaims_cong [of "jwtValidator w1" "jwtValidator w"] by (simp add: jwt_le_def)
  from keys.keyfunc_Inr [OF k] n obtain kid where "tokAlg t = ''RS256''"
    "tokHeader t ''kid'' = Some (JStr kid)" "publicKeys (jwtValidator w') kid = Some key"
    by auto
  moreover have "\<exists>n\<ge>ticks w. clock w n \<le> ExpiresAt ctx" using n le by (auto simp: jwt_le_def)
  ultimately show ?thesis using s c checkClaims_Inr [OF ch'] by blast
qed

text \<open>C6: A token that the validator accepts is genuine: its signature is valid under an RSA
  key of the validator's key cache with the token's key id, the algorithm is RS256, issuer
  and audience are the configured ones, email and subject are non-empty and taken from
  the claims, the roles are those of the role claims, and the expiry time of the claims
  is not before a clock reading made during the call; with the clock past the zero time a
  token without a numeric expiry is never accepted.\<close>

theorem validated_token_is_genuine:
  assumes "parse_contract jwt_Parse sig_ok"
    and "ValidateJWT jwt_Parse tok w = (Ret (Inr ctx), w')"
    and "\<And>n. clock w n > 0"
  shows "\<exists>t claims kid key exp n. sig_ok tok t key \<and> tokAlg t = ''RS256''
    \<and> tokHeader t ''kid'' = Some (JStr kid) \<and> publicKeys (jwtValidator w') kid = Some key
    \<and> tokClaims t = Some claims \<and> claims_ok (jwtValidator w) claims ctx
    \<and> claims ''exp'' = Some (JNum exp) \<and> ticks w \<le> n
    \<and> clock w n \<le> time_Unix (int64_of (float_to_int64 w) exp)"
proof -
  obtain t claims kid key n where *: "sig_ok tok t key" "tokAlg t = ''RS256''"
    "tokHeader t ''kid'' = Some (JStr kid)" "publicKeys (jwtValidator w') kid = Some key"
    "tokClaims t = Some claims" "claims_ok (jwtValidator w) claims ctx"
    "ticks w \<le> n" "clock w n \<le> claim_time (float_to_int64 w) claims ''exp''"
    using ValidateJWT_sound [OF assms(1,2)] by auto
  with assms(3) [of n] obtain exp where "claims ''exp'' = Some (JNum exp)"
    "clock w n \<le> time_Unix (int64_of (float_to_int64 w) exp)"
    by (auto simp: claim_time_def split: option.splits json.splits)
  with * show ?thesis by blast
qed

text \<open>A parser that finds one fixed token in any text: enough to run the validator.\<close>

definition sample_parse :: "jwt_token \<Rightarrow> 'w jwt_parser" where
  "sample_parse t text kf algs w =
     (if tokAlg t \<in> set algs
      then (case kf (t\<lparr>tokValid := False\<rparr>) w of
          (Ret (Inr key), w') \<Rightarrow> (Ret (Inr (t\<lparr>tokValid := True\<rparr>)), w')
        | (Ret (Inl e), w') \<Rightarrow> (Ret (Inl e), w')
        | (Panic, w') \<Rightarrow> (Panic, w') | (Exit, w') \<Rightarrow> (Exit, w') | (Blocked, w') \<Rightarrow> (Blocked, w'))
      else (Ret (Inl (Err ''signing method is invalid'')), w))"

lemma sample_parse_contract:
  "parse_contract (sample_parse t) (\<lambda>text t' key. t' = t\<lparr>tokValid := True\<rparr>)"
proof -
  have frame: "snd (sample_parse t tok kf algs w) = w
      \<or> (\<exists>t'. snd (sample_parse t tok kf algs w) = snd (kf t' w))" for tok kf algs w
  proof (cases "tokAlg t \<in> set algs")
    case True
    then have "snd (sample_parse t tok kf algs w) = snd (kf (t\<lparr>tokValid := False\<rparr>) w)"
      by (simp add: sample_parse_def split: prod.split outcome.split sum.split)
    then show ?thesis by (intro disjI2 exI)
  next
    case False
    then show ?thesis by (simp add: sample_parse_def)
  qed
  have sound: "tokValid t1 \<and> tokAlg t1 \<in> set algs \<and>
      (\<exists>key. kf (t1\<lparr>tokValid := False\<rparr>) w = (Ret (Inr key), w') \<and> t1 = t\<lparr>tokValid := True\<rparr>)"
    if "sample_parse t tok kf algs w = (Ret (Inr t1), w')" for tok kf algs w t1 w'
    using that by (auto simp: sample_parse_def split: if_splits prod.splits outcome.splits sum.splits)
  show ?thesis
    unfolding parse_contract_def by (intro conjI allI impI sound frame)
qed

definition sample_claims :: claims where
  "sample_claims = [''iss'' \<mapsto> JStr ''https://t/'', ''aud'' \<mapsto> JArr [JNull, JStr ''gprxy''],
     ''email'' \<mapsto> JStr ''a@b.c'', ''sub'' \<mapsto> JStr ''auth0|1'',
     ''role'' \<mapsto> JArr [JStr ''Admin'', JNum 1], ''roles'' \<mapsto> JStr ''viewer'',
     ''exp'' \<mapsto> JNum 2000, ''iat'' \<mapsto> JNum 1000]"

definition sample_token :: jwt_token where
  "sample_token = \<lparr>tokAlg = ''RS256'', tokHeader = [''kid'' \<mapsto> JStr ''k1''],
     tokClaims = Some sample_claims, tokValid = True\<rparr>"

definition sample_key :: rsa_key where
  "sample_key = \<lparr>rsaN = 3233, rsaE = 17\<rparr>"

definition sample_jwt_world :: jwt_world where
  "sample_jwt_world = \<lparr>jwtValidator =
       (NewJWTValidator ''https://t/'' ''gprxy'' ''u'')\<lparr>publicKeys := [''k1'' \<mapsto> sample_key],
          lastKeysFetch := time_Unix 1000\<rparr>,
     clock = (\<lambda>_. time_Unix 1001), ticks = 0, request_ok = (\<lambda>_. True),
     jwks_responses = [], decode_jwks = (\<lambda>_. Inr []), float_to_int64 = (\<lambda>_. 0)\<rparr>"

definition sample_context :: OAuthContext where
  "sample_context = \<lparr>Email = ''a@b.c'', Roles = [''Admin'', ''viewer''], Subject = ''auth0|1'',
     oServiceAccount = '''', ExpiresAt = time_Unix 2000, IssuedAt = time_Unix 1000\<rparr>"

lemma sample_ValidateJWT:
  "ValidateJWT (sample_parse sample_token) ''eyJ'' sample_jwt_world =
     (Ret (Inr sample_context), sample_jwt_world\<lparr>ticks := 2\<rparr>)"
  by (simp add: ValidateJWT_def sample_parse_def sample_token_def keyfunc_def getPublicKey_def
      cachedKey_def now_def prog_simps sample_jwt_world_def NewJWTValidator_def checkClaims_def
      sample_claims_def validateAudience_def claim_nonempty_def claim_string_def extractRoles_def map_filter_simps
      claim_time_def int64_of_def time_Unix_def wrap64_def time_Sub_def hour_def minute_def
      second_def sample_context_def)

lemma sample_clock: "clock sample_jwt_world n > 0"
  by (simp add: sample_jwt_world_def time_Unix_def wrap64_def)

theorem validated_token_is_genuine_witness:
  "\<exists>(t :: jwt_token) claims. tokAlg t = ''RS256'' \<and> tokClaims t = Some claims
     \<and> claims_ok (jwtValidator sample_jwt_world) claims sample_context"
  using validated_token_is_genuine [OF sample_parse_contract sample_ValidateJWT sample_clock]
  by blast

section \<open>The cache over time\<close>

lemma cachedKey_keeps: "cachedKey kid w = (r, w') \<Longrightarrow>
    (\<exists>a. r = Ret a) \<and> jwtValidator w' = jwtValidator w \<and> jwks_responses w' = jwks_responses w"
  by (auto simp: cachedKey_def now_def prog_simps split: option.splits if_splits)

lemma fetchJWKS_Ret: "jwks_responses w \<noteq> [] \<Longrightarrow> \<exists>r w'. fetchJWKS w = (Ret r, w')"
  by (cases "jwks_responses w")
    (auto simp: fetchJWKS_def http_Do_def store_keys_def now_def prog_simps split: sum.split prod.split)

text \<open>Availability of a known key: once a key id is in the cache, looking it up returns a
  key whatever the key server does (answers, fails, sends garbage or drops the key), as
  long as its request completes; an error is only possible for an unknown key id.\<close>

theorem known_key_always_found:
  assumes "kid \<in> dom (publicKeys (jwtValidator w))" and "jwks_responses w \<noteq> []"
  shows "\<exists>key. fst (getPublicKey kid w) = Ret (Inr key)"
proof -
  obtain r1 w1 where c1: "cachedKey kid w = (r1, w1)" by fastforce
  obtain r2 w2 where c2: "cachedKey kid w1 = (r2, w2)" by fastforce
  note k = cachedKey_keeps [OF c1] cachedKey_keeps [OF c2]
  with assms(2) obtain r3 w3 where f: "fetchJWKS w2 = (Ret r3, w3)"
    using fetchJWKS_Ret [of w2] by auto
  have "jwt_le w2 w3" using fetchJWKS_le f by (rule relatedD)
  with k assms(1) obtain key where "publicKeys (jwtValidator w3) kid = Some key"
    by (auto simp: jwt_le_def)
  with c1 c2 f k show ?thesis
    by (auto simp: getPublicKey_def prog_simps split: option.split sum.split)
qed

theorem known_key_always_found_witness:
  "\<exists>key. fst (getPublicKey ''k1'' (sample_jwt_world\<lparr>clock := \<lambda>_. time_Unix 9000,
     jwks_responses := [Inl (Err ''connection refused'')]\<rparr>)) = Ret (Inr key)"
  by (rule known_key_always_found) (simp_all add: sample_jwt_world_def)

lemma cachedKey_fresh:
  assumes "publicKeys (jwtValidator w) kid = Some key"
    and "time_Sub (clock w (ticks w)) (lastKeysFetch (jwtValidator w)) < keysCacheTTL (jwtValidator w)"
  shows "cachedKey kid w = (Ret (Some key), w\<lparr>ticks := Suc (ticks w)\<rparr>)"
  using assms by (simp add: cachedKey_def now_def prog_simps)

text \<open>A fresh cache answers without the network: a lookup of a cached key id within the
  time to live returns the cached key and sends no request.\<close>

theorem fresh_key_without_request:
  assumes "publicKeys (jwtValidator w) kid = Some key"
    and "time_Sub (clock w (ticks w)) (lastKeysFetch (jwtValidator w)) < keysCacheTTL (jwtValidator w)"
  shows "getPublicKey kid w = (Ret (Inr key), w\<lparr>ticks := Suc (ticks w)\<rparr>)"
  by (simp add: getPublicKey_def prog_simps cachedKey_fresh [OF assms])

theorem fresh_key_without_request_witness:
  "getPublicKey ''k1'' sample_jwt_world = (Ret (Inr sample_key), sample_jwt_world\<lparr>ticks := 1\<rparr>)"
  using fresh_key_without_request [of sample_jwt_world "''k1''" sample_key]
  by (simp add: sample_jwt_world_def NewJWTValidator_def time_Unix_def wrap64_def time_Sub_def
      hour_def minute_def second_def)

text \<open>
  A fetch merges the document into the cache. Nothing is ever removed, so a key that the
  server has withdrawn stays valid.
\<close>

lemma fetchJWKS_success:
  assumes "fetchJWKS w = (Ret (Inr ()), w')"
  shows "\<exists>body ks rs m. jwks_responses w = Inr (200, body) # rs \<and> decode_jwks w body = Inr ks
    \<and> load_keys ks (publicKeys (jwtValidator w)) = (Inr (), m)
    \<and> publicKeys (jwtValidator w') = m \<and> lastKeysFetch (jwtValidator w') = clock w (ticks w)
    \<and> keysCacheTTL (jwtValidator w') = keysCacheTTL (jwtValidator w)"
  using assms
  by (auto simp: fetchJWKS_def http_Do_def store_keys_def now_def prog_simps
      split: if_splits list.splits sum.splits prod.splits)

text \<open>Withdrawn keys are never evicted: after a successful refresh whose document no
  longer lists a key id, a lookup of that key id within the next time to live still
  returns the old key, so tokens signed with a withdrawn key keep being accepted.\<close>

theorem withdrawn_key_still_served:
  assumes "publicKeys (jwtValidator w) kid = Some key"
    and "fetchJWKS w = (Ret (Inr ()), w')"
    and "\<And>status body rs ks. jwks_responses w = Inr (status, body) # rs \<Longrightarrow>
           decode_jwks w body = Inr ks \<Longrightarrow> kid \<notin> Kid ` set ks"
    and "time_Sub (clock w' (ticks w')) (lastKeysFetch (jwtValidator w')) < keysCacheTTL (jwtValidator w')"
  shows "fst (getPublicKey kid w') = Ret (Inr key)"
proof -
  have "publicKeys (jwtValidator w') kid = Some key"
    using fetchJWKS_success [OF assms(2)] assms(1,3) load_keys_other by fastforce
  then show ?thesis
    by (simp add: getPublicKey_def prog_simps cachedKey_fresh [OF _ assms(4)])
qed

definition withdrawn_world :: jwt_world where
  "withdrawn_world = sample_jwt_world\<lparr>jwks_responses := [Inr (200, ''{}'')]\<rparr>"

theorem withdrawn_key_still_served_witness:
  "\<exists>w'. fetchJWKS withdrawn_world = (Ret (Inr ()), w')
     \<and> fst (getPublicKey ''k1'' w') = Ret (Inr sample_key)"
proof -
  let ?w = "withdrawn_world\<lparr>jwtValidator := (jwtValidator withdrawn_world)\<lparr>lastKeysFetch := time_Unix 1001\<rparr>,
    jwks_responses := [], ticks := 1\<rparr>"
  have f: "fetchJWKS withdrawn_world = (Ret (Inr ()), ?w)"
    by (simp add: fetchJWKS_def http_Do_def store_keys_def now_def prog_simps withdrawn_world_def
        sample_jwt_world_def)
  have "fst (getPublicKey ''k1'' ?w) = Ret (Inr sample_key)"
    by (rule withdrawn_key_still_served [OF _ f])
      (auto simp: withdrawn_world_def sample_jwt_world_def NewJWTValidator_def time_Sub_def
        hour_def minute_def second_def)
  with f show ?thesis by blast
qed

end
