(* ===== verification/KeyCache.thy ===== *)
theory KeyCache
  imports Jwt
begin

text \<open>
  Many goroutines in \<open>getPublicKey\<close> of \<open>internal/auth/jwt.go\<close> at once. The read-locked
  section and the write-locked section (second lookup and fetch) are atomic, anything may
  happen between them.
\<close>

section \<open>The steps\<close>

datatype key_pc =
    AskFor string
  | MissedKey string
  | GotKey string "error + rsa_key"

record key_system =
  kworld :: jwt_world
  kcallers :: "nat \<Rightarrow> key_pc option"

text \<open>The write-locked section, from the second lookup on.\<close>

definition refreshKey :: "string \<Rightarrow> ('a jwt_world_scheme, error + rsa_key) prog" where
  "refreshKey kid =
    andThen (cachedKey kid) (\<lambda>r. case r of Some key \<Rightarrow> ret (Inr key) | None \<Rightarrow>
    andThen fetchJWKS (\<lambda>err.
    andThen (gets (\<lambda>w. publicKeys (jwtValidator w) kid)) (\<lambda>key.
    case err of
      Inl e \<Rightarrow> (case key of Some k \<Rightarrow> ret (Inr k) | None \<Rightarrow> ret (Inl e))
    | Inr _ \<Rightarrow> (case key of
        None \<Rightarrow> ret (Inl (Err ''public key with kid %s not found in JWKS''))
      | Some k \<Rightarrow> ret (Inr k)))))"

inductive key_step :: "key_system \<Rightarrow> key_system \<Rightarrow> bool" where
  ask: "kcallers s t = None \<Longrightarrow> key_step s (s\<lparr>kcallers := (kcallers s)(t \<mapsto> AskFor kid)\<rparr>)"
| hit: "kcallers s t = Some (AskFor kid) \<Longrightarrow> cachedKey kid (kworld s) = (Ret (Some key), w') \<Longrightarrow>
     key_step s (s\<lparr>kworld := w', kcallers := (kcallers s)(t \<mapsto> GotKey kid (Inr key))\<rparr>)"
| miss: "kcallers s t = Some (AskFor kid) \<Longrightarrow> cachedKey kid (kworld s) = (Ret None, w') \<Longrightarrow>
     key_step s (s\<lparr>kworld := w', kcallers := (kcallers s)(t \<mapsto> MissedKey kid)\<rparr>)"
| refresh: "kcallers s t = Some (MissedKey kid) \<Longrightarrow> refreshKey kid (kworld s) = (Ret r, w') \<Longrightarrow>
     key_step s (s\<lparr>kworld := w', kcallers := (kcallers s)(t \<mapsto> GotKey kid r)\<rparr>)"

text \<open>Without interference the two sections are \<open>getPublicKey\<close>.\<close>

lemma getPublicKey_sections:
  "getPublicKey kid = andThen (cachedKey kid) (\<lambda>r. case r of
     Some key \<Rightarrow> ret (Inr key) | None \<Rightarrow> refreshKey kid)"
  unfolding getPublicKey_def refreshKey_def ..

section \<open>No stampede\<close>

text \<open>
  A period in which the clock moves by less than the life time of the cache, and a cache
  that was filled in it and has the keys in \<open>K\<close>.
\<close>

definition filled :: "gotime \<Rightarrow> string set \<Rightarrow> jwt_world \<Rightarrow> bool" where
  "filled T K w \<longleftrightarrow> K \<subseteq> dom (publicKeys (jwtValidator w)) \<and> T \<le> lastKeysFetch (jwtValidator w)
     \<and> (\<forall>n. clock w n < T + keysCacheTTL (jwtValidator w))
     \<and> 0 < keysCacheTTL (jwtValidator w) \<and> keysCacheTTL (jwtValidator w) < 2 ^ 63"

lemma cachedKey_filled:
  assumes "filled T K w" and "kid \<in> K"
  shows "\<exists>key. cachedKey kid w = (Ret (Some key), w\<lparr>ticks := Suc (ticks w)\<rparr>)"
proof -
  from assms obtain key where k: "publicKeys (jwtValidator w) kid = Some key"
    by (auto simp: filled_def)
  from assms(1) have "clock w (ticks w) - lastKeysFetch (jwtValidator w) < keysCacheTTL (jwtValidator w)"
    by (simp add: filled_def) (smt (verit) spec)
  with assms(1) have "time_Sub (clock w (ticks w)) (lastKeysFetch (jwtValidator w)) < keysCacheTTL (jwtValidator w)"
    by (auto simp: time_Sub_def filled_def)
  with k show ?thesis by (simp add: cachedKey_def now_def prog_simps)
qed

lemma refreshKey_filled:
  assumes "filled T K w" and "kid \<in> K"
  shows "\<exists>key. refreshKey kid w = (Ret (Inr key), w\<lparr>ticks := Suc (ticks w)\<rparr>)"
  using cachedKey_filled [OF assms] by (auto simp: refreshKey_def prog_simps)

lemma filled_tick [simp]: "filled T K (w\<lparr>ticks := n\<rparr>) = filled T K w"
  by (simp add: filled_def)

text \<open>The key ids that goroutines are after.\<close>

definition wanted :: "key_system \<Rightarrow> string set" where
  "wanted s = {kid. \<exists>t. kcallers s t = Some (AskFor kid) \<or> kcallers s t = Some (MissedKey kid)}"

text \<open>A step in a state in which only the keys in \<open>K\<close> are asked for.\<close>

definition step_within :: "string set \<Rightarrow> key_system \<Rightarrow> key_system \<Rightarrow> bool" where
  "step_within K s s' \<longleftrightarrow> wanted s \<subseteq> K \<and> key_step s s'"

text \<open>The answers of goroutines that have come back since \<open>s0\<close>.\<close>

definition answered :: "key_system \<Rightarrow> key_system \<Rightarrow> bool" where
  "answered s0 s \<longleftrightarrow> (\<forall>t kid r. kcallers s t = Some (GotKey kid r) \<and> kcallers s0 t \<noteq> kcallers s t
     \<longrightarrow> (\<exists>key. r = Inr key \<and> publicKeys (jwtValidator (kworld s0)) kid = Some key))"

text \<open>Since \<open>s0\<close> only the clock was read.\<close>

definition cache_inv :: "gotime \<Rightarrow> string set \<Rightarrow> key_system \<Rightarrow> key_system \<Rightarrow> bool" where
  "cache_inv T K s0 s \<longleftrightarrow> filled T K (kworld s0) \<and> answered s0 s
     \<and> (\<exists>n. kworld s = (kworld s0)\<lparr>ticks := n\<rparr>)"

lemma cachedKey_key: "cachedKey kid w = (Ret (Some key), w') \<Longrightarrow> publicKeys (jwtValidator w) kid = Some key"
  by (auto simp: cachedKey_def now_def prog_simps split: option.splits if_splits)

lemma refreshKey_eq:
  assumes "filled T K w" and "kid \<in> K"
  shows "\<exists>key. refreshKey kid w = (Ret (Inr key), w\<lparr>ticks := Suc (ticks w)\<rparr>)
     \<and> publicKeys (jwtValidator w) kid = Some key"
  using cachedKey_filled [OF assms] cachedKey_key by (fastforce simp: refreshKey_def prog_simps)

lemma answered_update:
  assumes "answered s0 s" and "kcallers s' = (kcallers s)(t \<mapsto> pc)"
    and "\<And>kid r. pc = GotKey kid r \<Longrightarrow> \<exists>key. r = Inr key \<and> publicKeys (jwtValidator (kworld s0)) kid = Some key"
  shows "answered s0 s'"
  using assms by (auto simp: answered_def)

lemma cache_inv_step:
  assumes "cache_inv T K s0 s" and "step_within K s s'"
  shows "cache_inv T K s0 s'"
proof -
  from assms(1) obtain n where n: "kworld s = (kworld s0)\<lparr>ticks := n\<rparr>"
    and f: "filled T K (kworld s0)" "filled T K (kworld s)" and a: "answered s0 s"
    by (auto simp: cache_inv_def)
  from assms(2) have within: "wanted s \<subseteq> K" and "key_step s s'" by (simp_all add: step_within_def)
  from this(2) show ?thesis
  proof cases
    case (ask t kid)
    with n f a answered_update [OF a, of s' t "AskFor kid"] show ?thesis by (auto simp: cache_inv_def)
  next
    case (hit t kid key w')
    with within have "kid \<in> K" by (auto simp: wanted_def)
    with cachedKey_filled [OF f(2)] hit(3) have "w' = (kworld s)\<lparr>ticks := Suc (ticks (kworld s))\<rparr>" by fastforce
    moreover have "publicKeys (jwtValidator (kworld s0)) kid = Some key"
      using cachedKey_key [OF hit(3)] n by simp
    ultimately show ?thesis
      using n f(1) hit(1) answered_update [OF a, of s' t "GotKey kid (Inr key)"] by (auto simp: cache_inv_def)
  next
    case (miss t kid w')
    with within have "kid \<in> K" by (auto simp: wanted_def)
    with cachedKey_filled [OF f(2)] miss(3) show ?thesis by fastforce
  next
    case (refresh t kid r w')
    with within have "kid \<in> K" by (auto simp: wanted_def)
    with refreshKey_eq [OF f(2)] refresh(3) n obtain key where
      "r = Inr key" "w' = (kworld s)\<lparr>ticks := Suc (ticks (kworld s))\<rparr>"
      "publicKeys (jwtValidator (kworld s0)) kid = Some key" by fastforce
    then show ?thesis
      using n f(1) refresh(1) answered_update [OF a, of s' t "GotKey kid r"] by (auto simp: cache_inv_def)
  qed
qed

interpretation cache: transition_invariant "\<lambda>s. s = s0 \<and> filled T K (kworld s0)" "step_within K" "cache_inv T K s0"
proof
  show "cache_inv T K s0 s" if "s = s0 \<and> filled T K (kworld s0)" for s
    using that by (auto simp: cache_inv_def answered_def intro: exI [of _ "ticks (kworld s0)"])
  show "cache_inv T K s0 t" if "cache_inv T K s0 s" "step_within K s t" for s t
    using that by (rule cache_inv_step)
qed

text \<open>C14: A filled cache answers everybody. Once a refresh has filled the cache with the keys that
  are asked for, no goroutine sends a request to the key server while the clock moves by less than
  the life time, however many there are and however they interleave, and also those that
  had missed the key before the refresh and were waiting for the lock: all of them get
  the cached key.\<close>

theorem no_key_stampede:
  assumes "(step_within K)\<^sup>*\<^sup>* s0 s" and "filled T K (kworld s0)"
  shows "jwks_responses (kworld s) = jwks_responses (kworld s0)
     \<and> jwtValidator (kworld s) = jwtValidator (kworld s0) \<and> answered s0 s"
  using cache.inv_reachable [of s0 s0 T K s] assms by (auto simp: cache_inv_def)


definition cache_world :: jwt_world where
  "cache_world = \<lparr>jwtValidator = (NewJWTValidator ''i'' ''a'' ''u'')\<lparr>publicKeys := [''k1'' \<mapsto> \<lparr>rsaN = 15, rsaE = 3\<rparr>],
       lastKeysFetch := 500\<rparr>,
     clock = (\<lambda>_. 1000), ticks = 0, request_ok = (\<lambda>_. True), jwks_responses = [Inl (Err ''down'')],
     decode_jwks = (\<lambda>_. Inr []), float_to_int64 = (\<lambda>_. 0)\<rparr>"

text \<open>A goroutine that missed the key waits for the lock while another one has filled the cache.\<close>

theorem no_key_stampede_witness:
  "\<exists>s. key_step \<lparr>kworld = cache_world, kcallers = [0 \<mapsto> MissedKey ''k1'']\<rparr> s
     \<and> kcallers s 0 = Some (GotKey ''k1'' (Inr \<lparr>rsaN = 15, rsaE = 3\<rparr>))
     \<and> jwks_responses (kworld s) = [Inl (Err ''down'')]"
proof -
  let ?a = "\<lparr>kworld = cache_world, kcallers = [0 \<mapsto> MissedKey ''k1'']\<rparr>"
  have f: "filled 500 {''k1''} (kworld ?a)"
    by (simp add: filled_def cache_world_def NewJWTValidator_def hour_def minute_def second_def)
  with refreshKey_eq [of 500 "{''k1''}" cache_world "''k1''"] obtain key where
    r: "refreshKey ''k1'' (kworld ?a) = (Ret (Inr key), cache_world\<lparr>ticks := Suc (ticks cache_world)\<rparr>)"
    and key: "publicKeys (jwtValidator cache_world) ''k1'' = Some key" by auto
  let ?s = "?a\<lparr>kworld := cache_world\<lparr>ticks := Suc (ticks cache_world)\<rparr>,
    kcallers := (kcallers ?a)(0 \<mapsto> GotKey ''k1'' (Inr key))\<rparr>"
  have step: "key_step ?a ?s" by (rule key_step.refresh [OF _ r]) simp
  have "wanted ?a \<subseteq> {''k1''}" by (auto simp: wanted_def split: if_splits)
  with step have "step_within {''k1''} ?a ?s" by (simp add: step_within_def)
  then have "(step_within {''k1''})\<^sup>*\<^sup>* ?a ?s" by (rule r_into_rtranclp)
  from no_key_stampede [OF this f] have "jwks_responses (kworld ?s) = jwks_responses (kworld ?a)" by blast
  with step key show ?thesis by (intro exI [of _ ?s]) (simp add: cache_world_def)
qed


end
