(* ===== verification/Roles.thy ===== *)
theory Roles
  imports GoStd
begin

text \<open>
  \<open>internal/auth/roles.go\<close>: the mapping from OAuth roles to PostgreSQL service accounts.
  The mutex makes each operation atomic; an operation is a function on the mapper.
  The parameter \<open>ul\<close> is \<open>strings.ToLower\<close> on strings that are not ASCII.
\<close>

record ServiceAccount =
  Username :: string
  Password :: string
  Role :: string

record RoleMapper =
  roleToAccount :: "string \<rightharpoonup> ServiceAccount"
  defaultRole :: string

text \<open>The body of the loop of \<open>loadFromEnvironment\<close>, with its counter \<open>loaded\<close>.\<close>

definition load_entry ::
  "(string \<Rightarrow> string) \<Rightarrow> RoleMapper \<times> nat \<Rightarrow> string \<Rightarrow> RoleMapper \<times> nat" where
  "load_entry ul st env = (case st of (rm, loaded) \<Rightarrow>
     if \<not> HasPrefix env ''ROLE_MAPPING_'' then (rm, loaded)
     else (case SplitN2 env (CHR ''='') of
       [name, value] \<Rightarrow>
         (let roleKey = TrimPrefix name ''ROLE_MAPPING_'';
              role = ToLower ul roleKey
          in case SplitN2 value (CHR '':'') of
               [user, pass] \<Rightarrow>
                 (let username = TrimSpace user; password = TrimSpace pass
                  in if username = '''' \<or> password = '''' then (rm, loaded)
                     else (rm\<lparr>roleToAccount := (roleToAccount rm)(role \<mapsto>
                             \<lparr>Username = username, Password = password, Role = role\<rparr>)\<rparr>,
                           Suc loaded))
             | _ \<Rightarrow> (rm, loaded))
     | _ \<Rightarrow> (rm, loaded)))"

definition loadFromEnvironment ::
  "(string \<Rightarrow> string) \<Rightarrow> environ \<Rightarrow> (RoleMapper, error + unit) prog" where
  "loadFromEnvironment ul envVars rm = (case foldl (load_entry ul) (rm, 0) envVars of
     (rm', loaded) \<Rightarrow>
       (if loaded = 0
        then (Ret (Inl (Err ''no valid role mappings found (set ROLE_MAPPING_<ROLE>=username:password)'')), rm')
        else (Ret (Inr ()), rm')))"

definition NewRoleMapper :: "(string \<Rightarrow> string) \<Rightarrow> environ \<Rightarrow> error + RoleMapper" where
  "NewRoleMapper ul env =
    (let mapper = \<lparr>roleToAccount = Map.empty, defaultRole = Getenv env ''DEFAULT_ROLE''\<rparr>
     in case loadFromEnvironment ul env mapper of
          (Ret (Inl e), _) \<Rightarrow> Inl e
        | (_, mapper') \<Rightarrow>
            (if dom (roleToAccount mapper') = {} then Inl (Err ''no role mappings configured'')
             else Inr mapper'))"

definition handleNoRoles :: "RoleMapper \<Rightarrow> error + ServiceAccount" where
  "handleNoRoles rm =
     (if defaultRole rm = ''''
      then Inl (Err ''user has no valid roles and no default role configured'')
      else (case roleToAccount rm (defaultRole rm) of
              None \<Rightarrow> Inl (Err ''default role '%s' not found in role mappings'')
            | Some account \<Rightarrow> Inr account))"

definition normalizeRole :: "(string \<Rightarrow> string) \<Rightarrow> string \<Rightarrow> string" where
  "normalizeRole ul role = ToLower ul (TrimSpace role)"

text \<open>The loop over the user's roles; the first match wins.\<close>

fun tryRoles :: "(string \<Rightarrow> string) \<Rightarrow> RoleMapper \<Rightarrow> string list \<Rightarrow> ServiceAccount option" where
  "tryRoles ul rm [] = None"
| "tryRoles ul rm (role # roles) =
     (case roleToAccount rm (normalizeRole ul role) of
        Some account \<Rightarrow> Some account
      | None \<Rightarrow> tryRoles ul rm roles)"

definition MapRoleToServiceAccount ::
  "(string \<Rightarrow> string) \<Rightarrow> RoleMapper \<Rightarrow> string list \<Rightarrow> error + ServiceAccount" where
  "MapRoleToServiceAccount ul rm roles =
     (if length roles = 0 then handleNoRoles rm
      else (case tryRoles ul rm roles of
              Some account \<Rightarrow> Inr account
            | None \<Rightarrow> handleNoRoles rm))"

definition AddRoleMapping ::
  "(string \<Rightarrow> string) \<Rightarrow> string \<Rightarrow> string \<Rightarrow> string \<Rightarrow> RoleMapper \<Rightarrow> RoleMapper" where
  "AddRoleMapping ul role username password rm =
     (let normalizedRole = normalizeRole ul role
      in rm\<lparr>roleToAccount := (roleToAccount rm)(normalizedRole \<mapsto>
           \<lparr>Username = username, Password = password, Role = normalizedRole\<rparr>)\<rparr>)"

text \<open>
  \<open>GetAllRoles\<close> collects the keys of a Go map, whose order is not determined: the possible
  results are the lists of all roles without repetition.
\<close>

definition GetAllRoles :: "RoleMapper \<Rightarrow> string list set" where
  "GetAllRoles rm = {rs. distinct rs \<and> set rs = dom (roleToAccount rm)}"

section \<open>Specification of the loader\<close>

text \<open>What one environment string contributes, read off its format.\<close>

definition entry_mapping :: "(string \<Rightarrow> string) \<Rightarrow> string \<Rightarrow> (string \<times> ServiceAccount) option" where
  "entry_mapping ul env =
     (if HasPrefix env ''ROLE_MAPPING_'' then
        (case SplitN2 env (CHR ''='') of
           [name, value] \<Rightarrow> (case SplitN2 value (CHR '':'') of
              [user, pass] \<Rightarrow>
                (if TrimSpace user = '''' \<or> TrimSpace pass = '''' then None
                 else (let role = ToLower ul (TrimPrefix name ''ROLE_MAPPING_'') in
                   Some (role, \<lparr>Username = TrimSpace user, Password = TrimSpace pass, Role = role\<rparr>)))
            | _ \<Rightarrow> None)
         | _ \<Rightarrow> None)
      else None)"

lemma load_entry_spec:
  "load_entry ul (rm, n) env = (case entry_mapping ul env of
     None \<Rightarrow> (rm, n)
   | Some (role, acc) \<Rightarrow> (rm\<lparr>roleToAccount := (roleToAccount rm)(role \<mapsto> acc)\<rparr>, Suc n))"
  by (auto simp: load_entry_def entry_mapping_def Let_def split: list.splits)

fun mappings :: "(string \<Rightarrow> string) \<Rightarrow> environ \<Rightarrow> (string \<times> ServiceAccount) list" where
  "mappings ul [] = []"
| "mappings ul (e # env) =
     (case entry_mapping ul e of None \<Rightarrow> mappings ul env | Some m \<Rightarrow> m # mappings ul env)"

lemma foldl_load_entry:
  "foldl (load_entry ul) (rm, n) env =
     (rm\<lparr>roleToAccount := roleToAccount rm ++ map_of (rev (mappings ul env))\<rparr>,
      n + length (mappings ul env))"
  by (induction env arbitrary: rm n) (auto simp: load_entry_spec split: option.split)

lemma loadFromEnvironment_spec:
  "loadFromEnvironment ul env rm =
     (Ret (if mappings ul env = [] then Inl (Err ''no valid role mappings found (set ROLE_MAPPING_<ROLE>=username:password)'')
           else Inr ()),
      rm\<lparr>roleToAccount := roleToAccount rm ++ map_of (rev (mappings ul env))\<rparr>)"
  by (simp add: loadFromEnvironment_def foldl_load_entry)

lemma NewRoleMapper_spec:
  "NewRoleMapper ul env =
     (if mappings ul env = []
      then Inl (Err ''no valid role mappings found (set ROLE_MAPPING_<ROLE>=username:password)'')
      else Inr \<lparr>roleToAccount = map_of (rev (mappings ul env)),
                defaultRole = Getenv env ''DEFAULT_ROLE''\<rparr>)"
  by (auto simp: NewRoleMapper_def loadFromEnvironment_spec Let_def dom_map_of_conv_image_fst)

text \<open>C23: The role table the proxy starts with is exactly what the environment lists: the
  loop over the environment strings computes the map of the well-formed ROLE_MAPPING
  entries, a later entry for the same lower-cased role replacing an earlier one, and the
  constructor fails exactly when no entry is well formed (so the second check, for an
  empty table, never fires).\<close>

theorem role_table_from_environment:
  "NewRoleMapper ul env =
     (if mappings ul env = []
      then Inl (Err ''no valid role mappings found (set ROLE_MAPPING_<ROLE>=username:password)'')
      else Inr \<lparr>roleToAccount = map_of (rev (mappings ul env)),
                defaultRole = Getenv env ''DEFAULT_ROLE''\<rparr>)"
  by (rule NewRoleMapper_spec)

section \<open>Invariant\<close>

text \<open>Every account is filed under its own role, and has a user name and a password.\<close>

definition mapper_ok :: "RoleMapper \<Rightarrow> bool" where
  "mapper_ok rm \<longleftrightarrow> (\<forall>role acc. roleToAccount rm role = Some acc \<longrightarrow>
     Role acc = role \<and> Username acc \<noteq> [] \<and> Password acc \<noteq> [])"

lemma entry_mapping_ok:
  "entry_mapping ul e = Some (role, acc) \<Longrightarrow>
     Role acc = role \<and> Username acc \<noteq> [] \<and> Password acc \<noteq> []
       \<and> HasPrefix e ''ROLE_MAPPING_'' \<and> (\<exists>k. role = ToLower ul k)"
  by (auto simp: entry_mapping_def Let_def split: if_splits list.splits)

lemma set_mappings: "m \<in> set (mappings ul env) \<longleftrightarrow> (\<exists>e\<in>set env. entry_mapping ul e = Some m)"
  by (induction env) (auto split: option.split)

lemma NewRoleMapper_entry:
  assumes "NewRoleMapper ul env = Inr rm" and "roleToAccount rm role = Some acc"
  shows "\<exists>e\<in>set env. entry_mapping ul e = Some (role, acc)"
proof -
  have "(role, acc) \<in> set (mappings ul env)"
    using assms by (auto simp: NewRoleMapper_spec split: if_splits dest!: map_of_SomeD)
  then show ?thesis by (simp add: set_mappings)
qed

lemma NewRoleMapper_ok: "NewRoleMapper ul env = Inr rm \<Longrightarrow> mapper_ok rm"
  unfolding mapper_ok_def using NewRoleMapper_entry entry_mapping_ok by blast

lemma AddRoleMapping_ok:
  "mapper_ok rm \<Longrightarrow> u \<noteq> [] \<Longrightarrow> p \<noteq> [] \<Longrightarrow> mapper_ok (AddRoleMapping ul role u p rm)"
  by (auto simp: AddRoleMapping_def mapper_ok_def Let_def split: if_splits)

lemma GetAllRoles_finite:
  assumes "finite (dom (roleToAccount rm))"
  shows "GetAllRoles rm \<noteq> {}"
  using finite_distinct_list [OF assms] by (auto simp: GetAllRoles_def)

section \<open>Lookup\<close>

definition has_account :: "(string \<Rightarrow> string) \<Rightarrow> RoleMapper \<Rightarrow> string \<Rightarrow> bool" where
  "has_account ul rm role \<longleftrightarrow> normalizeRole ul role \<in> dom (roleToAccount rm)"

lemma tryRoles_find:
  "tryRoles ul rm roles = (case find (has_account ul rm) roles of
     None \<Rightarrow> None | Some r \<Rightarrow> roleToAccount rm (normalizeRole ul r))"
  by (induction roles) (auto simp: has_account_def domIff split: option.split)

lemma MapRole_spec:
  "MapRoleToServiceAccount ul rm roles = (case find (has_account ul rm) roles of
     None \<Rightarrow> handleNoRoles rm
   | Some r \<Rightarrow> Inr (the (roleToAccount rm (normalizeRole ul r))))"
proof (cases "find (has_account ul rm) roles")
  case None
  then show ?thesis by (simp add: MapRoleToServiceAccount_def tryRoles_find)
next
  case (Some r)
  then have "has_account ul rm r" and "roles \<noteq> []" by (auto simp: find_Some_iff)
  with Some show ?thesis
    by (auto simp: MapRoleToServiceAccount_def tryRoles_find has_account_def)
qed

lemma MapRole_Inr:
  "MapRoleToServiceAccount ul rm roles = Inr acc \<Longrightarrow>
     \<exists>role. roleToAccount rm role = Some acc
       \<and> (role \<in> normalizeRole ul ` set roles \<or> role = defaultRole rm)"
  by (fastforce simp: MapRole_spec handleNoRoles_def find_Some_iff has_account_def
      split: option.splits if_splits)

text \<open>No account out of thin air. Whatever roles a token carries, an account that the
  mapper returns was configured by one environment string ROLE_MAPPING_<ROLE>=user:pass
  for that account's own role, with a non-empty user and password, and the role is one
  of the user's normalised roles or the configured default role.\<close>

theorem mapped_account_is_configured:
  assumes "NewRoleMapper ul env = Inr rm"
    and "MapRoleToServiceAccount ul rm roles = Inr acc"
  shows "(\<exists>e\<in>set env. HasPrefix e ''ROLE_MAPPING_'' \<and> entry_mapping ul e = Some (Role acc, acc))
    \<and> Username acc \<noteq> [] \<and> Password acc \<noteq> []
    \<and> (Role acc \<in> normalizeRole ul ` set roles \<or> Role acc = Getenv env ''DEFAULT_ROLE'')"
proof -
  obtain role where r: "roleToAccount rm role = Some acc"
    and w: "role \<in> normalizeRole ul ` set roles \<or> role = defaultRole rm"
    using MapRole_Inr [OF assms(2)] by blast
  obtain e where e: "e \<in> set env" "entry_mapping ul e = Some (role, acc)"
    using NewRoleMapper_entry [OF assms(1) r] by blast
  moreover have "defaultRole rm = Getenv env ''DEFAULT_ROLE''"
    using assms(1) by (auto simp: NewRoleMapper_spec split: if_splits)
  ultimately show ?thesis using entry_mapping_ok [OF e(2)] w by auto
qed

definition sample_env :: environ where
  "sample_env = [''HOME=/root'', ''ROLE_MAPPING_ADMIN=postgres:s3:cret'',
     ''ROLE_MAPPING_VIEWER=ro :x'', ''DEFAULT_ROLE=viewer'']"

definition sample_mapper :: RoleMapper where
  "sample_mapper = \<lparr>roleToAccount = [''admin'' \<mapsto> \<lparr>Username = ''postgres'', Password = ''s3:cret'', Role = ''admin''\<rparr>,
     ''viewer'' \<mapsto> \<lparr>Username = ''ro'', Password = ''x'', Role = ''viewer''\<rparr>],
     defaultRole = ''viewer''\<rparr>"

lemma sample_mappings: "mappings (\<lambda>s. s) sample_env =
    [(''admin'', \<lparr>Username = ''postgres'', Password = ''s3:cret'', Role = ''admin''\<rparr>),
     (''viewer'', \<lparr>Username = ''ro'', Password = ''x'', Role = ''viewer''\<rparr>)]"
  by code_simp

lemma sample_default: "Getenv sample_env ''DEFAULT_ROLE'' = ''viewer''"
  by code_simp

lemma sample_NewRoleMapper: "NewRoleMapper (\<lambda>s. s) sample_env = Inr sample_mapper"
  by (simp add: NewRoleMapper_spec sample_mappings sample_default sample_mapper_def fun_upd_twist)

lemma sample_MapRole: "MapRoleToServiceAccount (\<lambda>s. s) sample_mapper ['' Admin''] =
    Inr \<lparr>Username = ''postgres'', Password = ''s3:cret'', Role = ''admin''\<rparr>"
  by code_simp

theorem mapped_account_is_configured_witness:
  "\<exists>e\<in>set sample_env. HasPrefix e ''ROLE_MAPPING_'' \<and> entry_mapping (\<lambda>s. s) e =
     Some (''admin'', \<lparr>Username = ''postgres'', Password = ''s3:cret'', Role = ''admin''\<rparr>)"
  using mapped_account_is_configured [OF sample_NewRoleMapper sample_MapRole] by simp

text \<open>C30: The lookup returns the account of the first role in the token's order that has
  one, comparing roles after trimming and lower-casing; only when none has does it fall
  back to the default role.\<close>

theorem first_matching_role_wins:
  "MapRoleToServiceAccount ul rm roles =
     (case find (\<lambda>r. normalizeRole ul r \<in> dom (roleToAccount rm)) roles of
        Some r \<Rightarrow> Inr (the (roleToAccount rm (normalizeRole ul r)))
      | None \<Rightarrow> (if defaultRole rm = [] then Inl (Err ''user has no valid roles and no default role configured'')
          else case roleToAccount rm (defaultRole rm) of
                 Some acc \<Rightarrow> Inr acc
               | None \<Rightarrow> Inl (Err ''default role '%s' not found in role mappings'')))"
  by (simp add: MapRole_spec handleNoRoles_def has_account_def [abs_def] split: option.split)

section \<open>The default role is not normalised\<close>

text \<open>
  Keys of the table are lower case, the roles of a token are lower-cased before the
  lookup, but \<open>DEFAULT_ROLE\<close> is looked up as it is written.
\<close>

lemma ToLower_not_upper: "(\<And>s. \<not> has_upper (ul s)) \<Longrightarrow> \<not> has_upper (ToLower ul s)"
  by (simp add: ToLower_def ascii_lower_not_upper)

lemma NewRoleMapper_keys:
  assumes "\<And>s. \<not> has_upper (ul s)" and "NewRoleMapper ul env = Inr rm"
    and "roleToAccount rm role = Some acc"
  shows "\<not> has_upper role"
  using NewRoleMapper_entry [OF assms(2,3)] ToLower_not_upper [of ul, OF assms(1)]
  by (auto dest: entry_mapping_ok)

text \<open>DEFAULT_ROLE with an upper-case letter never works: although roles are matched
  case-insensitively everywhere else, a user without a mapped role is refused, even if
  ROLE_MAPPING_<DEFAULT_ROLE> is configured. The hypothesis on \<open>ul\<close> is that lower-casing
  by the Unicode tables leaves no ASCII capital.\<close>

theorem default_role_case_sensitive:
  assumes "\<And>s. \<not> has_upper (ul s)" and "NewRoleMapper ul env = Inr rm"
    and "has_upper (Getenv env ''DEFAULT_ROLE'')"
  shows "MapRoleToServiceAccount ul rm [] = Inl (Err ''default role '%s' not found in role mappings'')"
proof -
  have d: "defaultRole rm = Getenv env ''DEFAULT_ROLE''"
    using assms(2) by (auto simp: NewRoleMapper_spec split: if_splits)
  with NewRoleMapper_keys [of ul, OF assms(1,2)] assms(3)
  have "roleToAccount rm (defaultRole rm) = None"
    by (cases "roleToAccount rm (defaultRole rm)") auto
  moreover have "defaultRole rm \<noteq> []" using d assms(3) by (auto simp: has_upper_def)
  ultimately show ?thesis by (simp add: MapRoleToServiceAccount_def handleNoRoles_def)
qed

definition upper_env :: environ where
  "upper_env = [''ROLE_MAPPING_Admin=pg:pw'', ''DEFAULT_ROLE=Admin'']"

lemma upper_mappings: "mappings (\<lambda>_. []) upper_env =
    [(''admin'', \<lparr>Username = ''pg'', Password = ''pw'', Role = ''admin''\<rparr>)]"
  by code_simp

theorem default_role_case_sensitive_witness:
  "\<exists>rm. NewRoleMapper (\<lambda>_. []) upper_env = Inr rm
     \<and> MapRoleToServiceAccount (\<lambda>_. []) rm [] = Inl (Err ''default role '%s' not found in role mappings'')
     \<and> roleToAccount rm (normalizeRole (\<lambda>_. []) ''Admin'') \<noteq> None"
proof -
  obtain rm where rm: "NewRoleMapper (\<lambda>_. []) upper_env = Inr rm"
    by (simp add: NewRoleMapper_spec upper_mappings)
  have "has_upper (Getenv upper_env ''DEFAULT_ROLE'')" by code_simp
  with rm have "MapRoleToServiceAccount (\<lambda>_. []) rm [] =
      Inl (Err ''default role '%s' not found in role mappings'')"
    by (intro default_role_case_sensitive [of "\<lambda>_. []" upper_env]) (auto simp: has_upper_def)
  moreover have "normalizeRole (\<lambda>_. []) ''Admin'' = ''admin''" by code_simp
  then have "roleToAccount rm (normalizeRole (\<lambda>_. []) ''Admin'') \<noteq> None"
    using rm by (auto simp: NewRoleMapper_spec upper_mappings)
  ultimately show ?thesis using rm by blast
qed

end
