(* ===== verification/Digest.thy ===== *)
theory Digest
  imports GoStd
begin

text \<open>
  \<open>crypto/md5\<close> (RFC 1321) and the hexadecimal verb \<open>%x\<close>, as the MD5 authentication uses
  them. Words are little endian, a block has 16 of them.
\<close>

definition md5_K :: "u32 list" where
  "md5_K = [0xd76aa478, 0xe8c7b756, 0x242070db, 0xc1bdceee, 0xf57c0faf, 0x4787c62a, 0xa8304613, 0xfd469501,
      0x698098d8, 0x8b44f7af, 0xffff5bb1, 0x895cd7be, 0x6b901122, 0xfd987193, 0xa679438e, 0x49b40821,
      0xf61e2562, 0xc040b340, 0x265e5a51, 0xe9b6c7aa, 0xd62f105d, 0x02441453, 0xd8a1e681, 0xe7d3fbc8,
      0x21e1cde6, 0xc33707d6, 0xf4d50d87, 0x455a14ed, 0xa9e3e905, 0xfcefa3f8, 0x676f02d9, 0x8d2a4c8a,
      0xfffa3942, 0x8771f681, 0x6d9d6122, 0xfde5380c, 0xa4beea44, 0x4bdecfa9, 0xf6bb4b60, 0xbebfbc70,
      0x289b7ec6, 0xeaa127fa, 0xd4ef3085, 0x04881d05, 0xd9d4d039, 0xe6db99e5, 0x1fa27cf8, 0xc4ac5665,
      0xf4292244, 0x432aff97, 0xab9423a7, 0xfc93a039, 0x655b59c3, 0x8f0ccc92, 0xffeff47d, 0x85845dd1,
      0x6fa87e4f, 0xfe2ce6e0, 0xa3014314, 0x4e0811a1, 0xf7537e82, 0xbd3af235, 0x2ad7d2bb, 0xeb86d391]"

definition md5_shift :: "nat \<Rightarrow> nat" where
  "md5_shift i = [[7, 12, 17, 22], [5, 9, 14, 20], [4, 11, 16, 23], [6, 10, 15, 21]]
     ! (i div 16) ! (i mod 4)"

fun md5_f :: "nat \<Rightarrow> u32 \<Rightarrow> u32 \<Rightarrow> u32 \<Rightarrow> u32 \<times> nat" where
  "md5_f i b c d =
     (if i < 16 then ((b AND c) OR (NOT b AND d), i)
      else if i < 32 then ((d AND b) OR (NOT d AND c), (5 * i + 1) mod 16)
      else if i < 48 then (b XOR c XOR d, (3 * i + 5) mod 16)
      else (c XOR (b OR NOT d), (7 * i) mod 16))"

definition md5_round :: "u32 list \<Rightarrow> u32 \<times> u32 \<times> u32 \<times> u32 \<Rightarrow> nat \<Rightarrow> u32 \<times> u32 \<times> u32 \<times> u32" where
  "md5_round M s i = (case s of (a, b, c, d) \<Rightarrow>
     case md5_f i b c d of (f, g) \<Rightarrow>
       (d, b + word_rotl (md5_shift i) (a + f + md5_K ! i + M ! g), b, c))"

definition md5_block :: "u32 \<times> u32 \<times> u32 \<times> u32 \<Rightarrow> u32 list \<Rightarrow> u32 \<times> u32 \<times> u32 \<times> u32" where
  "md5_block s M = (case (s, foldl (md5_round M) s [0..<64]) of
     ((a, b, c, d), (a', b', c', d')) \<Rightarrow> (a + a', b + b', c + c', d + d'))"

fun le_words :: "u8 list \<Rightarrow> u32 list" where
  "le_words (a # b # c # d # r) =
     (ucast a OR push_bit 8 (ucast b) OR push_bit 16 (ucast c) OR push_bit 24 (ucast d)) # le_words r"
| "le_words _ = []"

definition le_bytes :: "u32 \<Rightarrow> u8 list" where
  "le_bytes w = map (\<lambda>n. byte_at n w) [0..<4]"

definition md5_pad :: "u8 list \<Rightarrow> u8 list" where
  "md5_pad msg = (let n = length msg; bits = of_nat (8 * n) :: u64 in
     msg @ [0x80] @ replicate ((119 - n mod 64) mod 64) 0
       @ map (\<lambda>k. ucast (drop_bit (8 * k) bits)) [0..<8])"

function blocks :: "u32 list \<Rightarrow> u32 list list" where
  "blocks ws = (if length ws < 16 then [] else take 16 ws # blocks (drop 16 ws))"
  by pat_completeness auto
termination by (relation "measure length") auto

declare blocks.simps [simp del]

definition md5_Sum :: "u8 list \<Rightarrow> u8 list" where
  "md5_Sum msg = (case foldl md5_block (0x67452301, 0xefcdab89, 0x98badcfe, 0x10325476)
       (blocks (le_words (md5_pad msg))) of
     (a, b, c, d) \<Rightarrow> le_bytes a @ le_bytes b @ le_bytes c @ le_bytes d)"

definition hex_digit :: "nat \<Rightarrow> char" where
  "hex_digit n = char_of (if n < 10 then n + 48 else n + 87)"

text \<open>\<open>fmt.Sprintf("%x", bytes)\<close>\<close>

definition hex :: "u8 list \<Rightarrow> string" where
  "hex bs = concat (map (\<lambda>b. [hex_digit (unat b div 16), hex_digit (unat b mod 16)]) bs)"

definition bytes :: "string \<Rightarrow> u8 list" where
  "bytes s = map of_char s"

lemma length_md5_Sum [simp]: "length (md5_Sum msg) = 16"
  by (simp add: md5_Sum_def le_bytes_def split: prod.split)

lemma length_hex [simp]: "length (hex bs) = 2 * length bs"
  by (induction bs) (auto simp: hex_def)

lemma length_md5_pad: "length (md5_pad msg) mod 64 = 0"
proof -
  define q r where "q = length msg div 64" and "r = length msg mod 64"
  then have n: "length msg = 64 * q + r" and r: "r < 64" by simp_all
  have "length (md5_pad msg) = 64 * q + r + 9 + (119 - r) mod 64"
    by (simp add: md5_pad_def Let_def n r)
  moreover have "(119 - r) mod 64 = (if r \<le> 55 then 55 - r else 119 - r)"
    using r by (auto simp: mod_if)
  ultimately have "length (md5_pad msg) = 64 * (if r \<le> 55 then q + 1 else q + 2)"
    using r by simp
  then show ?thesis by simp
qed

end
