(* ===== verification/Authenticator.thy ===== *)
theory Authenticator
  imports Wire Roles Jwt Digest
begin

text \<open>
  \<open>internal/auth/authenticator.go\<close> and \<open>internal/auth/errors.go\<close>: the proxy asks the client
  for a password, and logs in to PostgreSQL over a temporary connection, as the client's
  user with that password or, when it is a token, as the service account of the token's
  role. The SCRAM client of \<open>xdg-go/scram\<close> is a pair of parameters: \<open>scram_new\<close> (user,
  password, authorisation id) and \<open>scram_step\<close>, which advances a conversation.
\<close>

section \<open>The world of the authenticator\<close>

text \<open>
  The validator's world with the client's connection, the temporary connection to
  PostgreSQL, the addresses that were dialled and whether the \<open>n\<close>-th dial succeeds.
  \<open>temp_open\<close> says whether the temporary connection is open; \<open>startupq\<close> lists the results
  of the \<open>ReceiveStartupMessage\<close> calls.
\<close>

record auth_world = jwt_world +
  client :: client_link
  startupq :: "(error + StartupMsg) list"
  temp :: backend_link
  temp_open :: bool
  dials :: "string list"
  dial_ok :: "nat \<Rightarrow> bool"
  roleMapper :: "RoleMapper option"

definition clientSend ::
  "transport \<Rightarrow> client_out \<Rightarrow> ('a auth_world_scheme, error + unit) prog" where
  "clientSend cb m = zoom client client_update (ep_send (cb, m))"

definition clientReceive :: "('a auth_world_scheme, error + FrontendMessage) prog" where
  "clientReceive = zoom client client_update ep_recv"

definition tempSend :: "FrontendMessage \<Rightarrow> ('a auth_world_scheme, error + unit) prog" where
  "tempSend m = zoom temp temp_update (ep_send m)"

definition tempReceive :: "('a auth_world_scheme, error + BackendMessage) prog" where
  "tempReceive = zoom temp temp_update ep_recv"

definition DialTimeout :: "string \<Rightarrow> ('a auth_world_scheme, error + unit) prog" where
  "DialTimeout addr w =
     (Ret (if dial_ok w (length (dials w)) then Inr () else Inl (Err ''dial error'')),
      w\<lparr>dials := dials w @ [addr]\<rparr>)"

section \<open>Operations\<close>

definition InitializeAuth :: "(string \<Rightarrow> string) \<Rightarrow> environ \<Rightarrow> string \<Rightarrow> string \<Rightarrow> string \<Rightarrow>
    ('a auth_world_scheme, error + unit) prog" where
  "InitializeAuth ul env iss aud jwksurl =
    andThen (modify (jwtValidator_update (\<lambda>_. NewJWTValidator iss aud jwksurl))) (\<lambda>_.
    case NewRoleMapper ul env of
      Inl e \<Rightarrow> andThen (modify (roleMapper_update (\<lambda>_. None))) (\<lambda>_.
        ret (Inl (Wrap ''failed to initialize role mapping: %w'' e)))
    | Inr rm \<Rightarrow> andThen (modify (roleMapper_update (\<lambda>_. Some rm))) (\<lambda>_. ret (Inr ())))"

definition sendErrorToClient ::
  "transport \<Rightarrow> string \<Rightarrow> ('a auth_world_scheme, error) prog" where
  "sendErrorToClient cb msg =
     ifErr (clientSend cb (Msg (proxyError msg)))
       (\<lambda>e. ret (Wrap ''failed to send error to client: %w'' e))
       (\<lambda>_. ret (Err msg))"

definition requestPasswordFromClient ::
  "transport \<Rightarrow> ('a auth_world_scheme, error + string) prog" where
  "requestPasswordFromClient cb =
    ifErr (clientSend cb (Msg AuthenticationCleartextPassword))
      (\<lambda>e. ret (Inl (Wrap ''failed to request password: %w'' e))) (\<lambda>_.
    ifErr clientReceive
      (\<lambda>e. ret (Inl (Wrap ''failed to receive password: %w'' e)))
      (\<lambda>msg. case msg of
         PasswordMessage password \<Rightarrow> ret (Inr password)
       | _ \<Rightarrow> ret (Inl (Err ''expected PasswordMessage, got %T''))))"

text \<open>The MD5 response: \<open>"md5" + hex(md5(hex(md5(password + user)) + salt))\<close>.\<close>

definition md5_response :: "string \<Rightarrow> string \<Rightarrow> u8 list \<Rightarrow> string" where
  "md5_response password username salt =
    (let h1 = md5_Sum (bytes password @ bytes username);
         h2 = md5_Sum (bytes (hex h1) @ salt)
     in ''md5'' @ hex h2)"

text \<open>
  The variables of the loop of \<open>authenticateWithBackend\<close>: the SCRAM conversation and the
  key data the backend has sent (\<open>*backendKeyData\<close>), each nil at the start.
\<close>

type_synonym 'c auth_vars = "'c option \<times> (u32 \<times> u32) option"

type_synonym ('w, 'c) auth_round =
  "('w, 'c auth_vars + (error + (u32 \<times> u32) option)) prog"

abbreviation goOn :: "'s \<Rightarrow> ('w, 's + 'r) prog" where
  "goOn s \<equiv> ret (Inl s)"

abbreviation fails :: "error \<Rightarrow> ('w, 's + (error + 'r)) prog" where
  "fails e \<equiv> ret (Inr (Inl e))"

text \<open>The \<open>switch\<close> on the message from PostgreSQL.\<close>

definition authMessage ::
  "(string \<Rightarrow> string \<Rightarrow> string \<Rightarrow> error + 'c) \<Rightarrow> ('c \<Rightarrow> string \<Rightarrow> (error + string) \<times> 'c) \<Rightarrow>
   transport \<Rightarrow> string \<Rightarrow> string \<Rightarrow> 'c auth_vars \<Rightarrow> BackendMessage \<Rightarrow>
   ('a auth_world_scheme, 'c) auth_round" where
  "authMessage scram_new scram_step cb username password vars msg =
    (case vars of (conversation, keyData) \<Rightarrow> case msg of
      ErrorResponse severity code message \<Rightarrow>
        andThen (clientSend cb (Msg (ErrorResponse severity code message)))
          (\<lambda>_. fails (Err ''backend auth error: %s''))
    | AuthenticationOk \<Rightarrow>
        ifErr (clientSend cb (Msg AuthenticationOk))
          (\<lambda>e. fails (Wrap ''failed to send AuthenticationOk to client: %w'' e))
          (\<lambda>_. goOn vars)
    | ReadyForQuery _ \<Rightarrow> ret (Inr (Inr keyData))
    | ParameterStatus name value \<Rightarrow>
        ifErr (clientSend cb (Msg (ParameterStatus name value)))
          (\<lambda>e. fails (Wrap ''failed to forward ParameterStatus: %w'' e))
          (\<lambda>_. goOn vars)
    | BackendKeyData pid key \<Rightarrow> goOn (conversation, Some (pid, key))
    | AuthenticationCleartextPassword \<Rightarrow>
        ifErr (tempSend (PasswordMessage password))
          (\<lambda>e. fails (Wrap ''failed to send cleartext password: %w'' e))
          (\<lambda>_. goOn vars)
    | AuthenticationMD5Password salt \<Rightarrow>
        ifErr (tempSend (PasswordMessage (md5_response password username salt)))
          (\<lambda>e. fails (Wrap ''failed to send MD5 password: %w'' e))
          (\<lambda>_. goOn vars)
    | AuthenticationSASL mechanisms \<Rightarrow>
        if ''SCRAM-SHA-256'' \<notin> set mechanisms
        then fails (Err ''SCRAM-SHA-256 not supported by backend, available: %v'')
        else (case scram_new username password '''' of
          Inl e \<Rightarrow> fails (Wrap ''failed to create SCRAM client: %w'' e)
        | Inr conv \<Rightarrow> (case scram_step conv '''' of
            (Inl e, _) \<Rightarrow> fails (Wrap ''SCRAM initial step failed: %w'' e)
          | (Inr initialResponse, conv') \<Rightarrow>
              ifErr (tempSend (SASLInitialResponse ''SCRAM-SHA-256'' initialResponse))
                (\<lambda>e. fails (Wrap ''failed to send SASL initial response: %w'' e))
                (\<lambda>_. goOn (Some conv', keyData))))
    | AuthenticationSASLContinue data \<Rightarrow> (case conversation of
          None \<Rightarrow> fails (Err ''received SASL continue without conversation'')
        | Some conv \<Rightarrow> (case scram_step conv data of
            (Inl e, _) \<Rightarrow> fails (Wrap ''SCRAM continue step failed: %w'' e)
          | (Inr response, conv') \<Rightarrow>
              ifErr (tempSend (SASLResponse response))
                (\<lambda>e. fails (Wrap ''failed to send SASL response: %w'' e))
                (\<lambda>_. goOn (Some conv', keyData))))
    | AuthenticationSASLFinal data \<Rightarrow> (case conversation of
          None \<Rightarrow> fails (Err ''received SASL final without conversation'')
        | Some conv \<Rightarrow> (case scram_step conv data of
            (Inl e, _) \<Rightarrow> fails (Wrap ''SCRAM final step failed: %w'' e)
          | (Inr _, conv') \<Rightarrow> goOn (Some conv', keyData)))
    | _ \<Rightarrow> goOn vars)"

definition authRound ::
  "(string \<Rightarrow> string \<Rightarrow> string \<Rightarrow> error + 'c) \<Rightarrow> ('c \<Rightarrow> string \<Rightarrow> (error + string) \<times> 'c) \<Rightarrow>
   transport \<Rightarrow> string \<Rightarrow> string \<Rightarrow> 'c auth_vars \<Rightarrow> ('a auth_world_scheme, 'c) auth_round" where
  "authRound scram_new scram_step cb username password vars =
    ifErr tempReceive
      (\<lambda>e. fails (Wrap ''failed to receive from backend: %w'' e))
      (authMessage scram_new scram_step cb username password vars)"

definition tempPending :: "'a auth_world_scheme \<Rightarrow> nat" where
  "tempPending w = length (inq (temp w))"

definition authenticateWithBackend ::
  "(string \<Rightarrow> string \<Rightarrow> string \<Rightarrow> error + 'c) \<Rightarrow> ('c \<Rightarrow> string \<Rightarrow> (error + string) \<times> 'c) \<Rightarrow>
   transport \<Rightarrow> string \<Rightarrow> string \<Rightarrow> ('a auth_world_scheme, error + (u32 \<times> u32) option) prog" where
  "authenticateWithBackend scram_new scram_step cb username password =
     forLoop tempPending (authRound scram_new scram_step cb username password) (None, None)"

definition looksLikeJWT :: "string \<Rightarrow> bool" where
  "looksLikeJWT password \<longleftrightarrow> HasPrefix password ''eyJ'' \<and> CountByte password (CHR ''.'') = 2"

text \<open>
  The choice of the PostgreSQL login: the mapped service account for a token, the
  client's own user and password otherwise. The left result is the text of the error
  that is sent to the client.
\<close>

definition chooseLogin :: "(string \<Rightarrow> string) \<Rightarrow> 'a auth_world_scheme jwt_parser \<Rightarrow> string \<Rightarrow> string \<Rightarrow>
    ('a auth_world_scheme, string + string \<times> string) prog" where
  "chooseLogin ul jwt_Parse user password =
    (if looksLikeJWT password then
       ifErr (ValidateJWT jwt_Parse password)
         (\<lambda>_. ret (Inl ''Invalid authentication token''))
         (\<lambda>oauth. andThen (gets roleMapper) (\<lambda>mapper. case mapper of
            None \<Rightarrow> panic
          | Some rm \<Rightarrow> (case MapRoleToServiceAccount ul rm (Roles oauth) of
              Inl _ \<Rightarrow> ret (Inl ''Access denied: no valid roles'')
            | Inr svcAcc \<Rightarrow> ret (Inr (Username svcAcc, Password svcAcc)))))
     else ret (Inr (user, password)))"

text \<open>
  \<open>AuthenticateUser\<close> after the dial. The last line of the function dereferences
  \<open>backendKeyData\<close>, which is still nil if PostgreSQL sent no key data.
\<close>

definition authenticateOnTemp :: "(string \<Rightarrow> string) \<Rightarrow> 'a auth_world_scheme jwt_parser \<Rightarrow>
    (string \<Rightarrow> string \<Rightarrow> string \<Rightarrow> error + 'c) \<Rightarrow> ('c \<Rightarrow> string \<Rightarrow> (error + string) \<times> 'c) \<Rightarrow>
    string \<Rightarrow> parameters \<Rightarrow> transport \<Rightarrow> ('a auth_world_scheme, error + u32 \<times> u32) prog" where
  "authenticateOnTemp ul jwt_Parse scram_new scram_step user params cb =
    (let reject = (\<lambda>msg. andThen (sendErrorToClient cb msg) (\<lambda>e. ret (Inl e))) in
    ifErr (requestPasswordFromClient cb) (\<lambda>_. reject ''Authentication failed'') (\<lambda>password.
    andThen (chooseLogin ul jwt_Parse user password) (\<lambda>login. case login of
      Inl msg \<Rightarrow> reject msg
    | Inr (actualUsername, actualPassword) \<Rightarrow>
        ifErr (tempSend (SendStartup (params(''user'' \<mapsto> actualUsername))))
          (\<lambda>_. reject ''Authentication failed'') (\<lambda>_.
        ifErr (authenticateWithBackend scram_new scram_step cb actualUsername actualPassword)
          (\<lambda>e. ret (Inl e))
          (\<lambda>backendKeyData. case backendKeyData of
             None \<Rightarrow> panic
           | Some keyData \<Rightarrow> ret (Inr keyData))))))"

definition AuthenticateUser :: "(string \<Rightarrow> string) \<Rightarrow> 'a auth_world_scheme jwt_parser \<Rightarrow>
    (string \<Rightarrow> string \<Rightarrow> string \<Rightarrow> error + 'c) \<Rightarrow> ('c \<Rightarrow> string \<Rightarrow> (error + string) \<times> 'c) \<Rightarrow>
    string \<Rightarrow> string \<Rightarrow> parameters \<Rightarrow> transport \<Rightarrow> ('a auth_world_scheme, error + u32 \<times> u32) prog" where
  "AuthenticateUser ul jwt_Parse scram_new scram_step user host params cb =
    ifErr (DialTimeout (JoinHostPort host ''5432''))
      (\<lambda>_. andThen (sendErrorToClient cb ''Backend Unavailable'') (\<lambda>e. ret (Inl e)))
      (\<lambda>_. andThen (modify (temp_open_update (\<lambda>_. True))) (\<lambda>_.
        deferring (modify (temp_open_update (\<lambda>_. False)))
          (authenticateOnTemp ul jwt_Parse scram_new scram_step user params cb)))"

section \<open>Interfaces\<close>

interpretation client: endpoint_at client client_update
  by unfold_locales simp

interpretation temp: endpoint_at temp temp_update
  by unfold_locales simp

lemmas auth_io = clientSend_def clientReceive_def tempSend_def tempReceive_def

lemma clientSend_result:
  "clientSend cb m w = (q, w') \<Longrightarrow> temp w' = temp w \<and> inq (client w') = inq (client w)
     \<and> (q = Ret (Inr ()) \<and> outq (client w') = outq (client w) @ [(cb, m)]
        \<or> (\<exists>e. q = Ret (Inl e)) \<and> outq (client w') = outq (client w))"
  using client.send_cases [of "(cb, m)" w q w'] by (auto simp: auth_io zoom_def split: prod.splits)

lemma tempSend_result:
  "tempSend m w = (q, w') \<Longrightarrow> client w' = client w \<and> inq (temp w') = inq (temp w)
     \<and> (q = Ret (Inr ()) \<and> outq (temp w') = outq (temp w) @ [m]
        \<or> (\<exists>e. q = Ret (Inl e)) \<and> outq (temp w') = outq (temp w))"
  using temp.send_cases [of m w q w'] by (auto simp: auth_io zoom_def split: prod.splits)

lemma tempReceive_result:
  "tempReceive w = (Ret r, w') \<Longrightarrow> client w' = client w \<and> inq (temp w) = r # inq (temp w')
     \<and> outq (temp w') = outq (temp w)"
  using temp.recv_head [of w r w'] by (auto simp: auth_io zoom_def split: prod.splits)

text \<open>The rounds of the login loop consume the backend's messages one by one.\<close>

lemma authMessage_pending:
  "authMessage sn ss cb u p vars msg w = (r, w') \<Longrightarrow> inq (temp w') = inq (temp w)"
  by (cases msg)
    (auto simp: authMessage_def auth_io ep_send_def prog_simps
      split: prod.splits sum.splits option.splits if_splits)

lemma authRound_progress:
  assumes "authRound sn ss cb u p vars w = (Ret (Inl vars'), w')"
  shows "tempPending w' < tempPending w"
proof -
  obtain r w1 where t: "tempReceive w = (Ret r, w1)"
    using assms by (auto simp: authRound_def prog_simps split: prod.splits outcome.splits)
  then have "tempPending w1 < tempPending w"
    using temp.recv_fewer [of w r w1] by (simp add: tempReceive_def tempPending_def)
  moreover from assms t obtain msg where "authMessage sn ss cb u p vars msg w1 = (Ret (Inl vars'), w')"
    by (cases r) (auto simp: authRound_def prog_simps)
  then have "tempPending w' = tempPending w1"
    by (auto dest: authMessage_pending simp: tempPending_def)
  ultimately show ?thesis by simp
qed

interpretation login: progress_loop tempPending "authRound sn ss cb u p"
  by unfold_locales (rule authRound_progress)

section \<open>What the client is told\<close>

text \<open>The messages of PostgreSQL that the proxy passes on during a login that succeeds.\<close>

fun forwarded :: "BackendMessage \<Rightarrow> bool" where
  "forwarded AuthenticationOk = True"
| "forwarded (ParameterStatus _ _) = True"
| "forwarded _ = False"

text \<open>The key data that counts: the last the backend has sent.\<close>

fun key_data :: "(u32 \<times> u32) option \<Rightarrow> BackendMessage \<Rightarrow> (u32 \<times> u32) option" where
  "key_data _ (BackendKeyData pid key) = Some (pid, key)"
| "key_data k _ = k"

fun ends_login :: "BackendMessage \<Rightarrow> bool" where
  "ends_login (ErrorResponse _ _ _) = True"
| "ends_login (ReadyForQuery _) = True"
| "ends_login _ = False"

lemma authMessage_goOn:
  assumes "authMessage sn ss cb u p (conv, k) msg w = (Ret (Inl (conv', k')), w')"
  shows "\<not> ends_login msg \<and> k' = key_data k msg
    \<and> outq (client w') = outq (client w) @ (if forwarded msg then [(cb, Msg msg)] else [])"
  using assms
  by (cases msg)
    (auto simp: authMessage_def auth_io ep_send_def prog_simps
      split: prod.splits sum.splits option.splits if_splits)

lemma authMessage_done:
  assumes "authMessage sn ss cb u p (conv, k) msg w = (Ret (Inr (Inr k')), w')"
  shows "(\<exists>c. msg = ReadyForQuery c) \<and> k' = k \<and> client w' = client w"
  using assms
  by (cases msg)
    (auto simp: authMessage_def auth_io ep_send_def prog_simps
      split: prod.splits sum.splits option.splits if_splits)

text \<open>The invariant of the loop: \<open>ms\<close> is what has been received since the world \<open>w0\<close>.\<close>

definition login_inv ::
  "transport \<Rightarrow> 'a auth_world_scheme \<Rightarrow> 'c auth_vars \<Rightarrow> 'a auth_world_scheme \<Rightarrow> bool" where
  "login_inv cb w0 vars w \<longleftrightarrow> (\<exists>ms.
     inq (temp w0) = map Inr ms @ inq (temp w)
   \<and> outq (client w) = outq (client w0) @ map (\<lambda>m. (cb, Msg m)) (filter forwarded ms)
   \<and> snd vars = foldl key_data None ms
   \<and> (\<forall>m\<in>set ms. \<not> ends_login m))"

lemma authRound_cases:
  assumes "authRound sn ss cb u p vars w = (Ret x, w')"
  obtains e w1 where "tempReceive w = (Ret (Inl e), w1)" "x = Inr (Inl (Wrap ''failed to receive from backend: %w'' e))" "w' = w1"
  | msg w1 where "tempReceive w = (Ret (Inr msg), w1)" "authMessage sn ss cb u p vars msg w1 = (Ret x, w')"
  using assms by (auto simp: authRound_def prog_simps split: prod.splits outcome.splits sum.splits)

lemma login_inv_step:
  assumes "login_inv cb w0 vars w" and "authRound sn ss cb u p vars w = (Ret (Inl vars'), w')"
  shows "login_inv cb w0 vars' w'"
  using assms(2)
proof (cases rule: authRound_cases)
  case (2 msg w1)
  obtain conv k conv' k' where v: "vars = (conv, k)" "vars' = (conv', k')" by fastforce
  obtain ms where ms: "inq (temp w0) = map Inr ms @ inq (temp w)"
    "outq (client w) = outq (client w0) @ map (\<lambda>m. (cb, Msg m)) (filter forwarded ms)"
    "k = foldl key_data None ms" "\<forall>m\<in>set ms. \<not> ends_login m"
    using assms(1) by (auto simp: login_inv_def v)
  note r = tempReceive_result [OF 2(1)]
    and g = authMessage_goOn [OF 2(2) [unfolded v]] authMessage_pending [OF 2(2)]
  show ?thesis
    unfolding login_inv_def using ms r g by (intro exI [of _ "ms @ [msg]"]) (auto simp: v)
qed simp

definition login_result ::
  "transport \<Rightarrow> 'a auth_world_scheme \<Rightarrow> (u32 \<times> u32) option \<Rightarrow> 'a auth_world_scheme \<Rightarrow> bool" where
  "login_result cb w0 k w \<longleftrightarrow> (\<exists>ms c.
     inq (temp w0) = map Inr (ms @ [ReadyForQuery c]) @ inq (temp w)
   \<and> outq (client w) = outq (client w0) @ map (\<lambda>m. (cb, Msg m)) (filter forwarded ms)
   \<and> k = foldl key_data None ms \<and> (\<forall>m\<in>set ms. \<not> ends_login m))"

lemma login_inv_leave:
  assumes "login_inv cb w0 vars w" and "authRound sn ss cb u p vars w = (Ret (Inr (Inr k)), w')"
  shows "login_result cb w0 k w'"
  using assms(2)
proof (cases rule: authRound_cases)
  case (2 msg w1)
  obtain conv k0 where v: "vars = (conv, k0)" by fastforce
  obtain ms where ms: "inq (temp w0) = map Inr ms @ inq (temp w)"
    "outq (client w) = outq (client w0) @ map (\<lambda>m. (cb, Msg m)) (filter forwarded ms)"
    "k0 = foldl key_data None ms" "\<forall>m\<in>set ms. \<not> ends_login m"
    using assms(1) by (auto simp: login_inv_def v)
  from authMessage_done [OF 2(2) [unfolded v]] obtain c
    where d: "msg = ReadyForQuery c" "k = k0" "client w' = client w1" by auto
  show ?thesis
    unfolding login_result_def
    using ms d tempReceive_result [OF 2(1)] authMessage_pending [OF 2(2)]
    by (intro exI [of _ ms] exI [of _ c]) auto
qed simp

lemma authenticateWithBackend_result:
  assumes "authenticateWithBackend sn ss cb u p w = (Ret (Inr k), w')"
  shows "login_result cb w k w'"
proof -
  have i: "login_inv cb w (None, None) w" by (simp add: login_inv_def)
  have "\<forall>k'. Ret (Inr k) = Ret (Inr k' :: error + (u32 \<times> u32) option) \<longrightarrow> login_result cb w k' w'"
    by (rule login.invariant [where I = "login_inv cb w"
          and Q = "\<lambda>out w'. \<forall>k. out = Ret (Inr k) \<longrightarrow> login_result cb w k w'",
          OF assms [unfolded authenticateWithBackend_def] i])
      (auto intro: login_inv_step login_inv_leave)
  then show ?thesis by simp
qed

section \<open>What is written to whom\<close>

text \<open>
  \<open>auth_le F T\<close>: what was written is still there, only elements of \<open>F\<close> were added to the
  client's connection and only elements of \<open>T\<close> to the temporary one, and the role table
  and what the authenticator does not know of are the same.
\<close>

definition auth_le :: "(transport \<times> client_out) set \<Rightarrow> FrontendMessage set \<Rightarrow>
    'a auth_world_scheme \<Rightarrow> 'a auth_world_scheme \<Rightarrow> bool" where
  "auth_le F T w w' \<longleftrightarrow>
     (\<exists>ms. outq (client w') = outq (client w) @ ms \<and> set ms \<subseteq> F)
   \<and> (\<exists>ms. outq (temp w') = outq (temp w) @ ms \<and> set ms \<subseteq> T)
   \<and> roleMapper w' = roleMapper w \<and> startupq w' = startupq w
   \<and> auth_world.more w' = auth_world.more w"

interpretation authf: frame "auth_le F T :: 'a auth_world_scheme \<Rightarrow> 'a auth_world_scheme \<Rightarrow> bool"
  by unfold_locales (auto simp: auth_le_def)

lemma auth_leI:
  "outq (client w') = outq (client w) @ ms \<Longrightarrow> set ms \<subseteq> F \<Longrightarrow>
   outq (temp w') = outq (temp w) @ ts \<Longrightarrow> set ts \<subseteq> T \<Longrightarrow> roleMapper w' = roleMapper w \<Longrightarrow>
   startupq w' = startupq w \<Longrightarrow> auth_world.more w' = auth_world.more w \<Longrightarrow> auth_le F T w w'"
  by (auto simp: auth_le_def)

lemma auth_le_jwt: "jwt_le w w' \<Longrightarrow> auth_le F T w w'"
  by (cases w; cases w') (auto simp: jwt_le_def auth_le_def)

lemma related_auth_jwt: "related jwt_le m \<Longrightarrow> related (auth_le F T) m"
  by (auto simp: related_def auth_le_jwt)

lemma clientSend_le: "(cb, m) \<in> F \<Longrightarrow> related (auth_le F T) (clientSend cb m)"
  by (auto simp: related_def auth_le_def auth_io ep_send_def prog_simps)

lemma tempSend_le: "m \<in> T \<Longrightarrow> related (auth_le F T) (tempSend m)"
  by (auto simp: related_def auth_le_def auth_io ep_send_def prog_simps)

lemma receive_le: "related (auth_le F T) clientReceive" "related (auth_le F T) tempReceive"
  by (auto simp: related_def auth_le_def auth_io ep_recv_def prog_simps split: list.split prod.split)

lemma DialTimeout_le: "related (auth_le F T) (DialTimeout addr)"
  by (auto simp: related_def auth_le_def DialTimeout_def)

lemma set_temp_open_le: "related (auth_le F T) (modify (temp_open_update f))"
  by (auto simp: related_def auth_le_def modify_def)

lemmas auth_le_rules = authf.related_rules authf.related_forLoop clientSend_le tempSend_le
  receive_le DialTimeout_le set_temp_open_le

text \<open>The messages a client may get while it logs in.\<close>

fun login_answer :: "BackendMessage \<Rightarrow> bool" where
  "login_answer AuthenticationCleartextPassword = True"
| "login_answer AuthenticationOk = True"
| "login_answer (ParameterStatus _ _) = True"
| "login_answer (ErrorResponse _ _ _) = True"
| "login_answer _ = False"

definition login_answers :: "transport \<Rightarrow> (transport \<times> client_out) set" where
  "login_answers cb = {(cb, Msg m) | m. login_answer m}"

text \<open>The shapes of the messages that a login sends to PostgreSQL.\<close>

definition login_writes :: "string \<Rightarrow> string \<Rightarrow> parameters \<Rightarrow> FrontendMessage set" where
  "login_writes u p params =
     {SendStartup (params(''user'' \<mapsto> u)), PasswordMessage p}
     \<union> {PasswordMessage (md5_response p u salt) | salt. True}
     \<union> {SASLInitialResponse ''SCRAM-SHA-256'' d | d. True} \<union> {SASLResponse d | d. True}"

lemma authMessage_le:
  assumes "login_answers cb \<subseteq> F" and "login_writes u p params \<subseteq> T"
  shows "related (auth_le F T) (authMessage sn ss cb u p vars msg)"
proof -
  have F: "login_answer m \<Longrightarrow> (cb, Msg m) \<in> F" for m
    using assms(1) by (auto simp: login_answers_def)
  have T: "PasswordMessage p \<in> T" "PasswordMessage (md5_response p u salt) \<in> T"
    "SASLInitialResponse ''SCRAM-SHA-256'' d \<in> T" "SASLResponse d \<in> T" for salt d
    using assms(2) by (auto simp: login_writes_def)
  show ?thesis
    by (cases msg)
      (auto simp: authMessage_def intro!: auth_le_rules F T
        split: prod.split sum.split option.split)
qed

lemma authenticateWithBackend_le:
  assumes "login_answers cb \<subseteq> F" and "login_writes u p params \<subseteq> T"
  shows "related (auth_le F T) (authenticateWithBackend sn ss cb u p)"
  unfolding authenticateWithBackend_def authRound_def
  by (auto intro!: auth_le_rules authMessage_le [OF assms])

lemma sendErrorToClient_le:
  "login_answers cb \<subseteq> F \<Longrightarrow> related (auth_le F T) (sendErrorToClient cb msg)"
  unfolding sendErrorToClient_def
  by (auto intro!: auth_le_rules simp: login_answers_def proxyError_def)

lemma requestPasswordFromClient_le:
  "login_answers cb \<subseteq> F \<Longrightarrow> related (auth_le F T) (requestPasswordFromClient cb)"
  unfolding requestPasswordFromClient_def
  by (auto intro!: auth_le_rules simp: login_answers_def split: FrontendMessage.split)

lemma chooseLogin_le:
  assumes "parse_contract jwt_Parse sig_ok"
  shows "related (auth_le F T) (chooseLogin ul jwt_Parse user password)"
  unfolding chooseLogin_def
  by (auto intro!: auth_le_rules related_auth_jwt [OF ValidateJWT_le [OF assms]]
      split: option.split sum.split)

lemma authenticateOnTemp_le:
  assumes "parse_contract jwt_Parse sig_ok" and "login_answers cb \<subseteq> F"
    and "\<And>u p. login_writes u p params \<subseteq> T"
  shows "related (auth_le F T) (authenticateOnTemp ul jwt_Parse sn ss user params cb)"
proof -
  have "SendStartup (params(''user'' \<mapsto> u)) \<in> T" for u
    using assms(3) [of u] by (auto simp: login_writes_def)
  then show ?thesis
    unfolding authenticateOnTemp_def Let_def
    by (auto intro!: auth_le_rules sendErrorToClient_le requestPasswordFromClient_le
        chooseLogin_le [OF assms(1)] authenticateWithBackend_le [where params = params] assms
        split: sum.split prod.split option.split)
qed

lemma AuthenticateUser_le:
  assumes "parse_contract jwt_Parse sig_ok" and "login_answers cb \<subseteq> F"
    and "\<And>u p. login_writes u p params \<subseteq> T"
  shows "related (auth_le F T) (AuthenticateUser ul jwt_Parse sn ss user host params cb)"
  unfolding AuthenticateUser_def
  by (auto intro!: auth_le_rules sendErrorToClient_le authenticateOnTemp_le assms)

text \<open>C26: While a client logs in, whatever it, PostgreSQL and the key server do and however the
  attempt ends, the proxy only ever sends it password requests, AuthenticationOk,
  parameter status and error messages, all on the connection the login was started on:
  the temporary connection's key data and its ReadyForQuery never reach the client.\<close>

theorem login_client_view:
  assumes "parse_contract jwt_Parse sig_ok"
  shows "\<exists>ms. outq (client (snd (AuthenticateUser ul jwt_Parse sn ss user host params cb w)))
      = outq (client w) @ map (\<lambda>m. (cb, Msg m)) ms \<and> list_all login_answer ms"
proof -
  let ?w' = "snd (AuthenticateUser ul jwt_Parse sn ss user host params cb w)"
  have "auth_le (login_answers cb) UNIV w ?w'"
    by (rule related_snd [OF AuthenticateUser_le [OF assms]]) auto
  then obtain ns where ns: "outq (client ?w') = outq (client w) @ ns" "set ns \<subseteq> login_answers cb"
    by (auto simp: auth_le_def)
  from ns(2) have "\<exists>ms. ns = map (\<lambda>m. (cb, Msg m)) ms \<and> list_all login_answer ms"
    unfolding login_answers_def by (rule list_of_images)
  with ns(1) show ?thesis by auto
qed

section \<open>A login that succeeds\<close>

lemma requestPassword_result:
  "requestPasswordFromClient cb w = (q, w') \<Longrightarrow> temp w' = temp w \<and> roleMapper w' = roleMapper w
     \<and> (\<forall>pw. q = Ret (Inr pw) \<longrightarrow>
          outq (client w') = outq (client w) @ [(cb, Msg AuthenticationCleartextPassword)]
        \<and> inq (client w) = Inr (PasswordMessage pw) # inq (client w'))"
  by (auto simp: requestPasswordFromClient_def auth_io ep_send_def ep_recv_def prog_simps
      split: if_splits list.splits prod.splits sum.splits FrontendMessage.splits)

text \<open>How a successful login comes about: four calls, each with the result it needs.\<close>

lemma AuthenticateUser_success:
  assumes "AuthenticateUser ul jwt_Parse sn ss user host params cb w = (Ret (Inr keyData), w')"
  obtains w0 pw w1 u p w2 w3 w4 where
    "w0 = w\<lparr>dials := dials w @ [JoinHostPort host ''5432''], temp_open := True\<rparr>"
    "requestPasswordFromClient cb w0 = (Ret (Inr pw), w1)"
    "chooseLogin ul jwt_Parse user pw w1 = (Ret (Inr (u, p)), w2)"
    "tempSend (SendStartup (params(''user'' \<mapsto> u))) w2 = (Ret (Inr ()), w3)"
    "authenticateWithBackend sn ss cb u p w3 = (Ret (Inr (Some keyData)), w4)"
    "w' = w4\<lparr>temp_open := False\<rparr>"
  using assms
  by (auto simp: AuthenticateUser_def DialTimeout_def authenticateOnTemp_def sendErrorToClient_def
      prog_simps Let_def split: prod.splits outcome.splits sum.splits option.splits if_splits)

lemma chooseLogin_client:
  assumes "parse_contract jwt_Parse sig_ok" and "chooseLogin ul jwt_Parse user pw w = (r, w')"
  shows "client w' = client w \<and> temp w' = temp w \<and> roleMapper w' = roleMapper w"
proof -
  have "jwt_le w w'"
    using assms(2) ValidateJWT_le [OF assms(1), of pw]
    by (auto simp: chooseLogin_def prog_simps related_def jwtf.R_refl
        split: if_splits prod.splits outcome.splits sum.splits option.splits)
      (metis snd_conv)+
  then show ?thesis by (cases w; cases w') (auto simp: jwt_le_def)
qed

text \<open>C15: A login succeeds only on PostgreSQL's word. When \<open>AuthenticateUser\<close> returns key data,
  PostgreSQL has sent messages without an error up to a ReadyForQuery, the key data is the
  last it sent among them, and the client has been sent exactly one password request and
  then PostgreSQL's AuthenticationOk and parameter messages, in order and nothing else.\<close>

theorem login_success_trace:
  assumes "parse_contract jwt_Parse sig_ok"
    and "AuthenticateUser ul jwt_Parse sn ss user host params cb w = (Ret (Inr keyData), w')"
  shows "\<exists>ms c. inq (temp w) = map Inr (ms @ [ReadyForQuery c]) @ inq (temp w')
    \<and> outq (client w') = outq (client w)
        @ map (\<lambda>m. (cb, Msg m)) (AuthenticationCleartextPassword # filter forwarded ms)
    \<and> foldl key_data None ms = Some keyData \<and> list_all (\<lambda>m. \<not> ends_login m) ms"
  using assms(2)
proof (cases rule: AuthenticateUser_success)
  case (1 w0 pw w1 u p w2 w3 w4)
  note r = requestPassword_result [OF 1(2)] and c = chooseLogin_client [OF assms(1) 1(3)]
    and t = tempSend_result [OF 1(4)] and b = authenticateWithBackend_result [OF 1(5)]
  have w0: "client w0 = client w" "temp w0 = temp w" using 1(1) by simp_all
  from b obtain ms c where "inq (temp w3) = map Inr (ms @ [ReadyForQuery c]) @ inq (temp w4)"
    "outq (client w4) = outq (client w3) @ map (\<lambda>m. (cb, Msg m)) (filter forwarded ms)"
    "Some keyData = foldl key_data None ms" "\<forall>m\<in>set ms. \<not> ends_login m"
    by (auto simp: login_result_def)
  with r c t w0 1(6) show ?thesis
    by (intro exI [of _ ms] exI [of _ c]) (auto simp: list_all_iff)
qed

definition sample_auth_world :: auth_world where
  "sample_auth_world = jwt_world.extend sample_jwt_world
     (auth_world.fields
       (endpoint_of [Inr (PasswordMessage ''secret'')]) []
       (endpoint_of [Inr (AuthenticationMD5Password [1, 2, 3, 4]), Inr AuthenticationOk,
          Inr (ParameterStatus ''server_version'' ''16''), Inr (BackendKeyData 77 99),
          Inr (ReadyForQuery (CHR ''I''))])
       False [] (\<lambda>_. True) (Some sample_mapper))"

lemmas auth_defs = AuthenticateUser_def DialTimeout_def authenticateOnTemp_def
  requestPasswordFromClient_def chooseLogin_def authenticateWithBackend_def authRound_def
  authMessage_def sendErrorToClient_def auth_io ep_send_def ep_recv_def tempPending_def

lemma sample_login:
  "\<exists>w'. AuthenticateUser (\<lambda>s. s) (sample_parse sample_token) (\<lambda>_ _ _. Inr ()) (\<lambda>c _. (Inr '''', c))
      ''bob'' ''db'' Map.empty PlainTCP sample_auth_world = (Ret (Inr (77, 99)), w')"
  by (simp add: auth_defs forLoop.simps prog_simps sample_auth_world_def jwt_world.defs
      auth_world.defs endpoint_of_def looksLikeJWT_def HasPrefix_def sample_jwt_world_def)

theorem login_success_trace_witness:
  "\<exists>ms. foldl key_data None ms = Some (77, 99) \<and> list_all (\<lambda>m. \<not> ends_login m) ms"
proof -
  obtain w' where "AuthenticateUser (\<lambda>s. s) (sample_parse sample_token) (\<lambda>_ _ _. Inr ()) (\<lambda>c _. (Inr '''', c))
      ''bob'' ''db'' Map.empty PlainTCP sample_auth_world = (Ret (Inr (77, 99)), w')"
    using sample_login by blast
  from login_success_trace [OF sample_parse_contract this] show ?thesis by blast
qed

theorem login_client_view_witness:
  "\<exists>ms. outq (client (snd (AuthenticateUser (\<lambda>s. s) (sample_parse sample_token) (\<lambda>_ _ _. Inr ())
       (\<lambda>c _. (Inr '''', c)) ''bob'' ''db'' Map.empty PlainTCP sample_auth_world)))
      = map (\<lambda>m. (PlainTCP, Msg m)) ms \<and> list_all login_answer ms"
proof -
  have "outq (client sample_auth_world) = []"
    by (simp add: sample_auth_world_def jwt_world.defs auth_world.defs endpoint_of_def)
  with login_client_view [OF sample_parse_contract, of "\<lambda>s. s" sample_token "\<lambda>_ _ _. Inr ()"
      "\<lambda>c _. (Inr '''', c)" "''bob''" "''db''" Map.empty PlainTCP sample_auth_world]
  show ?thesis by simp
qed

section \<open>The login as a function\<close>

text \<open>
  What the proxy answers to one message of PostgreSQL, and the loop's variables afterwards;
  none when the login ends or fails.
\<close>

definition login_reply ::
  "(string \<Rightarrow> string \<Rightarrow> string \<Rightarrow> error + 'c) \<Rightarrow> ('c \<Rightarrow> string \<Rightarrow> (error + string) \<times> 'c) \<Rightarrow>
   string \<Rightarrow> string \<Rightarrow> 'c auth_vars \<Rightarrow> BackendMessage \<Rightarrow> (FrontendMessage list \<times> 'c auth_vars) option" where
  "login_reply sn ss u p vars msg = (case vars of (conv, k) \<Rightarrow> case msg of
      ErrorResponse _ _ _ \<Rightarrow> None
    | ReadyForQuery _ \<Rightarrow> None
    | BackendKeyData pid key \<Rightarrow> Some ([], conv, Some (pid, key))
    | AuthenticationCleartextPassword \<Rightarrow> Some ([PasswordMessage p], vars)
    | AuthenticationMD5Password salt \<Rightarrow> Some ([PasswordMessage (md5_response p u salt)], vars)
    | AuthenticationSASL mechanisms \<Rightarrow>
        if ''SCRAM-SHA-256'' \<notin> set mechanisms then None
        else (case sn u p '''' of
          Inl e \<Rightarrow> None
        | Inr c \<Rightarrow> (case ss c '''' of
            (Inl e, _) \<Rightarrow> None
          | (Inr d, c') \<Rightarrow> Some ([SASLInitialResponse ''SCRAM-SHA-256'' d], Some c', k)))
    | AuthenticationSASLContinue data \<Rightarrow> (case conv of
          None \<Rightarrow> None
        | Some c \<Rightarrow> (case ss c data of
            (Inl e, _) \<Rightarrow> None
          | (Inr d, c') \<Rightarrow> Some ([SASLResponse d], Some c', k)))
    | AuthenticationSASLFinal data \<Rightarrow> (case conv of
          None \<Rightarrow> None
        | Some c \<Rightarrow> (case ss c data of
            (Inl e, _) \<Rightarrow> None
          | (Inr _, c') \<Rightarrow> Some ([], Some c', k)))
    | _ \<Rightarrow> Some ([], vars))"

fun login_script ::
  "(string \<Rightarrow> string \<Rightarrow> string \<Rightarrow> error + 'c) \<Rightarrow> ('c \<Rightarrow> string \<Rightarrow> (error + string) \<times> 'c) \<Rightarrow>
   string \<Rightarrow> string \<Rightarrow> 'c auth_vars \<Rightarrow> BackendMessage list \<Rightarrow> (FrontendMessage list \<times> 'c auth_vars) option" where
  "login_script sn ss u p vars [] = Some ([], vars)"
| "login_script sn ss u p vars (m # ms) = (case login_reply sn ss u p vars m of
     None \<Rightarrow> None
   | Some (out, vars') \<Rightarrow> (case login_script sn ss u p vars' ms of
       None \<Rightarrow> None
     | Some (outs, vars'') \<Rightarrow> Some (out @ outs, vars'')))"

text \<open>The answers to any messages, up to one that ends the login.\<close>

fun login_sent ::
  "(string \<Rightarrow> string \<Rightarrow> string \<Rightarrow> error + 'c) \<Rightarrow> ('c \<Rightarrow> string \<Rightarrow> (error + string) \<times> 'c) \<Rightarrow>
   string \<Rightarrow> string \<Rightarrow> 'c auth_vars \<Rightarrow> BackendMessage list \<Rightarrow> FrontendMessage list" where
  "login_sent sn ss u p vars [] = []"
| "login_sent sn ss u p vars (m # ms) = (case login_reply sn ss u p vars m of
     None \<Rightarrow> []
   | Some (out, vars') \<Rightarrow> out @ login_sent sn ss u p vars' ms)"

lemma login_sent_after:
  "login_script sn ss u p vars ms = Some (outs, vars') \<Longrightarrow>
     login_sent sn ss u p vars (ms @ ms') = outs @ login_sent sn ss u p vars' ms'"
  by (induction ms arbitrary: vars outs) (auto split: option.splits prod.splits)

lemma login_script_snoc:
  "login_script sn ss u p vars ms = Some (outs, vars') \<Longrightarrow> login_reply sn ss u p vars' m = Some (out, vars'') \<Longrightarrow>
     login_script sn ss u p vars (ms @ [m]) = Some (outs @ out, vars'')"
  by (induction ms arbitrary: vars outs) (auto split: option.splits prod.splits)

section \<open>What PostgreSQL is told\<close>

lemma requestPassword_frame:
  "requestPasswordFromClient cb w = (q, w') \<Longrightarrow> temp w' = temp w \<and> roleMapper w' = roleMapper w
     \<and> jwtValidator w' = jwtValidator w
     \<and> clock w' = clock w \<and> ticks w' = ticks w \<and> float_to_int64 w' = float_to_int64 w
     \<and> (\<forall>pw. q = Ret (Inr pw) \<longrightarrow> inq (client w) = Inr (PasswordMessage pw) # inq (client w'))"
  by (auto simp: requestPasswordFromClient_def auth_io ep_send_def ep_recv_def prog_simps
      split: if_splits list.splits prod.splits sum.splits FrontendMessage.splits)

lemma sendErrorToClient_temp: "sendErrorToClient cb msg w = (q, w') \<Longrightarrow> temp w' = temp w"
  by (auto simp: sendErrorToClient_def auth_io ep_send_def prog_simps split: if_splits)

text \<open>
  What a login as \<open>u\<close> with the password \<open>p\<close> may write, when PostgreSQL sends \<open>ms\<close>: the start-up
  message and the answers to \<open>ms\<close>, or nothing when the start-up message cannot be written.
\<close>

definition login_trace ::
  "(string \<Rightarrow> string \<Rightarrow> string \<Rightarrow> error + 'c) \<Rightarrow> ('c \<Rightarrow> string \<Rightarrow> (error + string) \<times> 'c) \<Rightarrow>
   string \<Rightarrow> string \<Rightarrow> parameters \<Rightarrow> BackendMessage list \<Rightarrow> FrontendMessage list \<Rightarrow> bool" where
  "login_trace sn ss u p params ms new \<longleftrightarrow>
     new = [] \<or> new = SendStartup (params(''user'' \<mapsto> u)) # login_sent sn ss u p (None, None) ms"

text \<open>The messages that a login as \<open>u\<close> with the password \<open>p\<close> can send, whatever PostgreSQL sends.\<close>

definition login_messages ::
  "(string \<Rightarrow> string \<Rightarrow> string \<Rightarrow> error + 'c) \<Rightarrow> ('c \<Rightarrow> string \<Rightarrow> (error + string) \<times> 'c) \<Rightarrow>
   string \<Rightarrow> string \<Rightarrow> parameters \<Rightarrow> FrontendMessage set" where
  "login_messages sn ss u p params = insert (SendStartup (params(''user'' \<mapsto> u)))
     (\<Union>ms. set (login_sent sn ss u p (None, None) ms))"

lemma login_trace_messages:
  "login_trace sn ss u p params ms new \<Longrightarrow> set new \<subseteq> login_messages sn ss u p params"
  by (auto simp: login_trace_def login_messages_def)

text \<open>One message of PostgreSQL: nothing is written, or its answer.\<close>

lemma authMessage_writes:
  assumes "authMessage sn ss cb u p vars m w = (r, w')"
  obtains (silent) "outq (temp w') = outq (temp w)" "\<nexists>vars'. r = Ret (Inl vars')"
  | (answered) out vars' where "login_reply sn ss u p vars m = Some (out, vars')"
      "outq (temp w') = outq (temp w) @ out" "\<forall>vars''. r = Ret (Inl vars'') \<longrightarrow> vars'' = vars'"
proof -
  have "outq (temp w') = outq (temp w) \<and> (\<nexists>vars'. r = Ret (Inl vars'))
    \<or> (\<exists>out vars'. login_reply sn ss u p vars m = Some (out, vars') \<and> outq (temp w') = outq (temp w) @ out
        \<and> (\<forall>vars''. r = Ret (Inl vars'') \<longrightarrow> vars'' = vars'))"
    using assms
    by (cases m; cases vars)
      (auto simp: authMessage_def login_reply_def auth_io ep_send_def prog_simps
        split: prod.splits sum.splits option.splits if_splits)
  then show ?thesis using silent answered by blast
qed

lemma authRound_writes:
  assumes "authRound sn ss cb u p vars w = (r, w')"
  obtains (silent) "outq (temp w') = outq (temp w)" "\<nexists>vars'. r = Ret (Inl vars')"
  | (answered) m out vars' where "inq (temp w) = Inr m # inq (temp w')"
      "login_reply sn ss u p vars m = Some (out, vars')"
      "outq (temp w') = outq (temp w) @ out" "\<forall>vars''. r = Ret (Inl vars'') \<longrightarrow> vars'' = vars'"
proof (cases "fst (tempReceive w)")
  case (Ret x)
  then obtain w1 where t: "tempReceive w = (Ret x, w1)" by (metis prod.collapse)
  note t' = tempReceive_result [OF t]
  show ?thesis
  proof (cases x)
    case (Inl e)
    with t assms have "w' = w1" "r = Ret (Inr (Inl (Wrap ''failed to receive from backend: %w'' e)))"
      by (simp_all add: authRound_def prog_simps)
    with t' show ?thesis by (intro silent) simp_all
  next
    case (Inr m)
    with t assms have m: "authMessage sn ss cb u p vars m w1 = (r, w')" by (simp add: authRound_def prog_simps)
    have p: "inq (temp w') = inq (temp w1)" by (rule authMessage_pending [OF m])
    from m show ?thesis
      by (cases rule: authMessage_writes) (use t' p Inr silent answered in auto)
  qed
qed (use assms silent in \<open>auto simp: authRound_def auth_io ep_recv_def prog_simps split: prod.splits list.splits\<close>)

definition login_so_far ::
  "(string \<Rightarrow> string \<Rightarrow> string \<Rightarrow> error + 'c) \<Rightarrow> ('c \<Rightarrow> string \<Rightarrow> (error + string) \<times> 'c) \<Rightarrow>
   string \<Rightarrow> string \<Rightarrow> 'a auth_world_scheme \<Rightarrow> 'c auth_vars \<Rightarrow> 'a auth_world_scheme \<Rightarrow> bool" where
  "login_so_far sn ss u p w0 vars w \<longleftrightarrow> (\<exists>ms outs. inq (temp w0) = map Inr ms @ inq (temp w)
     \<and> login_script sn ss u p (None, None) ms = Some (outs, vars) \<and> outq (temp w) = outq (temp w0) @ outs)"

definition login_wrote ::
  "(string \<Rightarrow> string \<Rightarrow> string \<Rightarrow> error + 'c) \<Rightarrow> ('c \<Rightarrow> string \<Rightarrow> (error + string) \<times> 'c) \<Rightarrow>
   string \<Rightarrow> string \<Rightarrow> 'a auth_world_scheme \<Rightarrow> 'a auth_world_scheme \<Rightarrow> bool" where
  "login_wrote sn ss u p w0 w \<longleftrightarrow> (\<exists>ms rest. inq (temp w0) = map Inr ms @ rest
     \<and> outq (temp w) = outq (temp w0) @ login_sent sn ss u p (None, None) ms)"

lemma login_so_far_round:
  assumes "login_so_far sn ss u p w0 vars w" and "authRound sn ss cb u p vars w = (r, w')"
  shows "login_wrote sn ss u p w0 w' \<and> (\<forall>vars'. r = Ret (Inl vars') \<longrightarrow> login_so_far sn ss u p w0 vars' w')"
proof -
  obtain ms outs where i: "inq (temp w0) = map Inr ms @ inq (temp w)"
    "login_script sn ss u p (None, None) ms = Some (outs, vars)" "outq (temp w) = outq (temp w0) @ outs"
    using assms(1) by (auto simp: login_so_far_def)
  note sent = login_sent_after [OF i(2)]
  from assms(2) show ?thesis
  proof (cases rule: authRound_writes)
    case silent
    have "login_wrote sn ss u p w0 w'"
      unfolding login_wrote_def using i silent sent [of "[]"]
      by (intro exI [of _ ms] exI [of _ "inq (temp w)"]) simp
    with silent show ?thesis by blast
  next
    case (answered m out vars1)
    have "login_wrote sn ss u p w0 w'"
      unfolding login_wrote_def using i answered sent [of "[m]"]
      by (intro exI [of _ "ms @ [m]"] exI [of _ "inq (temp w')"]) simp
    moreover have "login_so_far sn ss u p w0 vars1 w'"
      unfolding login_so_far_def using i answered login_script_snoc [OF i(2) answered(2)]
      by (intro exI [of _ "ms @ [m]"] exI [of _ "outs @ out"]) simp
    ultimately show ?thesis using answered(4) by blast
  qed
qed

lemma authenticateWithBackend_wrote:
  assumes "authenticateWithBackend sn ss cb u p w = (out, w')"
  shows "login_wrote sn ss u p w w'"
proof (rule login.invariant [where Q = "\<lambda>_. login_wrote sn ss u p w" and I = "login_so_far sn ss u p w",
      OF assms [unfolded authenticateWithBackend_def]])
  show "login_so_far sn ss u p w (None, None) w"
    unfolding login_so_far_def by (intro exI [of _ "[]"]) simp
qed (blast dest: login_so_far_round)+

lemma login_phase_sends:
  assumes "ifErr (tempSend (SendStartup (params(''user'' \<mapsto> u))))
      (\<lambda>_. andThen (sendErrorToClient cb msg) (\<lambda>e. ret (Inl e)))
      (\<lambda>_. ifErr (authenticateWithBackend sn ss cb u p) (\<lambda>e. ret (Inl e))
         (\<lambda>k. case k of None \<Rightarrow> panic | Some keyData \<Rightarrow> ret (Inr keyData))) w = (out, w')"
  shows "\<exists>ms rest new. inq (temp w) = map Inr ms @ rest \<and> outq (temp w') = outq (temp w) @ new
    \<and> login_trace sn ss u p params ms new"
proof -
  obtain q w1 where s: "tempSend (SendStartup (params(''user'' \<mapsto> u))) w = (q, w1)" by fastforce
  note s' = tempSend_result [OF s]
  then consider (sent) "q = Ret (Inr ())" "outq (temp w1) = outq (temp w) @ [SendStartup (params(''user'' \<mapsto> u))]"
    | (failed) e where "q = Ret (Inl e)" "outq (temp w1) = outq (temp w)" by blast
  then show ?thesis
  proof cases
    case sent
    obtain r w2 where b: "authenticateWithBackend sn ss cb u p w1 = (r, w2)" by fastforce
    with assms s sent have "w' = w2"
      by (cases r) (auto simp: prog_simps split: sum.splits option.splits)
    with authenticateWithBackend_wrote [OF b] obtain ms rest where
      m: "inq (temp w1) = map Inr ms @ rest"
        "outq (temp w') = outq (temp w1) @ login_sent sn ss u p (None, None) ms"
      by (auto simp: login_wrote_def)
    let ?new = "SendStartup (params(''user'' \<mapsto> u)) # login_sent sn ss u p (None, None) ms"
    have "login_trace sn ss u p params ms ?new" by (simp add: login_trace_def)
    with m s' sent show ?thesis by (intro exI [of _ ms] exI [of _ rest] exI [of _ ?new]) simp
  next
    case (failed e)
    with assms s have "temp w' = temp w1"
      by (auto simp: prog_simps dest: sendErrorToClient_temp split: prod.splits outcome.splits)
    moreover have "login_trace sn ss u p params [] []" by (simp add: login_trace_def)
    ultimately show ?thesis using failed
      by (intro exI [of _ "[]"] exI [of _ "inq (temp w)"]) simp
  qed
qed

text \<open>The temporary connection is written to only after a login was chosen, and for it.\<close>

lemma authenticateOnTemp_sends:
  assumes contract: "parse_contract jwt_Parse sig_ok"
    and run: "authenticateOnTemp ul jwt_Parse sn ss user params cb w = (out, w')"
  shows "outq (temp w') = outq (temp w) \<or>
    (\<exists>pw w1 u p w2 ms rest new. requestPasswordFromClient cb w = (Ret (Inr pw), w1)
      \<and> chooseLogin ul jwt_Parse user pw w1 = (Ret (Inr (u, p)), w2)
      \<and> inq (temp w) = map Inr ms @ rest \<and> outq (temp w') = outq (temp w) @ new
      \<and> login_trace sn ss u p params ms new)"
proof -
  obtain q w1 where rp: "requestPasswordFromClient cb w = (q, w1)" by fastforce
  note t1 = requestPassword_frame [OF rp]
  consider (no) "\<nexists>pw. q = Ret (Inr pw)" | (pw) pw where "q = Ret (Inr pw)" by blast
  then show ?thesis
  proof cases
    case no
    with rp run t1 show ?thesis
      by (auto simp: authenticateOnTemp_def prog_simps Let_def dest: sendErrorToClient_temp
          split: outcome.splits sum.splits prod.splits)
  next
    case (pw pw)
    obtain l w2 where cl: "chooseLogin ul jwt_Parse user pw w1 = (l, w2)" by fastforce
    have t2: "temp w2 = temp w" using chooseLogin_client [OF contract cl] t1 by simp
    show ?thesis
    proof (cases "\<exists>u p. l = Ret (Inr (u, p))")
      case True
      then obtain u p where l: "l = Ret (Inr (u, p))" by blast
      have "\<exists>ms rest new. inq (temp w2) = map Inr ms @ rest \<and> outq (temp w') = outq (temp w2) @ new
          \<and> login_trace sn ss u p params ms new"
        by (rule login_phase_sends [where msg = "''Authentication failed''" and out = out])
          (use run rp pw cl l in \<open>simp add: authenticateOnTemp_def prog_simps Let_def\<close>)
      with rp pw cl l t2 show ?thesis by fastforce
    next
      case False
      with rp run pw cl t2 show ?thesis
        by (auto simp: authenticateOnTemp_def prog_simps Let_def dest: sendErrorToClient_temp
            split: outcome.splits sum.splits prod.splits)
    qed
  qed
qed

lemma AuthenticateUser_sends:
  assumes contract: "parse_contract jwt_Parse sig_ok"
    and run: "AuthenticateUser ul jwt_Parse sn ss user host params cb w = (out, w')"
  shows "outq (temp w') = outq (temp w) \<or>
    (\<exists>w0 pw w1 u p w2 ms rest new. w0 = w\<lparr>dials := dials w @ [JoinHostPort host ''5432''], temp_open := True\<rparr>
      \<and> requestPasswordFromClient cb w0 = (Ret (Inr pw), w1)
      \<and> chooseLogin ul jwt_Parse user pw w1 = (Ret (Inr (u, p)), w2)
      \<and> inq (temp w) = map Inr ms @ rest \<and> outq (temp w') = outq (temp w) @ new
      \<and> login_trace sn ss u p params ms new)"
proof (cases "dial_ok w (length (dials w))")
  case False
  with run show ?thesis
    by (auto simp: AuthenticateUser_def DialTimeout_def prog_simps dest: sendErrorToClient_temp
        split: prod.splits outcome.splits)
next
  case True
  let ?w0 = "w\<lparr>dials := dials w @ [JoinHostPort host ''5432''], temp_open := True\<rparr>"
  obtain q w1 where a: "authenticateOnTemp ul jwt_Parse sn ss user params cb ?w0 = (q, w1)" by fastforce
  with True run have "temp w' = temp w1"
    by (auto simp: AuthenticateUser_def DialTimeout_def prog_simps split: outcome.splits)
  with authenticateOnTemp_sends [OF contract a] show ?thesis by auto
qed

lemma chooseLogin_token:
  assumes "chooseLogin ul jwt_Parse user pw w = (Ret (Inr (u, p)), w')" and "looksLikeJWT pw"
  shows "\<exists>ctx rm acc. ValidateJWT jwt_Parse pw w = (Ret (Inr ctx), w') \<and> roleMapper w' = Some rm
     \<and> MapRoleToServiceAccount ul rm (Roles ctx) = Inr acc \<and> u = Username acc \<and> p = Password acc"
  using assms
  by (auto simp: chooseLogin_def prog_simps split: prod.splits outcome.splits sum.splits option.splits)

text \<open>C4: A client's token stays in the proxy, and opens nothing but a mapped account. When the
  client's password looks like a JWT, PostgreSQL either receives nothing on the temporary
  connection, or the token was validated, its roles were mapped to a service account, and
  everything PostgreSQL receives is a login as that account with its own password: the
  start-up message with the account's name in place of the client's, then the answers
  (\<open>login_reply\<close>: cleartext, MD5, SCRAM) to the messages PostgreSQL sent, in their order, which are
  computed from the account's name and password and these messages alone; or, when the
  start-up message cannot be written, nothing.\<close>

theorem token_login_uses_mapped_account:
  assumes "parse_contract jwt_Parse sig_ok"
    and "AuthenticateUser ul jwt_Parse sn ss user host params cb w = (out, w')"
    and "inq (client w) = Inr (PasswordMessage tok) # rest" and "looksLikeJWT tok"
  shows "\<exists>new. outq (temp w') = outq (temp w) @ new \<and>
    (new = [] \<or> (\<exists>ms rest' rm ctx acc w1 w2. inq (temp w) = map Inr ms @ rest' \<and> roleMapper w = Some rm \<and> jwtValidator w1 = jwtValidator w
      \<and> ValidateJWT jwt_Parse tok w1 = (Ret (Inr ctx), w2)
      \<and> MapRoleToServiceAccount ul rm (Roles ctx) = Inr acc
      \<and> login_trace sn ss (Username acc) (Password acc) params ms new))"
  using AuthenticateUser_sends [OF assms(1,2)]
proof (elim disjE exE conjE)
  fix w0 pw w1 u p w2 ms rest' new
  assume w0: "w0 = w\<lparr>dials := dials w @ [JoinHostPort host ''5432''], temp_open := True\<rparr>"
    and rp: "requestPasswordFromClient cb w0 = (Ret (Inr pw), w1)"
    and cl: "chooseLogin ul jwt_Parse user pw w1 = (Ret (Inr (u, p)), w2)"
    and new: "inq (temp w) = map Inr ms @ rest'" "outq (temp w') = outq (temp w) @ new"
      "login_trace sn ss u p params ms new"
  note f = requestPassword_frame [OF rp]
  from f w0 assms(3) have pw: "pw = tok" by simp
  from chooseLogin_token [OF cl] pw assms(4) obtain ctx rm acc
    where "ValidateJWT jwt_Parse tok w1 = (Ret (Inr ctx), w2)" "roleMapper w2 = Some rm"
      "MapRoleToServiceAccount ul rm (Roles ctx) = Inr acc" "u = Username acc" "p = Password acc"
    by blast
  moreover have "roleMapper w2 = roleMapper w"
    using chooseLogin_client [OF assms(1) cl] f w0 by simp
  moreover have "jwtValidator w1 = jwtValidator w" using f w0 by simp
  ultimately show ?thesis using new by metis
qed simp

definition sample_token_text :: string where
  "sample_token_text = ''eyJh.eyJp.c2ln''"

definition token_auth_world :: auth_world where
  "token_auth_world = sample_auth_world\<lparr>client := endpoint_of [Inr (PasswordMessage sample_token_text)],
     temp := endpoint_of [Inr AuthenticationCleartextPassword]\<rparr>"

lemma sample_roles: "MapRoleToServiceAccount (\<lambda>s. s) sample_mapper [''Admin'', ''viewer''] =
    Inr \<lparr>Username = ''postgres'', Password = ''s3:cret'', Role = ''admin''\<rparr>"
  by code_simp

lemma sample_token_login:
  "outq (temp (snd (AuthenticateUser (\<lambda>s. s) (sample_parse sample_token) (\<lambda>_ _ _. Inr ())
      (\<lambda>c _. (Inr '''', c)) ''a@b.c'' ''db'' [''user'' \<mapsto> ''a@b.c''] PlainTCP token_auth_world))) =
     [SendStartup [''user'' \<mapsto> ''postgres''], PasswordMessage ''s3:cret'']"
  by (simp add: auth_defs forLoop.simps prog_simps token_auth_world_def sample_auth_world_def
      jwt_world.defs auth_world.defs endpoint_of_def sample_token_text_def looksLikeJWT_def
      HasPrefix_def CountByte_def ValidateJWT_def sample_parse_def sample_token_def keyfunc_def
      getPublicKey_def cachedKey_def now_def sample_jwt_world_def NewJWTValidator_def
      checkClaims_def sample_claims_def validateAudience_def claim_nonempty_def claim_string_def
      extractRoles_def map_filter_simps claim_time_def int64_of_def time_Unix_def wrap64_def
      time_Sub_def hour_def minute_def second_def sample_roles)

theorem token_login_uses_mapped_account_witness:
  "\<exists>rm (acc :: ServiceAccount) ms. roleMapper token_auth_world = Some rm
     \<and> login_trace (\<lambda>_ _ _. Inr ()) (\<lambda>c _. (Inr '''', c)) (Username acc) (Password acc) [''user'' \<mapsto> ''a@b.c''] ms
       [SendStartup [''user'' \<mapsto> ''postgres''], PasswordMessage ''s3:cret'']"
proof -
  define out w' where "out = fst (AuthenticateUser (\<lambda>s. s) (sample_parse sample_token) (\<lambda>_ _ _. Inr ())
      (\<lambda>c _. (Inr '''', c)) ''a@b.c'' ''db'' [''user'' \<mapsto> ''a@b.c''] PlainTCP token_auth_world)"
    and "w' = snd (AuthenticateUser (\<lambda>s. s) (sample_parse sample_token) (\<lambda>_ _ _. Inr ())
      (\<lambda>c _. (Inr '''', c)) ''a@b.c'' ''db'' [''user'' \<mapsto> ''a@b.c''] PlainTCP token_auth_world)"
  then have run: "AuthenticateUser (\<lambda>s. s) (sample_parse sample_token) (\<lambda>_ _ _. Inr ())
      (\<lambda>c _. (Inr '''', c)) ''a@b.c'' ''db'' [''user'' \<mapsto> ''a@b.c''] PlainTCP token_auth_world = (out, w')"
    by simp
  have i: "inq (client token_auth_world) = Inr (PasswordMessage sample_token_text) # []"
    and o: "outq (temp token_auth_world) = []"
    by (simp_all add: token_auth_world_def endpoint_of_def)
  have j: "looksLikeJWT sample_token_text"
    by (simp add: looksLikeJWT_def sample_token_text_def HasPrefix_def CountByte_def)
  have s: "outq (temp w') = [SendStartup [''user'' \<mapsto> ''postgres''], PasswordMessage ''s3:cret'']"
    unfolding w'_def by (rule sample_token_login)
  from token_login_uses_mapped_account [OF sample_parse_contract run i j] o s
  show ?thesis by auto
qed

section \<open>The temporary connection is closed\<close>

text \<open>No temporary connection is left open: however a login attempt ends (success, error or
  panic), unless it hangs in a read for ever or the process exits, the temporary
  connection to PostgreSQL is closed afterwards.\<close>

theorem temp_connection_closed:
  assumes "\<not> temp_open w"
    and "AuthenticateUser ul jwt_Parse sn ss user host params cb w = (out, w')"
    and "out \<noteq> Blocked" and "out \<noteq> Exit"
  shows "\<not> temp_open w'"
proof -
  have e: "temp_open w2 = temp_open w1" if "sendErrorToClient cb msg w1 = (q, w2)" for msg w1 q w2
    using that by (auto simp: sendErrorToClient_def auth_io ep_send_def prog_simps split: if_splits)
  show ?thesis
    using assms by (auto simp: AuthenticateUser_def DialTimeout_def prog_simps
        split: prod.splits outcome.splits if_splits dest: e)
qed

theorem temp_connection_closed_witness:
  "\<exists>out w'. AuthenticateUser (\<lambda>s. s) (sample_parse sample_token) (\<lambda>_ _ _. Inr ()) (\<lambda>c _. (Inr '''', c))
      ''bob'' ''db'' Map.empty PlainTCP sample_auth_world = (out, w') \<and> \<not> temp_open w'"
proof -
  obtain w' where w: "AuthenticateUser (\<lambda>s. s) (sample_parse sample_token) (\<lambda>_ _ _. Inr ()) (\<lambda>c _. (Inr '''', c))
      ''bob'' ''db'' Map.empty PlainTCP sample_auth_world = (Ret (Inr (77, 99)), w')"
    using sample_login by blast
  have "\<not> temp_open sample_auth_world"
    by (simp add: sample_auth_world_def jwt_world.defs auth_world.defs)
  from temp_connection_closed [OF this w] w show ?thesis by auto
qed

section \<open>A nil dereference\<close>

text \<open>The last line of \<open>AuthenticateUser\<close> dereferences the key data without a check: when
  PostgreSQL (or a pooler in front of it) lets the client in without sending key data,
  the goroutine panics, which ends the whole proxy, for any user with any password that
  does not look like a token.\<close>

theorem missing_key_data_panics:
  assumes "\<not> looksLikeJWT pw" and "dial_ok w (length (dials w))"
    and "inq (client w) = [Inr (PasswordMessage pw)]" and "\<And>n. wok (client w) n" and "\<And>n. wok (temp w) n"
    and "inq (temp w) = [Inr AuthenticationOk, Inr (ReadyForQuery c)]"
  shows "fst (AuthenticateUser ul jwt_Parse sn ss user host params cb w) = Panic"
  using assms by (simp add: auth_defs forLoop.simps prog_simps)

theorem missing_key_data_panics_witness:
  "fst (AuthenticateUser (\<lambda>s. s) (sample_parse sample_token) (\<lambda>_ _ _. Inr ()) (\<lambda>c _. (Inr '''', c))
      ''bob'' ''db'' Map.empty PlainTCP (sample_auth_world\<lparr>temp :=
        endpoint_of [Inr AuthenticationOk, Inr (ReadyForQuery (CHR ''I''))]\<rparr>)) = Panic"
  by (rule missing_key_data_panics [where pw = "''secret''"])
    (simp_all add: looksLikeJWT_def HasPrefix_def sample_auth_world_def jwt_world.defs
      auth_world.defs endpoint_of_def)

end
