(* ===== verification/Session.thy ===== *)
theory Session
  imports Authenticator Server
begin

text \<open>
  One client connection from its first byte to its teardown:
  \<open>internal/proxy/connection.go\<close>, \<open>startup.go\<close>, \<open>message.go\<close> and \<open>errors.go\<close>.
\<close>

section \<open>The world of a connection\<close>

text \<open>
  The authenticator's world with the server and its registry (\<open>srv\<close>), the connection pools
  (\<open>poolw\<close>), the socket of this connection's pool connection (\<open>backend\<close>), and: the results
  of TLS handshakes and of \<open>Exec\<close> calls on the pool connection, the statements executed,
  the packets that cancel requests have written, whether such a write succeeds, whether
  the cancel connection and the client's connection are open.
\<close>

record proxy_world = auth_world +
  srv :: server_world
  poolw :: pool_world
  backend :: backend_link
  handshakeq :: "(error + unit) list"
  execq :: "(error + unit) list"
  execs :: "string list"
  cancel_writes :: "u8 list list"
  cancel_write_ok :: bool
  cancel_open :: bool
  client_open :: bool

definition getPC :: "nat \<Rightarrow> ('a proxy_world_scheme, Connection) prog" where
  "getPC pc = gets (\<lambda>w. heap (srv w) pc)"

definition setPC :: "nat \<Rightarrow> (Connection \<Rightarrow> Connection) \<Rightarrow> ('a proxy_world_scheme, unit) prog" where
  "setPC pc f = modify (srv_update (heap_update (\<lambda>h. h(pc := f (h pc)))))"

definition on_server :: "(server_world, 'r) prog \<Rightarrow> ('a proxy_world_scheme, 'r) prog" where
  "on_server = zoom srv srv_update"

definition on_pools :: "(pool_world, 'r) prog \<Rightarrow> ('a proxy_world_scheme, 'r) prog" where
  "on_pools = zoom poolw poolw_update"

definition bfSend :: "nat \<Rightarrow> FrontendMessage \<Rightarrow> ('a proxy_world_scheme, error + unit) prog" where
  "bfSend pc m = andThen (getPC pc) (\<lambda>c. case pc_bf c of
     None \<Rightarrow> panic
   | Some _ \<Rightarrow> zoom backend backend_update (ep_send m))"

definition bfReceive :: "nat \<Rightarrow> ('a proxy_world_scheme, error + BackendMessage) prog" where
  "bfReceive pc = andThen (getPC pc) (\<lambda>c. case pc_bf c of
     None \<Rightarrow> panic
   | Some _ \<Rightarrow> zoom backend backend_update ep_recv)"

definition ReceiveStartupMessage :: "('a proxy_world_scheme, error + StartupMsg) prog" where
  "ReceiveStartupMessage w = (case startupq w of
     [] \<Rightarrow> (Blocked, w)
   | r # rs \<Rightarrow> (Ret r, w\<lparr>startupq := rs\<rparr>))"

definition Handshake :: "('a proxy_world_scheme, error + unit) prog" where
  "Handshake w = (case handshakeq w of
     [] \<Rightarrow> (Blocked, w)
   | r # rs \<Rightarrow> (Ret r, w\<lparr>handshakeq := rs\<rparr>))"

definition Exec :: "pool_ref \<Rightarrow> string \<Rightarrow> ('a proxy_world_scheme, error + unit) prog" where
  "Exec c sql = andThen (PgConn c) (\<lambda>_ w. case execq w of
     [] \<Rightarrow> (Blocked, w\<lparr>execs := execs w @ [sql]\<rparr>)
   | r # rs \<Rightarrow> (Ret r, w\<lparr>execq := rs, execs := execs w @ [sql]\<rparr>))"

section \<open>connection.go: backend connection, cancel request, reset\<close>

definition connectBackend ::
  "nat \<Rightarrow> string \<Rightarrow> string \<Rightarrow> ('a proxy_world_scheme, error + unit) prog" where
  "connectBackend pc database user =
    andThen (gets (\<lambda>w. BuildConnectionString (srv_config (srv w)) database)) (\<lambda>connectionString.
    ifErr (on_pools (AcquireConnection user database connectionString))
      (\<lambda>e. ret (Inl e)) (\<lambda>connection.
    andThen (setPC pc (pc_poolConn_update (\<lambda>_. Held connection))) (\<lambda>_.
    andThen (on_pools (LogPoolStats user database)) (\<lambda>_.
    ret (Inr ())))))"

text \<open>The packet of \<open>cancelRequest\<close>: four words put into a buffer of 16 zero bytes.\<close>

definition cancel_packet :: "u32 \<Rightarrow> u32 \<Rightarrow> u8 list" where
  "cancel_packet processId secretKey =
     (let buf = replicate 16 0;
          buf = PutUint32 buf 0 16;
          buf = PutUint32 buf 4 80877102;
          buf = PutUint32 buf 8 processId
      in PutUint32 buf 12 secretKey)"

definition cancelWrite :: "u8 list \<Rightarrow> ('a proxy_world_scheme, error + unit) prog" where
  "cancelWrite buf w = (if cancel_write_ok w
     then (Ret (Inr ()), w\<lparr>cancel_writes := cancel_writes w @ [buf]\<rparr>)
     else (Ret (Inl (Err ''write error'')), w))"

definition cancelRequest ::
  "string \<Rightarrow> u32 \<Rightarrow> u32 \<Rightarrow> ('a proxy_world_scheme, error + unit) prog" where
  "cancelRequest host processId secretKey =
    ifErr (DialTimeout (host @ '':5432''))
      (\<lambda>e. ret (Inl (Wrap ''failed to connect to backend: %w'' e))) (\<lambda>_.
    andThen (modify (cancel_open_update (\<lambda>_. True))) (\<lambda>_.
    deferring (modify (cancel_open_update (\<lambda>_. False)))
      (ifErr (cancelWrite (cancel_packet processId secretKey))
        (\<lambda>e. ret (Inl (Wrap ''failed to send cancel: %w'' e)))
        (\<lambda>_. ret (Inr ())))))"

definition fullResetBeforeRelease :: "pool_ref \<Rightarrow> ('a proxy_world_scheme, error + unit) prog" where
  "fullResetBeforeRelease c =
    ifErr (Exec c ''ROLLBACK'') (\<lambda>e. ret (Inl e)) (\<lambda>_.
    ifErr (Exec c ''DISCARD ALL'') (\<lambda>e. ret (Inl e)) (\<lambda>_.
    ret (Inr ())))"

section \<open>startup.go\<close>

text \<open>The method \<open>sendErrorToClient\<close> of \<open>Connection\<close> (\<open>internal/proxy/errors.go\<close>).\<close>

definition pc_sendErrorToClient ::
  "transport \<Rightarrow> string \<Rightarrow> ('a proxy_world_scheme, error) prog" where
  "pc_sendErrorToClient cb msg =
     ifErr (clientSend cb (Msg (proxyError msg)))
       (\<lambda>e. ret (Wrap ''failed to send error to client: %w'' e))
       (\<lambda>_. ret (Err msg))"

text \<open>\<open>msg.Parameters[k]\<close>: a key that is missing gives the empty string.\<close>

definition parameter :: "parameters \<Rightarrow> string \<Rightarrow> string" where
  "parameter params k = (case params k of None \<Rightarrow> '''' | Some v \<Rightarrow> v)"

text \<open>The functions outside the repository that a session uses: \<open>strings.ToLower\<close> outside
  ASCII, \<open>jwt.Parse\<close> and the SCRAM client.\<close>

record ('w, 'c) externals =
  ext_lower :: "string \<Rightarrow> string"
  ext_jwt_Parse :: "'w jwt_parser"
  ext_scram_new :: "string \<Rightarrow> string \<Rightarrow> string \<Rightarrow> error + 'c"
  ext_scram_step :: "'c \<Rightarrow> string \<Rightarrow> (error + string) \<times> 'c"

type_synonym ('w) startup_round = "('w, transport + (error + transport)) prog"

text \<open>The case of a \<open>StartupMessage\<close>.\<close>

definition startSession :: "('a proxy_world_scheme, 'c) externals \<Rightarrow> nat \<Rightarrow> transport \<Rightarrow>
    parameters \<Rightarrow> ('a proxy_world_scheme, error + transport) prog" where
  "startSession ext pc cb params =
    (let user = parameter params ''user''; database = parameter params ''database'' in
    andThen (gets (\<lambda>w. DBHost (srv_config (srv w)))) (\<lambda>host.
    ifErr (AuthenticateUser (ext_lower ext) (ext_jwt_Parse ext) (ext_scram_new ext)
             (ext_scram_step ext) user host params cb)
      (\<lambda>e. ret (Inl e)) (\<lambda>keyData.
    andThen (setPC pc (pc_key_update (\<lambda>_. Some keyData))) (\<lambda>_.
    ifErr (connectBackend pc database user)
      (\<lambda>_. andThen (pc_sendErrorToClient cb ''Database unavailable'') (\<lambda>e. ret (Inl e))) (\<lambda>_.
    andThen (getPC pc) (\<lambda>c. case pc_poolConn c of
      NoPool \<Rightarrow> panic
    | Released _ \<Rightarrow> panic
    | Held p \<Rightarrow>
        andThen (setPC pc (\<lambda>c. c\<lparr>pc_bf := Some p, pc_user := user, pc_db := database,
          pc_key := Some (pcPID p, pcSecret p)\<rparr>)) (\<lambda>_.
        ifErr (clientSend cb (Msg (BackendKeyData (pcPID p) (pcSecret p))))
          (\<lambda>_. ret (Inl (Err ''failed to send backend key data''))) (\<lambda>_.
        ifErr (clientSend cb (Msg (ReadyForQuery (CHR ''I''))))
          (\<lambda>_. ret (Inl (Err ''failed to send ready for query''))) (\<lambda>_.
        andThen (on_server (registerConnection (pcPID p) (pcSecret p) pc)) (\<lambda>_.
        ret (Inr cb)))))))))))"

text \<open>The case of an \<open>SSLRequest\<close>: the one-byte answer goes to \<open>pc.conn\<close>, and the protocol
  goes on over the connection it was on, or over TLS.\<close>

definition answerSSLRequest :: "nat \<Rightarrow> transport \<Rightarrow> 'a proxy_world_scheme startup_round" where
  "answerSSLRequest pc cb =
    andThen (gets (\<lambda>w. srv_tlsConfig (srv w))) (\<lambda>tls.
    andThen (getPC pc) (\<lambda>c.
    if \<not> tls then
      ifErr (clientSend (pc_conn c) (RawByte (CHR ''N'')))
        (\<lambda>e. fails (Wrap ''failed to send SSL rejection: %w'' e))
        (\<lambda>_. goOn cb)
    else
      ifErr (clientSend (pc_conn c) (RawByte (CHR ''S'')))
        (\<lambda>e. fails (Wrap ''failed to send SSL acceptance: %w'' e)) (\<lambda>_.
      ifErr Handshake
        (\<lambda>e. fails (Wrap ''TLS handshake failed: %w'' e)) (\<lambda>_.
      andThen (setPC pc (pc_conn_update (\<lambda>_. TLSConn))) (\<lambda>_.
      goOn TLSConn)))))"

definition processCancel :: "u32 \<Rightarrow> u32 \<Rightarrow> ('a proxy_world_scheme, error + transport) prog" where
  "processCancel processId secretKey =
    andThen (on_server (getConnectionForCancelRequest processId secretKey)) (\<lambda>target. case target of
      None \<Rightarrow> ret (Inl (Err ''cancel request processed - connection unknown''))
    | Some _ \<Rightarrow>
        andThen (gets (\<lambda>w. DBHost (srv_config (srv w)))) (\<lambda>host.
        ifErr (cancelRequest host processId secretKey)
          (\<lambda>e. ret (Inl (Wrap ''cancel request failed: %w'' e)))
          (\<lambda>_. ret (Inl (Err ''cancel request processed'')))))"

text \<open>
  \<open>handleStartupMessage\<close> calls itself after an SSLRequest, with the \<open>pgproto3.Backend\<close> it
  goes on with; the result of the whole is that Backend, that is the transport it is
  bound to. A message that the \<open>switch\<close> does not list falls through to the end.
\<close>

definition startupRound :: "('a proxy_world_scheme, 'c) externals \<Rightarrow> nat \<Rightarrow> transport \<Rightarrow>
    'a proxy_world_scheme startup_round" where
  "startupRound ext pc cb =
    ifErr ReceiveStartupMessage
      (\<lambda>e. fails (Wrap ''error receiving startup message: %w'' e))
      (\<lambda>msg. case msg of
         StartupMessage params \<Rightarrow> andThen (startSession ext pc cb params) (\<lambda>r. ret (Inr r))
       | SSLRequest \<Rightarrow> answerSSLRequest pc cb
       | CancelRequest processId secretKey \<Rightarrow> andThen (processCancel processId secretKey) (\<lambda>r. ret (Inr r))
       | GSSEncRequest \<Rightarrow> ret (Inr (Inr cb)))"

definition startupPending :: "'a proxy_world_scheme \<Rightarrow> nat" where
  "startupPending w = length (startupq w)"

definition handleStartupMessage :: "('a proxy_world_scheme, 'c) externals \<Rightarrow> nat \<Rightarrow> transport \<Rightarrow>
    ('a proxy_world_scheme, error + transport) prog" where
  "handleStartupMessage ext pc cb = forLoop startupPending (startupRound ext pc) cb"

section \<open>message.go\<close>

definition relayRound :: "nat \<Rightarrow> transport \<Rightarrow> ('a proxy_world_scheme, unit + (error + unit)) prog" where
  "relayRound pc cb =
    ifErr (bfReceive pc)
      (\<lambda>e. fails (Wrap ''backend receive error: %w'' e)) (\<lambda>msg.
    ifErr (clientSend cb (Msg msg))
      (\<lambda>e. fails (Wrap ''client send error: %w'' e)) (\<lambda>_.
    case msg of
      ReadyForQuery _ \<Rightarrow> ret (Inr (Inr ()))
    | _ \<Rightarrow> goOn ()))"

definition backendPending :: "'a proxy_world_scheme \<Rightarrow> nat" where
  "backendPending w = length (inq (backend w))"

definition relayBackendResponse ::
  "nat \<Rightarrow> transport \<Rightarrow> ('a proxy_world_scheme, error + unit) prog" where
  "relayBackendResponse pc cb = forLoop backendPending (\<lambda>_. relayRound pc cb) ()"

text \<open>\<open>handleMessage\<close> after the \<open>Receive\<close>.\<close>

definition forwardMessage ::
  "nat \<Rightarrow> transport \<Rightarrow> FrontendMessage \<Rightarrow> ('a proxy_world_scheme, error + unit) prog" where
  "forwardMessage pc cb msg =
    andThen (getPC pc) (\<lambda>c.
    andThen (PgConn (pc_poolConn c)) (\<lambda>_.
    case msg of
      Terminate \<Rightarrow> ret (Inl (Err ''client terminated''))
    | _ \<Rightarrow>
      ifErr (bfSend pc msg)
        (\<lambda>e. ret (Inl (Wrap ''unable to send query to backend: %w'' e))) (\<lambda>_.
      relayBackendResponse pc cb)))"

definition handleMessage :: "nat \<Rightarrow> transport \<Rightarrow> ('a proxy_world_scheme, error + unit) prog" where
  "handleMessage pc cb =
    ifErr clientReceive
      (\<lambda>e. ret (Inl (Wrap ''client receive error: %w'' e)))
      (forwardMessage pc cb)"

section \<open>handleConnection\<close>

text \<open>The deferred function: close the client's connection, reset the pool connection and give
  it back, and remove the registration. Errors are only logged.\<close>

definition teardown :: "nat \<Rightarrow> ('a proxy_world_scheme, unit) prog" where
  "teardown pc =
    andThen (modify (client_open_update (\<lambda>_. False))) (\<lambda>_.
    andThen (getPC pc) (\<lambda>c.
    andThen (case pc_poolConn c of
        NoPool \<Rightarrow> ret ()
      | Released p \<Rightarrow> panic
      | Held p \<Rightarrow>
          andThen (fullResetBeforeRelease (Held p)) (\<lambda>_.
          andThen (on_pools (conn_Release p)) (\<lambda>_.
          setPC pc (pc_poolConn_update (\<lambda>_. Released p))))) (\<lambda>_.
    case pc_key c of
      None \<Rightarrow> ret ()
    | Some (pid, sk) \<Rightarrow> on_server (unregisterConnection pid sk pc))))"

definition messageRound :: "nat \<Rightarrow> transport \<Rightarrow> ('a proxy_world_scheme, unit + unit) prog" where
  "messageRound pc cb = ifErr (handleMessage pc cb) (\<lambda>_. ret (Inr ())) (\<lambda>_. goOn ())"

definition clientPending :: "'a proxy_world_scheme \<Rightarrow> nat" where
  "clientPending w = length (inq (client w))"

text \<open>The query handling loop.\<close>

definition messageLoop :: "nat \<Rightarrow> transport \<Rightarrow> ('a proxy_world_scheme, unit) prog" where
  "messageLoop pc cb = forLoop clientPending (\<lambda>_. messageRound pc cb) ()"

definition handleConnection ::
  "('a proxy_world_scheme, 'c) externals \<Rightarrow> nat \<Rightarrow> ('a proxy_world_scheme, unit) prog" where
  "handleConnection ext pc =
    deferring (teardown pc)
      (andThen (getPC pc) (\<lambda>c.
       ifErr (handleStartupMessage ext pc (pc_conn c)) (\<lambda>_. ret ()) (messageLoop pc)))"

section \<open>Interfaces\<close>

interpretation backend: endpoint_at backend backend_update
  by unfold_locales simp

lemma clientSend_cases:
  obtains c where "clientSend cb m w = (Ret (Inr ()), w\<lparr>client := c\<rparr>)" "inq c = inq (client w)"
    "outq c = outq (client w) @ [(cb, m)]" "wok c = wok (client w)"
  | e c where "clientSend cb m w = (Ret (Inl e), w\<lparr>client := c\<rparr>)" "inq c = inq (client w)"
    "outq c = outq (client w)" "wok c = wok (client w)" "\<exists>n. \<not> wok (client w) n"
proof (cases "wok (client w) (tries (client w))")
  case True
  then show thesis
    by (intro that(1) [of "(client w)\<lparr>outq := outq (client w) @ [(cb, m)], tries := Suc (tries (client w))\<rparr>"])
      (simp_all add: clientSend_def ep_send_def prog_simps)
next
  case False
  then show thesis
    by (intro that(2) [of "Err ''write error''" "(client w)\<lparr>tries := Suc (tries (client w))\<rparr>"])
      (auto simp: clientSend_def ep_send_def prog_simps)
qed

lemma clientReceive_cases:
  obtains "clientReceive w = (Blocked, w)" "inq (client w) = []"
  | r rs where "inq (client w) = r # rs" "clientReceive w = (Ret r, w\<lparr>client := (client w)\<lparr>inq := rs\<rparr>\<rparr>)"
  by (cases "inq (client w)") (auto simp: clientReceive_def ep_recv_def prog_simps)

text \<open>A receive or a send on the pool connection's socket, for a connection that has one.\<close>

lemma bfReceive_eq:
  "pc_bf (heap (srv w) pc) = Some p \<Longrightarrow> bfReceive pc w = (case inq (backend w) of
     [] \<Rightarrow> (Blocked, w)
   | r # rs \<Rightarrow> (Ret r, w\<lparr>backend := (backend w)\<lparr>inq := rs\<rparr>\<rparr>))"
  by (simp add: bfReceive_def getPC_def ep_recv_def prog_simps split: list.split)

lemma bfReceive_panic: "pc_bf (heap (srv w) pc) = None \<Longrightarrow> bfReceive pc w = (Panic, w)"
  by (simp add: bfReceive_def getPC_def prog_simps)

lemma bfSend_panic: "pc_bf (heap (srv w) pc) = None \<Longrightarrow> bfSend pc m w = (Panic, w)"
  by (simp add: bfSend_def getPC_def prog_simps)

lemma bfSend_eq:
  "pc_bf (heap (srv w) pc) = Some p \<Longrightarrow> bfSend pc m w =
    (case ep_send m (backend w) of (r, b) \<Rightarrow> (r, w\<lparr>backend := b\<rparr>))"
  by (simp add: bfSend_def getPC_def prog_simps)

section \<open>Loops make progress\<close>

lemma relayRound_progress:
  assumes "relayRound pc cb w = (Ret (Inl u), w')"
  shows "backendPending w' < backendPending w"
proof (cases "pc_bf (heap (srv w) pc)")
  case None
  with assms show ?thesis by (simp add: relayRound_def bfReceive_panic prog_simps)
next
  case (Some p)
  with assms obtain msg rs w1 where m: "inq (backend w) = Inr msg # rs"
    "w1 = w\<lparr>backend := (backend w)\<lparr>inq := rs\<rparr>\<rparr>"
    by (auto simp: relayRound_def bfReceive_eq prog_simps split: list.splits sum.splits)
  from assms m Some show ?thesis
    by (cases rule: clientSend_cases [of cb "Msg msg" w1])
      (auto simp: relayRound_def bfReceive_eq prog_simps backendPending_def split: BackendMessage.splits)
qed

interpretation relay: progress_loop backendPending "\<lambda>_. relayRound pc cb"
  by unfold_locales (rule relayRound_progress)

lemma ReceiveStartup_cases:
  obtains "startupq w = []" "ReceiveStartupMessage w = (Blocked, w)"
  | r rs where "startupq w = r # rs" "ReceiveStartupMessage w = (Ret r, w\<lparr>startupq := rs\<rparr>)"
  by (cases "startupq w") (auto simp: ReceiveStartupMessage_def)

text \<open>What answering an SSLRequest changes: the client's connection and \<open>pc.conn\<close>.\<close>

definition same_session :: "'a proxy_world_scheme \<Rightarrow> 'a proxy_world_scheme \<Rightarrow> bool" where
  "same_session w w' \<longleftrightarrow> jwtValidator w' = jwtValidator w \<and> roleMapper w' = roleMapper w
     \<and> temp w' = temp w \<and> temp_open w' = temp_open w \<and> dials w' = dials w \<and> poolw w' = poolw w
     \<and> backend w' = backend w \<and> execs w' = execs w \<and> cancel_writes w' = cancel_writes w
     \<and> client_open w' = client_open w \<and> inq (client w') = inq (client w)
     \<and> wok (client w') = wok (client w)
     \<and> clock w' = clock w \<and> ticks w' = ticks w \<and> float_to_int64 w' = float_to_int64 w"

lemma same_session_trans: "same_session u v \<Longrightarrow> same_session v w \<Longrightarrow> same_session u w"
  by (simp add: same_session_def)

definition upgraded :: "nat \<Rightarrow> server_world \<Rightarrow> server_world" where
  "upgraded pc = heap_update (\<lambda>h. h(pc := (h pc)\<lparr>pc_conn := TLSConn\<rparr>))"

lemma answerSSL_result:
  assumes "answerSSLRequest pc cb w = (q, w')"
  shows "same_session w w' \<and> startupq w' = startupq w
     \<and> (srv w' = srv w \<or> srv w' = upgraded pc (srv w))
     \<and> (\<forall>r. q \<noteq> Ret (Inr (Inr r))) \<and> q \<noteq> Panic \<and> q \<noteq> Exit
     \<and> (\<forall>cb'. q = Ret (Inl cb') \<longrightarrow> (if srv_tlsConfig (srv w)
          then cb' = TLSConn \<and> pc_conn (heap (srv w') pc) = TLSConn else cb' = cb))
     \<and> (\<exists>new. outq (client w') = outq (client w) @ new \<and> fst ` set new \<subseteq> {pc_conn (heap (srv w) pc)})"
proof (cases "srv_tlsConfig (srv w)")
  case False
  with assms show ?thesis
    by (cases rule: clientSend_cases [of "pc_conn (heap (srv w) pc)" "RawByte (CHR ''N'')" w])
      (auto simp: answerSSLRequest_def getPC_def prog_simps same_session_def)
next
  case True
  with assms show ?thesis
    by (cases rule: clientSend_cases [of "pc_conn (heap (srv w) pc)" "RawByte (CHR ''S'')" w])
      (auto simp: answerSSLRequest_def getPC_def setPC_def Handshake_def upgraded_def prog_simps
        same_session_def split: list.splits sum.splits)
qed

lemma startupRound_cases:
  assumes "startupRound ext pc cb w = (Ret (Inl cb'), w')"
  obtains rs where "startupq w = Inr SSLRequest # rs"
    "answerSSLRequest pc cb (w\<lparr>startupq := rs\<rparr>) = (Ret (Inl cb'), w')"
  using assms
  by (cases rule: ReceiveStartup_cases [of w])
    (auto simp: startupRound_def prog_simps split: sum.splits StartupMsg.splits prod.splits outcome.splits)

lemma startupRound_progress:
  assumes "startupRound ext pc cb w = (Ret (Inl cb'), w')"
  shows "startupPending w' < startupPending w"
proof -
  from startupRound_cases [OF assms] obtain rs where rs: "startupq w = Inr SSLRequest # rs"
    "answerSSLRequest pc cb (w\<lparr>startupq := rs\<rparr>) = (Ret (Inl cb'), w')" by blast
  from answerSSL_result [OF rs(2)] have "startupq w' = rs" by simp
  with rs(1) show ?thesis by (simp add: startupPending_def)
qed

interpretation startup: progress_loop startupPending "startupRound ext pc"
  by unfold_locales (rule startupRound_progress)

section \<open>The relay\<close>

fun is_ready :: "BackendMessage \<Rightarrow> bool" where
  "is_ready (ReadyForQuery _) = True"
| "is_ready _ = False"

text \<open>A session whose pool connection can be used, and one whose writes all succeed.\<close>

definition connected :: "nat \<Rightarrow> 'a proxy_world_scheme \<Rightarrow> bool" where
  "connected pc w \<longleftrightarrow> is_Held (pc_poolConn (heap (srv w) pc)) \<and> pc_bf (heap (srv w) pc) \<noteq> None"

definition writable :: "'a proxy_world_scheme \<Rightarrow> bool" where
  "writable w \<longleftrightarrow> (\<forall>n. wok (client w) n) \<and> (\<forall>n. wok (backend w) n)"

text \<open>One exchange: \<open>ms\<close> went from the backend's socket to the client, \<open>fs\<close> to the backend.\<close>

definition exchanged :: "transport \<Rightarrow> BackendMessage list \<Rightarrow> FrontendMessage list \<Rightarrow>
    'a proxy_world_scheme \<Rightarrow> 'a proxy_world_scheme \<Rightarrow> bool" where
  "exchanged cb ms fs w w' \<longleftrightarrow>
     outq (client w') = outq (client w) @ map (\<lambda>m. (cb, Msg m)) ms
   \<and> inq (backend w) = map Inr ms @ inq (backend w')
   \<and> outq (backend w') = outq (backend w) @ fs
   \<and> wok (client w') = wok (client w) \<and> wok (backend w') = wok (backend w)
   \<and> srv w' = srv w \<and> poolw w' = poolw w"

lemma exchanged_trans:
  "exchanged cb ms fs u v \<Longrightarrow> exchanged cb ms' fs' v w \<Longrightarrow> exchanged cb (ms @ ms') (fs @ fs') u w"
  by (simp add: exchanged_def)

lemma relayRound_step:
  assumes "connected pc w" and "writable w" and "inq (backend w) = Inr m # rs"
  shows "\<exists>w'. relayRound pc cb w = (Ret (if is_ready m then Inr (Inr ()) else Inl ()), w')
     \<and> exchanged cb [m] [] w w' \<and> inq (client w') = inq (client w) \<and> inq (backend w') = rs"
proof -
  obtain p where p: "pc_bf (heap (srv w) pc) = Some p" using assms(1) by (auto simp: connected_def)
  let ?w1 = "w\<lparr>backend := (backend w)\<lparr>inq := rs\<rparr>\<rparr>"
  have "wok (client ?w1) n" for n using assms(2) by (simp add: writable_def)
  then show ?thesis
    using assms(3) p
    by (cases rule: clientSend_cases [of cb "Msg m" ?w1]; cases m)
      (simp_all add: relayRound_def bfReceive_eq prog_simps exchanged_def)
qed

lemma connected_exchanged: "connected pc w \<Longrightarrow> exchanged cb ms fs w w' \<Longrightarrow> connected pc w'"
  by (simp add: connected_def exchanged_def)

lemma writable_exchanged: "writable w \<Longrightarrow> exchanged cb ms fs w w' \<Longrightarrow> writable w'"
  by (simp add: writable_def exchanged_def)

lemma relay_completes:
  assumes "connected pc w" and "writable w"
    and "inq (backend w) = map Inr ms @ Inr (ReadyForQuery c) # rest"
    and "list_all (\<lambda>m. \<not> is_ready m) ms"
  shows "\<exists>w'. relayBackendResponse pc cb w = (Ret (Inr ()), w')
     \<and> exchanged cb (ms @ [ReadyForQuery c]) [] w w' \<and> inq (client w') = inq (client w)
     \<and> inq (backend w') = rest"
  using assms
proof (induction ms arbitrary: w)
  case Nil
  from relayRound_step [OF Nil(1,2), of "ReadyForQuery c" rest cb] Nil(3) obtain w'
    where "relayRound pc cb w = (Ret (Inr (Inr ())), w')" "exchanged cb [ReadyForQuery c] [] w w'"
      "inq (client w') = inq (client w)" "inq (backend w') = rest" by auto
  then show ?case
    unfolding relayBackendResponse_def by (subst relay.unfold) (simp add: prog_simps)
next
  case (Cons m ms)
  from relayRound_step [OF Cons(2,3), of m "map Inr ms @ Inr (ReadyForQuery c) # rest" cb] Cons(4,5)
  obtain w1 where 1: "relayRound pc cb w = (Ret (Inl ()), w1)" "exchanged cb [m] [] w w1"
      "inq (client w1) = inq (client w)" "inq (backend w1) = map Inr ms @ Inr (ReadyForQuery c) # rest" by auto
  have "connected pc w1" using Cons(2) 1(2) by (rule connected_exchanged)
  moreover have "writable w1" using Cons(3) 1(2) by (rule writable_exchanged)
  ultimately obtain w' where w': "relayBackendResponse pc cb w1 = (Ret (Inr ()), w')"
      "exchanged cb (ms @ [ReadyForQuery c]) [] w1 w'" "inq (client w') = inq (client w1)"
      "inq (backend w') = rest"
    using Cons.IH [of w1] 1(4) Cons.prems(4) by auto
  have "exchanged cb ([m] @ ms @ [ReadyForQuery c]) ([] @ []) w w'"
    using 1(2) w'(2) by (rule exchanged_trans)
  moreover have "relayBackendResponse pc cb w = (Ret (Inr ()), w')"
    using 1(1) w'(1) unfolding relayBackendResponse_def by (subst relay.unfold) (simp add: prog_simps)
  ultimately show ?case using 1(3) w'(3,4) by auto
qed

lemma relay_stuck:
  assumes "connected pc w" and "writable w" and "inq (backend w) = map Inr ms"
    and "list_all (\<lambda>m. \<not> is_ready m) ms"
  shows "\<exists>w'. relayBackendResponse pc cb w = (Blocked, w') \<and> exchanged cb ms [] w w'
     \<and> inq (client w') = inq (client w) \<and> inq (backend w') = []"
  using assms
proof (induction ms arbitrary: w)
  case Nil
  then show ?case
    unfolding relayBackendResponse_def
    by (subst relay.unfold)
      (auto simp: relayRound_def bfReceive_eq prog_simps connected_def exchanged_def)
next
  case (Cons m ms)
  from relayRound_step [OF Cons(2,3), of m "map Inr ms" cb] Cons(4,5)
  obtain w1 where 1: "relayRound pc cb w = (Ret (Inl ()), w1)" "exchanged cb [m] [] w w1"
      "inq (client w1) = inq (client w)" "inq (backend w1) = map Inr ms" by auto
  have "connected pc w1" using Cons(2) 1(2) by (rule connected_exchanged)
  moreover have "writable w1" using Cons(3) 1(2) by (rule writable_exchanged)
  ultimately obtain w' where w': "relayBackendResponse pc cb w1 = (Blocked, w')"
      "exchanged cb ms [] w1 w'" "inq (client w') = inq (client w1)" "inq (backend w') = []"
    using Cons.IH [of w1] 1(4) Cons.prems(4) by auto
  have "exchanged cb ([m] @ ms) ([] @ []) w w'" using 1(2) w'(2) by (rule exchanged_trans)
  moreover have "relayBackendResponse pc cb w = (Blocked, w')"
    using 1(1) w'(1) unfolding relayBackendResponse_def by (subst relay.unfold) (simp add: prog_simps)
  ultimately show ?case using 1(3) w'(3,4) by auto
qed

text \<open>A message that is not Terminate is sent on before the relay starts.\<close>

lemma handleMessage_forwards:
  assumes "connected pc w" and "writable w" and "inq (client w) = Inr msg # rest" and "msg \<noteq> Terminate"
  shows "\<exists>w1. handleMessage pc cb w = relayBackendResponse pc cb w1 \<and> exchanged cb [] [msg] w w1
     \<and> inq (client w1) = rest \<and> inq (backend w1) = inq (backend w)"
proof -
  obtain p q where p: "pc_bf (heap (srv w) pc) = Some p" "pc_poolConn (heap (srv w) pc) = Held q"
    using assms(1) by (auto simp: connected_def is_Held_def)
  let ?w0 = "w\<lparr>client := (client w)\<lparr>inq := rest\<rparr>\<rparr>"
  let ?b = "(backend w)\<lparr>outq := outq (backend w) @ [msg], tries := Suc (tries (backend w))\<rparr>"
  have r: "clientReceive w = (Ret (Inr msg), ?w0)"
    using assms(3) by (simp add: clientReceive_def ep_recv_def prog_simps)
  have s: "bfSend pc msg ?w0 = (Ret (Inr ()), ?w0\<lparr>backend := ?b\<rparr>)"
    using p(1) assms(2) by (simp add: bfSend_eq ep_send_def writable_def)
  have "handleMessage pc cb w = relayBackendResponse pc cb (?w0\<lparr>backend := ?b\<rparr>)"
    using r s p assms(4)
    by (cases msg) (simp_all add: handleMessage_def forwardMessage_def getPC_def PgConn_def prog_simps)
  moreover have "exchanged cb [] [msg] w (?w0\<lparr>backend := ?b\<rparr>)"
    by (simp add: exchanged_def)
  ultimately show ?thesis by (intro exI [of _ "?w0\<lparr>backend := ?b\<rparr>"]) simp
qed

section \<open>The message loop\<close>

text \<open>What the message loop leaves alone; what it writes to the client is in \<open>F\<close>.\<close>

definition relay_le :: "(transport \<times> client_out) set \<Rightarrow>
    'a proxy_world_scheme \<Rightarrow> 'a proxy_world_scheme \<Rightarrow> bool" where
  "relay_le F w w' \<longleftrightarrow> srv w' = srv w \<and> poolw w' = poolw w \<and> startupq w' = startupq w \<and> temp w' = temp w
     \<and> dials w' = dials w \<and> execs w' = execs w \<and> cancel_writes w' = cancel_writes w \<and> client_open w' = client_open w
     \<and> execq w' = execq w
     \<and> length (inq (client w')) \<le> length (inq (client w))
     \<and> (\<exists>new. outq (client w') = outq (client w) @ new \<and> set new \<subseteq> F)"

interpretation relayf: frame "relay_le F :: 'a proxy_world_scheme \<Rightarrow> 'a proxy_world_scheme \<Rightarrow> bool"
  by unfold_locales (auto simp: relay_le_def)

lemma relay_le_clientSend: "(cb, m) \<in> F \<Longrightarrow> related (relay_le F) (clientSend cb m)"
  by (auto simp: related_def relay_le_def clientSend_def ep_send_def prog_simps)

lemma relay_le_io: "related (relay_le F) clientReceive" "related (relay_le F) (bfReceive pc)"
  "related (relay_le F) (bfSend pc m)" "related (relay_le F) (getPC pc)" "related (relay_le F) (PgConn c)"
  by (auto simp: related_def relay_le_def clientReceive_def bfReceive_def bfSend_def getPC_def PgConn_def
      ep_recv_def ep_send_def prog_simps split: list.split option.split pool_ref.split)

lemmas relay_le_rules = relayf.related_rules relayf.related_forLoop relay_le_clientSend relay_le_io

lemma relayBackendResponse_le:
  assumes "{cb} \<times> UNIV \<subseteq> F"
  shows "related (relay_le F) (relayBackendResponse pc cb)"
proof -
  have "(cb, m) \<in> F" for m using assms by blast
  then show ?thesis
    unfolding relayBackendResponse_def relayRound_def
    by (auto intro!: relay_le_rules split: BackendMessage.split)
qed

lemma forwardMessage_le: "{cb} \<times> UNIV \<subseteq> F \<Longrightarrow> related (relay_le F) (forwardMessage pc cb msg)"
  unfolding forwardMessage_def
  by (auto intro!: relay_le_rules relayBackendResponse_le split: FrontendMessage.split)

lemma handleMessage_le: "{cb} \<times> UNIV \<subseteq> F \<Longrightarrow> related (relay_le F) (handleMessage pc cb)"
  unfolding handleMessage_def
  by (auto intro!: relay_le_rules forwardMessage_le)

lemma messageLoop_le: "{cb} \<times> UNIV \<subseteq> F \<Longrightarrow> related (relay_le F) (messageLoop pc cb)"
  unfolding messageLoop_def messageRound_def
  by (auto intro!: relay_le_rules handleMessage_le)

lemma handleMessage_consumes:
  assumes "handleMessage pc cb w = (Ret (Inr ()), w')"
  shows "clientPending w' < clientPending w"
proof (cases rule: clientReceive_cases [of w])
  case 1
  with assms show ?thesis by (simp add: handleMessage_def prog_simps)
next
  case (2 r rs)
  let ?w1 = "w\<lparr>client := (client w)\<lparr>inq := rs\<rparr>\<rparr>"
  show ?thesis
  proof (cases r)
    case (Inl e)
    with assms 2 show ?thesis by (simp add: handleMessage_def prog_simps)
  next
    case (Inr msg)
    with assms 2 have "forwardMessage pc cb msg ?w1 = (Ret (Inr ()), w')"
      by (simp add: handleMessage_def prog_simps)
    from relatedD [OF forwardMessage_le [of cb UNIV] this] 2(1) show ?thesis
      by (simp add: relay_le_def clientPending_def)
  qed
qed

interpretation messages: progress_loop clientPending "\<lambda>_. messageRound pc cb"
  by unfold_locales
    (auto simp: messageRound_def prog_simps dest: handleMessage_consumes
      split: prod.splits outcome.splits sum.splits)

text \<open>A message and the backend's answer to it, which ends with its ReadyForQuery.\<close>

type_synonym exchange = "FrontendMessage \<times> BackendMessage list \<times> char"

fun answer :: "exchange \<Rightarrow> BackendMessage list" where
  "answer (msg, ms, c) = ms @ [ReadyForQuery c]"

fun simple :: "exchange \<Rightarrow> bool" where
  "simple (msg, ms, c) \<longleftrightarrow> msg \<noteq> Terminate \<and> list_all (\<lambda>m. \<not> is_ready m) ms"

lemma messageRound_exchange:
  assumes "connected pc w" and "writable w" and "simple x"
    and "inq (client w) = Inr (fst x) # crest" and "inq (backend w) = map Inr (answer x) @ brest"
  shows "\<exists>w'. messageRound pc cb w = (Ret (Inl ()), w') \<and> exchanged cb (answer x) [fst x] w w'
     \<and> inq (client w') = crest \<and> inq (backend w') = brest"
proof -
  obtain msg ms c where x: "x = (msg, ms, c)" by (cases x)
  with assms(3,4) handleMessage_forwards [OF assms(1,2), of msg crest cb] obtain w1
    where 1: "handleMessage pc cb w = relayBackendResponse pc cb w1" "exchanged cb [] [msg] w w1"
      "inq (client w1) = crest" "inq (backend w1) = inq (backend w)" by auto
  have "connected pc w1" "writable w1"
    using connected_exchanged [OF assms(1) 1(2)] writable_exchanged [OF assms(2) 1(2)] .
  moreover have "inq (backend w1) = map Inr ms @ Inr (ReadyForQuery c) # brest"
    using 1(4) assms(5) x by simp
  ultimately obtain w' where 2: "relayBackendResponse pc cb w1 = (Ret (Inr ()), w')"
      "exchanged cb (ms @ [ReadyForQuery c]) [] w1 w'" "inq (client w') = inq (client w1)" "inq (backend w') = brest"
    using relay_completes [of pc w1 ms c brest cb] assms(3) x by auto
  from exchanged_trans [OF 1(2) 2(2)] 1 2 x show ?thesis
    by (simp add: messageRound_def prog_simps)
qed

lemma messageLoop_transparent:
  assumes "connected pc w" and "writable w" and "list_all simple xs"
    and "inq (client w) = map (\<lambda>x. Inr (fst x)) xs @ Inr Terminate # rest"
    and "inq (backend w) = map Inr (concat (map answer xs)) @ brest"
  shows "\<exists>w'. messageLoop pc cb w = (Ret (), w') \<and> exchanged cb (concat (map answer xs)) (map fst xs) w w'
     \<and> inq (client w') = rest \<and> inq (backend w') = brest"
  using assms
proof (induction xs arbitrary: w)
  case Nil
  then show ?case
    unfolding messageLoop_def
    by (subst messages.unfold)
      (auto simp: messageRound_def handleMessage_def forwardMessage_def clientReceive_def ep_recv_def
        getPC_def PgConn_def prog_simps connected_def is_Held_def exchanged_def)
next
  case (Cons x xs)
  from messageRound_exchange [OF Cons.prems(1,2), of x] Cons.prems(3,4,5) obtain w1
    where 1: "messageRound pc cb w = (Ret (Inl ()), w1)" "exchanged cb (answer x) [fst x] w w1"
      "inq (client w1) = map (\<lambda>x. Inr (fst x)) xs @ Inr Terminate # rest"
      "inq (backend w1) = map Inr (concat (map answer xs)) @ brest"
    by fastforce
  have "connected pc w1" "writable w1"
    using connected_exchanged [OF Cons.prems(1) 1(2)] writable_exchanged [OF Cons.prems(2) 1(2)] .
  with Cons.IH [of w1] Cons.prems(3) 1(3,4) obtain w' where 2: "messageLoop pc cb w1 = (Ret (), w')"
      "exchanged cb (concat (map answer xs)) (map fst xs) w1 w'" "inq (client w') = rest" "inq (backend w') = brest"
    by auto
  have "messageLoop pc cb w = (Ret (), w')"
    using 1(1) 2(1) unfolding messageLoop_def by (subst messages.unfold) (simp add: prog_simps)
  with exchanged_trans [OF 1(2) 2(2)] 2(3,4) show ?case by auto
qed

text \<open>C2: The proxy is transparent to queries. For any sequence of messages before Terminate, each
  answered by PostgreSQL with messages up to a ReadyForQuery, the message loop returns,
  PostgreSQL has received exactly the client's messages in their order and not the
  Terminate, and the client exactly PostgreSQL's answers in theirs, unchanged; the
  registry and the pools are as before.\<close>

theorem session_transparent:
  assumes "connected pc w" and "writable w" and "list_all simple xs"
    and "inq (client w) = map (\<lambda>x. Inr (fst x)) xs @ Inr Terminate # rest"
    and "inq (backend w) = map Inr (concat (map answer xs)) @ brest"
  shows "\<exists>w'. messageLoop pc cb w = (Ret (), w') \<and> exchanged cb (concat (map answer xs)) (map fst xs) w w'
     \<and> inq (client w') = rest \<and> inq (backend w') = brest"
  using assms by (rule messageLoop_transparent)

text \<open>C39: The extended query protocol deadlocks. After each message the proxy waits for a
  ReadyForQuery, which PostgreSQL sends only after a Sync: when a client's first message is
  answered without one, as a Parse is, the proxy blocks, and the client's following
  messages, its Sync included, are never read.\<close>

theorem pipelined_sync_deadlock:
  assumes "connected pc w" and "writable w" and "msg \<noteq> Terminate"
    and "inq (client w) = Inr msg # rest"
    and "inq (backend w) = map Inr ms" and "list_all (\<lambda>m. \<not> is_ready m) ms"
  shows "\<exists>w'. messageLoop pc cb w = (Blocked, w') \<and> exchanged cb ms [msg] w w' \<and> inq (client w') = rest"
proof -
  from handleMessage_forwards [OF assms(1,2,4,3), of cb] obtain w1
    where 1: "handleMessage pc cb w = relayBackendResponse pc cb w1" "exchanged cb [] [msg] w w1"
      "inq (client w1) = rest" "inq (backend w1) = inq (backend w)" by auto
  have "connected pc w1" "writable w1"
    using connected_exchanged [OF assms(1) 1(2)] writable_exchanged [OF assms(2) 1(2)] .
  with relay_stuck [of pc w1 ms cb] 1(4) assms(5,6) obtain w'
    where "relayBackendResponse pc cb w1 = (Blocked, w')" "exchanged cb ms [] w1 w'"
      "inq (client w') = inq (client w1)" by auto
  with exchanged_trans [OF 1(2) this(2)] 1 show ?thesis
    unfolding messageLoop_def by (subst messages.unfold) (simp add: messageRound_def prog_simps)
qed



end
