(* ===== verification/Handler.thy ===== *)
theory Handler
  imports Session
begin

text \<open>
  What holds of a whole client connection, from \<open>handleStartupMessage\<close> to the teardown of
  \<open>handleConnection\<close>: how a session is established, what happens before a login, cancel
  requests, TLS, and that the pool connection is given back.
\<close>

section \<open>Establishing a session\<close>

text \<open>The login leaves the proxy's own fields alone.\<close>

lemma auth_le_proxy:
  "auth_le F T w w' \<Longrightarrow> srv w' = srv w \<and> poolw w' = poolw w \<and> backend w' = backend w
     \<and> execs w' = execs w \<and> cancel_writes w' = cancel_writes w \<and> client_open w' = client_open w
     \<and> startupq w' = startupq w \<and> execq w' = execq w"
  by (cases w; cases w') (simp add: auth_le_def)

lemma Authenticate_proxy:
  assumes "parse_contract jwt_Parse sig_ok"
    and "AuthenticateUser ul jwt_Parse sn ss user host params cb w = (q, w')"
  shows "srv w' = srv w \<and> poolw w' = poolw w \<and> backend w' = backend w \<and> execs w' = execs w
     \<and> cancel_writes w' = cancel_writes w \<and> client_open w' = client_open w \<and> startupq w' = startupq w
     \<and> execq w' = execq w
     \<and> (\<exists>new. outq (client w') = outq (client w) @ new \<and> set new \<subseteq> login_answers cb)"
proof -
  have "auth_le (login_answers cb) UNIV w w'"
    by (rule relatedD [OF AuthenticateUser_le [OF assms(1)] assms(2)]) simp_all
  then show ?thesis using auth_le_proxy [of "login_answers cb" UNIV w w'] by (auto simp: auth_le_def)
qed

definition connectionString :: "'a proxy_world_scheme \<Rightarrow> string \<Rightarrow> string" where
  "connectionString w database = BuildConnectionString (srv_config (srv w)) database"

definition with_pool_conn :: "nat \<Rightarrow> pool_conn \<Rightarrow> server_world \<Rightarrow> server_world" where
  "with_pool_conn pc p = heap_update (\<lambda>h. h(pc := (h pc)\<lparr>pc_poolConn := Held p\<rparr>))"

lemma connectBackend_cases:
  assumes "connectBackend pc database user w = (out, w')"
  obtains e q where "AcquireConnection user database (connectionString w database) (poolw w) = (Ret (Inl e), q)"
      "out = Ret (Inl e)" "w' = w\<lparr>poolw := q\<rparr>"
  | p q where "AcquireConnection user database (connectionString w database) (poolw w) = (Ret (Inr p), q)"
      "out = Ret (Inr ())" "w' = w\<lparr>poolw := q, srv := with_pool_conn pc p (srv w)\<rparr>"
  | r q where "AcquireConnection user database (connectionString w database) (poolw w) = (r, q)"
      "\<nexists>x. r = Ret x" "\<nexists>x. out = Ret x" "w' = w\<lparr>poolw := q\<rparr>" "r = Panic \<longleftrightarrow> out = Panic"
proof -
  obtain r q where a: "AcquireConnection user database (connectionString w database) (poolw w) = (r, q)"
    by fastforce
  have log: "LogPoolStats user database v = (Ret b, v') \<Longrightarrow> v' = v" for b and v v' :: pool_world
    by (auto simp: LogPoolStats_def lookupPool_def prog_simps split: option.splits)
  have logr: "\<exists>b. LogPoolStats user database v = (Ret b, v)" for v :: pool_world
    by (auto simp: LogPoolStats_def lookupPool_def prog_simps split: option.splits)
  show thesis
  proof (cases r)
    case (Ret x)
    show thesis
    proof (cases x)
      case (Inl e)
      with a Ret assms show thesis
        by (intro that(1)) (auto simp: connectBackend_def connectionString_def on_pools_def prog_simps)
    next
      case (Inr p)
      from logr [of q] obtain b where "LogPoolStats user database q = (Ret b, q)" by blast
      with a Ret Inr assms show thesis
        by (intro that(2)) (auto simp: connectBackend_def connectionString_def on_pools_def setPC_def
            with_pool_conn_def prog_simps)
    qed
  next
    case Panic
    with a assms show thesis
      by (intro that(3)) (auto simp: connectBackend_def connectionString_def on_pools_def prog_simps)
  next
    case Exit
    with a assms show thesis
      by (intro that(3)) (auto simp: connectBackend_def connectionString_def on_pools_def prog_simps)
  next
    case Blocked
    with a assms show thesis
      by (intro that(3)) (auto simp: connectBackend_def connectionString_def on_pools_def prog_simps)
  qed
qed

text \<open>The struct of a connection whose session is established on the pool connection \<open>p\<close>.\<close>

definition session_conn :: "pool_conn \<Rightarrow> parameters \<Rightarrow> Connection \<Rightarrow> Connection" where
  "session_conn p params c = c\<lparr>pc_poolConn := Held p, pc_bf := Some p, pc_user := parameter params ''user'',
     pc_db := parameter params ''database'', pc_key := Some (pcPID p, pcSecret p)\<rparr>"

definition established :: "('a proxy_world_scheme, 'c) externals \<Rightarrow> nat \<Rightarrow> parameters \<Rightarrow> transport \<Rightarrow>
    'a proxy_world_scheme \<Rightarrow> 'a proxy_world_scheme \<Rightarrow> pool_conn \<Rightarrow> bool" where
  "established ext pc params cb w w' p \<longleftrightarrow> (\<exists>keyData w1.
     AuthenticateUser (ext_lower ext) (ext_jwt_Parse ext) (ext_scram_new ext) (ext_scram_step ext)
       (parameter params ''user'') (DBHost (srv_config (srv w))) params cb w = (Ret (Inr keyData), w1)
   \<and> AcquireConnection (parameter params ''user'') (parameter params ''database'')
       (connectionString w (parameter params ''database'')) (poolw w) = (Ret (Inr p), poolw w')
   \<and> heap (srv w') pc = session_conn p params (heap (srv w) pc)
   \<and> findConn (activeConnections (srv w')) (pcPID p, pcSecret p) = Some pc
   \<and> outq (client w') = outq (client w1)
       @ [(cb, Msg (BackendKeyData (pcPID p) (pcSecret p))), (cb, Msg (ReadyForQuery (CHR ''I'')))]
   \<and> backend w' = backend w)"

text \<open>The last part of \<open>startSession\<close>, in the world after \<open>connectBackend\<close>.\<close>

lemma announce_session:
  assumes "ifErr (clientSend cb (Msg (BackendKeyData (pcPID p) (pcSecret p))))
        (\<lambda>_. ret (Inl (Err ''failed to send backend key data''))) (\<lambda>_.
      ifErr (clientSend cb (Msg (ReadyForQuery (CHR ''I''))))
        (\<lambda>_. ret (Inl (Err ''failed to send ready for query''))) (\<lambda>_.
      andThen (on_server (registerConnection (pcPID p) (pcSecret p) pc)) (\<lambda>_.
      ret (Inr cb)))) w = (out, w')"
  shows "heap (srv w') = heap (srv w) \<and> poolw w' = poolw w \<and> backend w' = backend w \<and> temp w' = temp w
     \<and> srv_config (srv w') = srv_config (srv w) \<and> client_open w' = client_open w
     \<and> (\<forall>cb'. out = Ret (Inr cb') \<longrightarrow> cb' = cb
        \<and> findConn (activeConnections (srv w')) (pcPID p, pcSecret p) = Some pc
        \<and> outq (client w') = outq (client w)
           @ [(cb, Msg (BackendKeyData (pcPID p) (pcSecret p))), (cb, Msg (ReadyForQuery (CHR ''I'')))])"
proof (cases rule: clientSend_cases [of cb "Msg (BackendKeyData (pcPID p) (pcSecret p))" w])
  case (1 c)
  show ?thesis
  proof (cases rule: clientSend_cases [of cb "Msg (ReadyForQuery (CHR ''I''))" "w\<lparr>client := c\<rparr>"])
    case (1 c')
    with \<open>clientSend cb _ w = _\<close> \<open>outq c = _\<close> assms show ?thesis
      by (auto simp: prog_simps on_server_def registerConnection_eq Let_def reg.find_add split: if_splits)
  next
    case (2 e c')
    with \<open>clientSend cb _ w = _\<close> assms show ?thesis by (auto simp: prog_simps)
  qed
next
  case (2 e c)
  with assms show ?thesis by (auto simp: prog_simps)
qed

text \<open>What \<open>startSession\<close> does, by how far it gets.\<close>

lemma startSession_cases:
  assumes contract: "parse_contract (ext_jwt_Parse ext) sig_ok"
    and run: "startSession ext pc cb params w = (out, w')"
  obtains (auth) r where
      "AuthenticateUser (ext_lower ext) (ext_jwt_Parse ext) (ext_scram_new ext) (ext_scram_step ext)
         (parameter params ''user'') (DBHost (srv_config (srv w))) params cb w = (r, w')"
      "\<nexists>k. r = Ret (Inr k)" "\<nexists>cb'. out = Ret (Inr cb')"
  | (pool) w1 keyData r where
      "AuthenticateUser (ext_lower ext) (ext_jwt_Parse ext) (ext_scram_new ext) (ext_scram_step ext)
         (parameter params ''user'') (DBHost (srv_config (srv w))) params cb w = (Ret (Inr keyData), w1)"
      "AcquireConnection (parameter params ''user'') (parameter params ''database'')
         (connectionString w (parameter params ''database'')) (poolw w) = (r, poolw w')"
      "heap (srv w') = (heap (srv w))(pc := (heap (srv w) pc)\<lparr>pc_key := Some keyData\<rparr>)"
      "(\<exists>e. r = Ret (Inl e)) \<or> out = Blocked \<or> out = Exit" "\<nexists>p. r = Ret (Inr p)" "\<nexists>cb'. out = Ret (Inr cb')"
      "backend w' = backend w"
  | (session) w1 keyData p where
      "AuthenticateUser (ext_lower ext) (ext_jwt_Parse ext) (ext_scram_new ext) (ext_scram_step ext)
         (parameter params ''user'') (DBHost (srv_config (srv w))) params cb w = (Ret (Inr keyData), w1)"
      "AcquireConnection (parameter params ''user'') (parameter params ''database'')
         (connectionString w (parameter params ''database'')) (poolw w) = (Ret (Inr p), poolw w')"
      "heap (srv w') = (heap (srv w))(pc := session_conn p params (heap (srv w) pc))" "backend w' = backend w" "client_open w' = client_open w"
      "srv_config (srv w') = srv_config (srv w)"
      "\<forall>cb'. out = Ret (Inr cb') \<longrightarrow> cb' = cb \<and> established ext pc params cb w w' p"
proof -
  let ?user = "parameter params ''user''" and ?db = "parameter params ''database''"
  obtain r w1 where au: "AuthenticateUser (ext_lower ext) (ext_jwt_Parse ext) (ext_scram_new ext)
      (ext_scram_step ext) ?user (DBHost (srv_config (srv w))) params cb w = (r, w1)" by fastforce
  note same = Authenticate_proxy [OF contract au]
  show thesis
  proof (cases "\<exists>k. r = Ret (Inr k)")
    case False
    with au run have "w' = w1 \<and> (\<nexists>cb'. out = Ret (Inr cb'))"
      by (auto simp: startSession_def Let_def prog_simps split: outcome.splits sum.splits)
    with au False show thesis by (intro auth [of r]) auto
  next
    case True
    then obtain k where k: "r = Ret (Inr k)" by blast
    let ?w2 = "srv_update (heap_update (\<lambda>h. h(pc := (h pc)\<lparr>pc_key := Some k\<rparr>))) w1"
    obtain q w3 where cb: "connectBackend pc ?db ?user ?w2 = (q, w3)" by fastforce
    have cs: "connectionString ?w2 ?db = connectionString w ?db" "poolw ?w2 = poolw w"
      using same by (simp_all add: connectionString_def)
    show thesis
      using cb
    proof (cases rule: connectBackend_cases)
      case (1 e p)
      have "(\<exists>c. w' = w3\<lparr>client := c\<rparr>) \<and> (\<nexists>cb'. out = Ret (Inr cb'))"
      proof (cases rule: clientSend_cases [of cb "Msg (proxyError ''Database unavailable'')" w3])
        case (1 c)
        with au k cb \<open>q = Ret (Inl e)\<close> run show ?thesis
          by (auto simp: startSession_def Let_def setPC_def pc_sendErrorToClient_def prog_simps)
      next
        case (2 e' c)
        with au k cb \<open>q = Ret (Inl e)\<close> run show ?thesis
          by (auto simp: startSession_def Let_def setPC_def pc_sendErrorToClient_def prog_simps)
      qed
      with 1 same cs au k show thesis by (intro pool [of k w1 "Ret (Inl e)"]) auto
    next
      case (3 r' p)
      have "w' = w3" "out = (case q of Panic \<Rightarrow> Panic | Exit \<Rightarrow> Exit | _ \<Rightarrow> Blocked)"
        using au k cb run 3(3) by (cases q; simp add: startSession_def Let_def setPC_def prog_simps)+
      with 3 same cs au k AcquireConnection_no_panic [of ?user ?db "connectionString w ?db" "poolw w"]
      show thesis by (intro pool [of k w1 r']) (auto split: outcome.splits)
    next
      case (2 p v)
      let ?w4 = "snd (setPC pc (\<lambda>c. c\<lparr>pc_bf := Some p, pc_user := ?user, pc_db := ?db,
          pc_key := Some (pcPID p, pcSecret p)\<rparr>) w3)"
      from au k cb 2(2,3) run same have "ifErr (clientSend cb (Msg (BackendKeyData (pcPID p) (pcSecret p))))
        (\<lambda>_. ret (Inl (Err ''failed to send backend key data''))) (\<lambda>_.
      ifErr (clientSend cb (Msg (ReadyForQuery (CHR ''I''))))
        (\<lambda>_. ret (Inl (Err ''failed to send ready for query''))) (\<lambda>_.
      andThen (on_server (registerConnection (pcPID p) (pcSecret p) pc)) (\<lambda>_.
      ret (Inr cb)))) ?w4 = (out, w')"
        by (simp add: startSession_def Let_def setPC_def getPC_def with_pool_conn_def prog_simps)
      note fin = announce_session [OF this]
      from fin 2 same cs au k show thesis
        by (intro session [of k w1 p])
          (auto simp: established_def setPC_def modify_def with_pool_conn_def session_conn_def)
    qed
  qed
qed

section \<open>The start-up phase\<close>

text \<open>What a cancel request does.\<close>

lemma processCancel_eq:
  "processCancel pid sk w = (case findConn (activeConnections (srv w)) (pid, sk) of
     None \<Rightarrow> (Ret (Inl (Err ''cancel request processed - connection unknown'')), w)
   | Some t \<Rightarrow>
      (let addr = DBHost (srv_config (srv w)) @ '':5432''; w1 = w\<lparr>dials := dials w @ [addr]\<rparr> in
       if \<not> dial_ok w (length (dials w))
       then (Ret (Inl (Wrap ''cancel request failed: %w'' (Wrap ''failed to connect to backend: %w'' (Err ''dial error'')))), w1)
       else if \<not> cancel_write_ok w
       then (Ret (Inl (Wrap ''cancel request failed: %w'' (Wrap ''failed to send cancel: %w'' (Err ''write error'')))),
             w1\<lparr>cancel_open := False\<rparr>)
       else (Ret (Inl (Err ''cancel request processed'')),
             w1\<lparr>cancel_writes := cancel_writes w @ [cancel_packet pid sk], cancel_open := False\<rparr>)))"
  by (simp add: processCancel_def on_server_def getConnection_eq cancelRequest_def DialTimeout_def cancelWrite_def
      prog_simps Let_def split: option.split)

lemma processCancel_frame:
  "processCancel pid sk w = (out, w') \<Longrightarrow> (\<exists>e. out = Ret (Inl e)) \<and> srv w' = srv w \<and> poolw w' = poolw w
     \<and> backend w' = backend w \<and> client w' = client w \<and> temp w' = temp w"
  by (auto simp: processCancel_eq Let_def split: option.splits if_splits)

text \<open>The world before the message that ends the start-up phase: nothing but the client's
  connection and \<open>pc.conn\<close> has changed.\<close>

definition before_login :: "nat \<Rightarrow> 'a proxy_world_scheme \<Rightarrow> 'a proxy_world_scheme \<Rightarrow> bool" where
  "before_login pc w0 w \<longleftrightarrow> same_session w0 w \<and> (srv w = srv w0 \<or> srv w = upgraded pc (srv w0))
     \<and> set (startupq w) \<subseteq> set (startupq w0)"

lemma before_login_refl: "before_login pc w w"
  by (simp add: before_login_def same_session_def)

lemma before_login_conn:
  "before_login pc w0 w \<Longrightarrow> srv_config (srv w) = srv_config (srv w0)
     \<and> activeConnections (srv w) = activeConnections (srv w0)
     \<and> pc_poolConn (heap (srv w) pc) = pc_poolConn (heap (srv w0) pc)
     \<and> pc_bf (heap (srv w) pc) = pc_bf (heap (srv w0) pc)
     \<and> pc_key (heap (srv w) pc) = pc_key (heap (srv w0) pc)"
  by (auto simp: before_login_def upgraded_def)

lemma before_login_receive:
  "before_login pc w0 w \<Longrightarrow> startupq w = r # rs \<Longrightarrow> before_login pc w0 (w\<lparr>startupq := rs\<rparr>)"
  by (auto simp: before_login_def same_session_def)

lemma before_login_ssl:
  assumes "before_login pc w0 w" and "answerSSLRequest pc cb w = (q, w')"
  shows "before_login pc w0 w'"
proof -
  note r = answerSSL_result [OF assms(2)]
  from assms(1) r have "same_session w0 w'"
    unfolding before_login_def by (metis same_session_trans)
  moreover have twice: "upgraded pc (upgraded pc (srv w0)) = upgraded pc (srv w0)"
    by (simp add: upgraded_def comp_def)
  have "srv w = srv w0 \<or> srv w = upgraded pc (srv w0)" "srv w' = srv w \<or> srv w' = upgraded pc (srv w)"
    using assms(1) r by (simp_all add: before_login_def)
  then have "srv w' = srv w0 \<or> srv w' = upgraded pc (srv w0)"
    by (elim disjE) (simp_all add: twice)
  ultimately show ?thesis using assms(1) r by (simp add: before_login_def)
qed

text \<open>The pool connections that are checked out, apart from this connection's.\<close>

definition balanced :: "nat list \<Rightarrow> nat \<Rightarrow> 'a proxy_world_scheme \<Rightarrow> bool" where
  "balanced base pc w \<longleftrightarrow>
     pc_poolConn (heap (srv w) pc) = NoPool \<and> checkedOut (poolw w) = base
   \<or> (\<exists>p. pc_poolConn (heap (srv w) pc) = Held p \<and> checkedOut (poolw w) = pcId p # base)"

lemma balanced_same:
  "balanced base pc w \<Longrightarrow> srv w' = srv w \<Longrightarrow> poolw w' = poolw w \<Longrightarrow> balanced base pc w'"
  by (simp add: balanced_def)

lemma balanced_before:
  "before_login pc w0 w \<Longrightarrow> pc_poolConn (heap (srv w0) pc) = NoPool \<Longrightarrow>
     balanced (checkedOut (poolw w0)) pc w"
proof -
  assume b: "before_login pc w0 w" and n: "pc_poolConn (heap (srv w0) pc) = NoPool"
  from before_login_conn [OF b] n have "pc_poolConn (heap (srv w) pc) = NoPool" by simp
  moreover from b have "poolw w = poolw w0" by (simp add: before_login_def same_session_def)
  ultimately show ?thesis by (simp add: balanced_def)
qed

text \<open>How the start-up phase can end.\<close>

definition startup_ended :: "('a proxy_world_scheme, 'c) externals \<Rightarrow> nat \<Rightarrow> 'a proxy_world_scheme \<Rightarrow>
    (error + transport) outcome \<Rightarrow> 'a proxy_world_scheme \<Rightarrow> bool" where
  "startup_ended ext pc w0 out w' \<longleftrightarrow> outq (backend w') = outq (backend w0)
     \<and> (pc_poolConn (heap (srv w0) pc) = NoPool \<longrightarrow> out \<noteq> Blocked \<longrightarrow> out \<noteq> Exit \<longrightarrow>
          balanced (checkedOut (poolw w0)) pc w')
     \<and> (\<forall>cb'. out = Ret (Inr cb') \<longrightarrow>
          (\<exists>params w1 p. Inr (StartupMessage params) \<in> set (startupq w0) \<and> before_login pc w0 w1
             \<and> established ext pc params cb' w1 w' p)
        \<or> Inr GSSEncRequest \<in> set (startupq w0) \<and> before_login pc w0 w')"

lemma startSession_ended:
  assumes contract: "parse_contract (ext_jwt_Parse ext) sig_ok"
    and run: "startSession ext pc cb params w = (out, w')"
    and "before_login pc w0 w" and "Inr (StartupMessage params) \<in> set (startupq w0)"
  shows "startup_ended ext pc w0 out w'"
  using contract run
proof (cases rule: startSession_cases)
  case (auth r)
  note same = Authenticate_proxy [OF contract auth(1)]
  have "balanced (checkedOut (poolw w0)) pc w'" if "pc_poolConn (heap (srv w0) pc) = NoPool"
    by (rule balanced_same [OF balanced_before [OF assms(3) that]]) (simp_all add: same)
  with auth same assms(3) show ?thesis
    by (simp add: startup_ended_def before_login_def same_session_def)
next
  case (pool w1 keyData r)
  have "balanced (checkedOut (poolw w0)) pc w'"
    if "pc_poolConn (heap (srv w0) pc) = NoPool" "out \<noteq> Blocked" "out \<noteq> Exit"
  proof -
    from pool(4) that obtain e where "r = Ret (Inl e)" by blast
    with pool(2) have "checkedOut (poolw w') = checkedOut (poolw w)"
      by (auto dest: AcquireConnection_checkedOut)
    with balanced_before [OF assms(3) that(1)] before_login_conn [OF assms(3)] that(1) pool(3) show ?thesis
      by (simp add: balanced_def)
  qed
  with pool assms(3) show ?thesis
    by (simp add: startup_ended_def before_login_def same_session_def)
next
  case (session w1 keyData p)
  have "balanced (checkedOut (poolw w0)) pc w'" if "pc_poolConn (heap (srv w0) pc) = NoPool"
  proof -
    from session(2) have "checkedOut (poolw w') = pcId p # checkedOut (poolw w)"
      by (auto dest: AcquireConnection_checkedOut)
    with session(3) assms(3) show ?thesis
      by (simp add: balanced_def session_conn_def before_login_def same_session_def)
  qed
  with session assms(3,4) show ?thesis
    by (auto simp: startup_ended_def before_login_def same_session_def)
qed

lemma startup_outcome:
  assumes contract: "parse_contract (ext_jwt_Parse ext) sig_ok"
    and run: "handleStartupMessage ext pc cb w0 = (out, w')"
  shows "startup_ended ext pc w0 out w'"
proof (rule startup.invariant [where I = "\<lambda>_. before_login pc w0" and Q = "startup_ended ext pc w0",
      OF run [unfolded handleStartupMessage_def] before_login_refl])
  fix s w s' w1
  assume i: "before_login pc w0 w" and b: "startupRound ext pc s w = (Ret (Inl s'), w1)"
  from startupRound_cases [OF b] obtain rs where "startupq w = Inr SSLRequest # rs"
    "answerSSLRequest pc s (w\<lparr>startupq := rs\<rparr>) = (Ret (Inl s'), w1)" by blast
  with before_login_receive [OF i] show "before_login pc w0 w1" by (blast intro: before_login_ssl)
next
  have ended: "startup_ended ext pc w0 (case r of Ret (Inr x) \<Rightarrow> Ret x | Panic \<Rightarrow> Panic | Exit \<Rightarrow> Exit | _ \<Rightarrow> Blocked) w1"
    if i: "before_login pc w0 w" and b: "startupRound ext pc s w = (r, w1)" and r: "\<nexists>s'. r = Ret (Inl s')"
    for s w r w1
  proof (cases rule: ReceiveStartup_cases [of w])
    case 1
    with b have "r = Blocked" "w1 = w" by (simp_all add: startupRound_def prog_simps)
    with i show ?thesis by (simp add: startup_ended_def before_login_def same_session_def)
  next
    case (2 m rs)
    note i' = before_login_receive [OF i 2(1)]
    have m: "m \<in> set (startupq w0)" using i 2(1) by (auto simp: before_login_def)
    have quiet: "startup_ended ext pc w0 out v"
      if "before_login pc w0 v" "\<nexists>cb'. out = Ret (Inr cb')" for out :: "(error + transport) outcome" and v
      using that balanced_before [OF that(1)]
      by (simp add: startup_ended_def before_login_def same_session_def)
    show ?thesis
    proof (cases m)
      case (Inl e)
      with b 2 r have "r = Ret (Inr (Inl (Wrap ''error receiving startup message: %w'' e)))" "w1 = w\<lparr>startupq := rs\<rparr>"
        by (auto simp: startupRound_def prog_simps)
      with i' show ?thesis by (simp add: quiet)
    next
      case (Inr msg)
      note b' = b [unfolded startupRound_def ifErr_def andThen_def 2(2) Inr, simplified]
      show ?thesis
      proof (cases msg)
        case (StartupMessage params)
        obtain out v where s: "startSession ext pc s params (w\<lparr>startupq := rs\<rparr>) = (out, v)" by fastforce
        with b' StartupMessage have "w1 = v" "(case r of Ret (Inr x) \<Rightarrow> Ret x | Panic \<Rightarrow> Panic
            | Exit \<Rightarrow> Exit | _ \<Rightarrow> Blocked) = out"
          by (cases out; auto simp: prog_simps)+
        with startSession_ended [OF contract s i'] m Inr StartupMessage show ?thesis by simp
      next
        case SSLRequest
        with b' have a: "answerSSLRequest pc s (w\<lparr>startupq := rs\<rparr>) = (r, w1)" by simp
        from quiet [OF before_login_ssl [OF i' a]] answerSSL_result [OF a] show ?thesis
          by (auto split: outcome.split sum.split)
      next
        case (CancelRequest pid sk)
        obtain out v where s: "processCancel pid sk (w\<lparr>startupq := rs\<rparr>) = (out, v)" by fastforce
        note f = processCancel_frame [OF s]
        then obtain e where e: "out = Ret (Inl e)" by blast
        with b' CancelRequest s have "w1 = v" "r = Ret (Inr (Inl e))" by (auto simp: prog_simps)
        moreover have "balanced (checkedOut (poolw w0)) pc v" if "pc_poolConn (heap (srv w0) pc) = NoPool"
          by (rule balanced_same [OF balanced_before [OF i' that]]) (simp_all add: f)
        ultimately show ?thesis using f i'
          by (simp add: startup_ended_def before_login_def same_session_def)
      next
        case GSSEncRequest
        with b' have "r = Ret (Inr (Inr s))" "w1 = w\<lparr>startupq := rs\<rparr>" by (auto simp: prog_simps)
        with i' m Inr GSSEncRequest balanced_before [OF i'] show ?thesis
          by (simp add: startup_ended_def before_login_def same_session_def)
      qed
    qed
  qed
  fix s w w1
  assume i: "before_login pc w0 w"
  show "startup_ended ext pc w0 (Ret r) w1" if "startupRound ext pc s w = (Ret (Inr r), w1)" for r
    using ended [OF i that] by simp
  show "startup_ended ext pc w0 Panic w1" if "startupRound ext pc s w = (Panic, w1)"
    using ended [OF i that] by simp
  show "startup_ended ext pc w0 Exit w1" if "startupRound ext pc s w = (Exit, w1)"
    using ended [OF i that] by simp
  show "startup_ended ext pc w0 Blocked w1" if "startupRound ext pc s w = (Blocked, w1)"
    using ended [OF i that] by simp
qed

section \<open>No session without a login\<close>

text \<open>C9: How a session starts. When the start-up phase of a connection succeeds, one of two
  things has happened. Either it consumed a StartupMessage whose login \<open>AuthenticateUser\<close>
  accepted; the connection then holds a pool connection of the pool for the message's user and
  database, is registered under that pool connection's process id and secret key, and the
  last two messages the client got are exactly this key and a ReadyForQuery. Or the client sent
  a GSSEncRequest, which the code takes for a success: then there was no login, nothing was
  written to PostgreSQL, and the connection holds no more than before and is registered no
  more than before.\<close>

theorem session_established:
  assumes "parse_contract (ext_jwt_Parse ext) sig_ok"
    and "handleStartupMessage ext pc cb w = (Ret (Inr cb'), w')"
  shows "(\<exists>params w1 p. Inr (StartupMessage params) \<in> set (startupq w) \<and> before_login pc w w1
      \<and> established ext pc params cb' w1 w' p)
    \<or> Inr GSSEncRequest \<in> set (startupq w) \<and> temp w' = temp w \<and> backend w' = backend w
      \<and> activeConnections (srv w') = activeConnections (srv w)
      \<and> pc_poolConn (heap (srv w') pc) = pc_poolConn (heap (srv w) pc)
      \<and> pc_key (heap (srv w') pc) = pc_key (heap (srv w) pc)"
proof -
  have *: "temp w' = temp w \<and> backend w' = backend w \<and> activeConnections (srv w') = activeConnections (srv w)
      \<and> pc_poolConn (heap (srv w') pc) = pc_poolConn (heap (srv w) pc)
      \<and> pc_key (heap (srv w') pc) = pc_key (heap (srv w) pc)" if "before_login pc w w'"
    using before_login_conn [OF that] that by (simp add: before_login_def same_session_def)
  from startup_outcome [OF assms(1,2)] show ?thesis
    unfolding startup_ended_def using * by blast
qed

text \<open>A connection without a pool connection panics on its first message.\<close>

lemma messageLoop_unconnected:
  assumes "pc_poolConn (heap (srv w) pc) = NoPool"
  shows "backend (snd (messageLoop pc cb w)) = backend w
    \<and> fst (messageLoop pc cb w) = (case inq (client w) of [] \<Rightarrow> Blocked | Inl e # _ \<Rightarrow> Ret () | Inr m # _ \<Rightarrow> Panic)"
  unfolding messageLoop_def using assms
  by (subst (1 2) messages.unfold)
    (cases rule: clientReceive_cases [of w];
      auto simp: messageRound_def handleMessage_def forwardMessage_def getPC_def PgConn_def prog_simps
        split: sum.split)

text \<open>The teardown leaves the sockets alone.\<close>

definition off_line :: "'a proxy_world_scheme \<Rightarrow> 'a proxy_world_scheme \<Rightarrow> bool" where
  "off_line w w' \<longleftrightarrow> backend w' = backend w \<and> client w' = client w \<and> cancel_writes w' = cancel_writes w
     \<and> dials w' = dials w"

interpretation off: frame off_line
  by unfold_locales (auto simp: off_line_def)

lemma off_line_ops:
  "related off_line (getPC pc)" "related off_line (setPC pc f)" "related off_line (Exec c sql)"
  "related off_line (on_pools m)" "related off_line (on_server m')"
  "related off_line (modify (client_open_update g))"
  by (auto simp: related_def off_line_def getPC_def setPC_def Exec_def PgConn_def on_pools_def on_server_def
      prog_simps split: pool_ref.split list.split prod.split)

lemma teardown_off_line: "related off_line (teardown pc)"
  unfolding teardown_def fullResetBeforeRelease_def
  by (auto intro!: off.related_rules off_line_ops split: pool_ref.split option.split)

lemma teardown_backend: "teardown pc w = (out, w') \<Longrightarrow> backend w' = backend w \<and> client w' = client w
    \<and> cancel_writes w' = cancel_writes w \<and> dials w' = dials w"
  using relatedD [OF teardown_off_line] by (fastforce simp: off_line_def)

definition connection_body :: "('a proxy_world_scheme, 'c) externals \<Rightarrow> nat \<Rightarrow> ('a proxy_world_scheme, unit) prog" where
  "connection_body ext pc = andThen (getPC pc) (\<lambda>c.
     ifErr (handleStartupMessage ext pc (pc_conn c)) (\<lambda>_. ret ()) (messageLoop pc))"

lemma handleConnection_cases:
  assumes "handleConnection ext pc w = (out, w')"
  obtains r w1 where "connection_body ext pc w = (r, w1)" "r = Blocked \<or> r = Exit" "out = r" "w' = w1"
  | r w1 q where "connection_body ext pc w = (r, w1)" "r \<noteq> Blocked" "r \<noteq> Exit"
      "teardown pc w1 = (q, w')" "out = (if q = Ret () then r else q)"
proof -
  obtain r w1 where b: "connection_body ext pc w = (r, w1)" by fastforce
  obtain q w2 where t: "teardown pc w1 = (q, w2)" by fastforce
  have h: "handleConnection ext pc w = deferring (teardown pc) (connection_body ext pc) w"
    by (simp add: handleConnection_def connection_body_def)
  show thesis
  proof (cases "r = Blocked \<or> r = Exit")
    case True
    with b h assms show thesis by (intro that(1) [of r w1]) (auto simp: deferring_def)
  next
    case False
    with b t h assms show thesis
      by (intro that(2) [of r w1 q]) (cases r; cases q; auto simp: deferring_def)+
  qed
qed

lemma connection_body_cases:
  assumes "connection_body ext pc w = (r, w1)"
  obtains q w2 where "handleStartupMessage ext pc (pc_conn (heap (srv w) pc)) w = (q, w2)"
      "\<nexists>cb. q = Ret (Inr cb)" "w1 = w2" "r = Blocked \<longleftrightarrow> q = Blocked" "r = Exit \<longleftrightarrow> q = Exit"
      "r = Panic \<longleftrightarrow> q = Panic"
  | cb w2 where "handleStartupMessage ext pc (pc_conn (heap (srv w) pc)) w = (Ret (Inr cb), w2)"
      "messageLoop pc cb w2 = (r, w1)"
proof -
  obtain q w2 where s: "handleStartupMessage ext pc (pc_conn (heap (srv w) pc)) w = (q, w2)" by fastforce
  show thesis
  proof (cases "\<exists>cb. q = Ret (Inr cb)")
    case True
    then obtain cb where "q = Ret (Inr cb)" by blast
    with s assms show thesis
      by (intro that(2) [of cb w2]) (auto simp: connection_body_def getPC_def prog_simps)
  next
    case False
    with s assms show thesis
      by (intro that(1) [of q w2]) (cases q; auto simp: connection_body_def getPC_def prog_simps split: sum.splits)+
  qed
qed

lemma query_login:
  assumes contract: "parse_contract (ext_jwt_Parse ext) sig_ok"
    and fresh: "pc_poolConn (heap (srv w) pc) = NoPool"
    and run: "handleConnection ext pc w = (out, w')"
    and wrote: "outq (backend w') \<noteq> outq (backend w)"
  shows "\<exists>params cb w1 keyData w2. Inr (StartupMessage params) \<in> set (startupq w) \<and> before_login pc w w1
    \<and> AuthenticateUser (ext_lower ext) (ext_jwt_Parse ext) (ext_scram_new ext) (ext_scram_step ext)
        (parameter params ''user'') (DBHost (srv_config (srv w1))) params cb w1 = (Ret (Inr keyData), w2)"
proof -
  obtain r v where b: "connection_body ext pc w = (r, v)" and v: "backend w' = backend v"
    using run by (cases rule: handleConnection_cases) (auto dest: teardown_backend)
  from b show ?thesis
  proof (cases rule: connection_body_cases)
    case (1 q w2)
    with startup_outcome [OF contract 1(1)] v wrote show ?thesis by (simp add: startup_ended_def)
  next
    case (2 cb w2)
    note s = startup_outcome [OF contract 2(1)]
    show ?thesis
    proof (cases "\<exists>params w1 p. Inr (StartupMessage params) \<in> set (startupq w) \<and> before_login pc w w1
             \<and> established ext pc params cb w1 w2 p")
      case True
      then show ?thesis unfolding established_def by blast
    next
      case False
      with s have "before_login pc w w2" "outq (backend w2) = outq (backend w)"
        by (auto simp: startup_ended_def)
      with fresh before_login_conn [of pc w w2] have "pc_poolConn (heap (srv w2) pc) = NoPool" by simp
      from messageLoop_unconnected [OF this, of cb] 2(2) have "backend v = backend w2" by simp
      with v wrote \<open>outq (backend w2) = _\<close> show ?thesis by simp
    qed
  qed
qed

text \<open>C8: No query without a login. For a connection as \<open>Start\<close> makes it, whatever the client
  sends and however the connection ends: if anything was written to a pool connection's
  socket, then \<open>AuthenticateUser\<close> accepted the login of one of the client's
  StartupMessages, in a world that differs from the first only in the client's connection.\<close>

theorem no_query_without_login:
  assumes contract: "parse_contract (ext_jwt_Parse ext) sig_ok"
    and fresh: "pc_poolConn (heap (srv w) pc) = NoPool"
    and run: "handleConnection ext pc w = (out, w')"
    and wrote: "outq (backend w') \<noteq> outq (backend w)"
  shows "\<exists>params cb w1 keyData w2. Inr (StartupMessage params) \<in> set (startupq w) \<and> before_login pc w w1
    \<and> AuthenticateUser (ext_lower ext) (ext_jwt_Parse ext) (ext_scram_new ext) (ext_scram_step ext)
        (parameter params ''user'') (DBHost (srv_config (srv w1))) params cb w1 = (Ret (Inr keyData), w2)"
  using assms by (rule query_login)

section \<open>The teardown\<close>

text \<open>The reset ends, or hangs in one of its statements.\<close>

lemma Exec_cases:
  obtains r eq xs where "Exec (Held p) sql w = (Ret r, w\<lparr>execq := eq, execs := xs\<rparr>)"
  | eq xs where "Exec (Held p) sql w = (Blocked, w\<lparr>execq := eq, execs := xs\<rparr>)"
proof (cases "execq w")
  case Nil
  then have "Exec (Held p) sql w = (Blocked, w\<lparr>execq := [], execs := execs w @ [sql]\<rparr>)"
    by (cases w) (simp add: Exec_def PgConn_def prog_simps)
  then show thesis by (rule that(2))
next
  case (Cons r rs)
  then have "Exec (Held p) sql w = (Ret r, w\<lparr>execq := rs, execs := execs w @ [sql]\<rparr>)"
    by (simp add: Exec_def PgConn_def prog_simps)
  then show thesis by (rule that(1))
qed

lemma fullReset_cases:
  obtains r eq xs where "fullResetBeforeRelease (Held p) w = (Ret r, w\<lparr>execq := eq, execs := xs\<rparr>)"
  | eq xs where "fullResetBeforeRelease (Held p) w = (Blocked, w\<lparr>execq := eq, execs := xs\<rparr>)"
proof (cases rule: Exec_cases [of p "''ROLLBACK''" w])
  case (1 r eq xs)
  show thesis
  proof (cases r)
    case (Inl e)
    with 1 have "fullResetBeforeRelease (Held p) w = (Ret (Inl e), w\<lparr>execq := eq, execs := xs\<rparr>)"
      by (simp add: fullResetBeforeRelease_def prog_simps)
    then show thesis by (rule that(1))
  next
    case (Inr u)
    show thesis
    proof (cases rule: Exec_cases [of p "''DISCARD ALL''" "w\<lparr>execq := eq, execs := xs\<rparr>"])
      case (1 r' eq' xs')
      with \<open>Exec (Held p) ''ROLLBACK'' w = _\<close> Inr
      have "fullResetBeforeRelease (Held p) w =
          (Ret (case r' of Inl e \<Rightarrow> Inl e | Inr _ \<Rightarrow> Inr ()), w\<lparr>execq := eq', execs := xs'\<rparr>)"
        by (simp add: fullResetBeforeRelease_def prog_simps split: sum.split)
      then show thesis by (rule that(1))
    next
      case (2 eq' xs')
      with \<open>Exec (Held p) ''ROLLBACK'' w = _\<close> Inr
      have "fullResetBeforeRelease (Held p) w = (Blocked, w\<lparr>execq := eq', execs := xs'\<rparr>)"
        by (simp add: fullResetBeforeRelease_def prog_simps)
      then show thesis by (rule that(2))
    qed
  qed
next
  case (2 eq xs)
  then have "fullResetBeforeRelease (Held p) w = (Blocked, w\<lparr>execq := eq, execs := xs\<rparr>)"
    by (simp add: fullResetBeforeRelease_def prog_simps)
  then show thesis by (rule that(2))
qed

lemma teardown_result:
  assumes run: "teardown pc w = (out, w')" and bal: "balanced base pc w"
    and "out \<noteq> Blocked" and "out \<noteq> Exit"
  shows "out = Ret () \<and> checkedOut (poolw w') = base \<and> \<not> is_Held (pc_poolConn (heap (srv w') pc))
     \<and> \<not> client_open w'
     \<and> (\<forall>k. pc_key (heap (srv w') pc) = Some k \<longrightarrow> findConn (activeConnections (srv w')) k = None)"
proof -
  let ?w1 = "w\<lparr>client_open := False\<rparr>"
  from bal consider "pc_poolConn (heap (srv w) pc) = NoPool" "checkedOut (poolw w) = base"
    | p where "pc_poolConn (heap (srv w) pc) = Held p" "checkedOut (poolw w) = pcId p # base"
    unfolding balanced_def by blast
  then show ?thesis
  proof cases
    case 1
    with run show ?thesis
      by (auto simp: teardown_def getPC_def on_server_def unregisterConnection_eq reg.find_del prog_simps
          split: option.splits)
  next
    case (2 p)
    then show ?thesis
    proof (cases rule: fullReset_cases [of p ?w1])
      case (1 r eq xs)
      with 2 run show ?thesis
        by (auto simp: teardown_def getPC_def setPC_def on_server_def on_pools_def conn_Release_def
            unregisterConnection_eq reg.find_del prog_simps split: option.splits)
    next
      case (2 eq xs)
      with \<open>pc_poolConn (heap (srv w) pc) = Held p\<close> run assms(3) show ?thesis
        by (auto simp: teardown_def getPC_def prog_simps)
    qed
  qed
qed

text \<open>C7: A connection cleans up after itself. For a connection as \<open>Start\<close> makes it, however it
  ends (a normal end, an error or a panic), unless it hangs for ever: afterwards the
  client's socket is closed, the connection holds no pool connection, the pool
  connections that are checked out are those from before it, and nothing is registered
  under its cancel key.\<close>

theorem connection_cleans_up:
  assumes contract: "parse_contract (ext_jwt_Parse ext) sig_ok"
    and fresh: "pc_poolConn (heap (srv w) pc) = NoPool"
    and run: "handleConnection ext pc w = (out, w')"
    and ends: "out \<noteq> Blocked" "out \<noteq> Exit"
  shows "\<not> client_open w' \<and> checkedOut (poolw w') = checkedOut (poolw w)
     \<and> \<not> is_Held (pc_poolConn (heap (srv w') pc))
     \<and> (\<forall>k. pc_key (heap (srv w') pc) = Some k \<longrightarrow> findConn (activeConnections (srv w')) k = None)"
  using run
proof (cases rule: handleConnection_cases)
  case (1 r w1)
  with ends show ?thesis by blast
next
  case (2 r w1 q)
  have "balanced (checkedOut (poolw w)) pc w1"
    using 2(1)
  proof (cases rule: connection_body_cases)
    case (1 q w2)
    with 2(2,3) fresh startup_outcome [OF contract 1(1)] show ?thesis by (simp add: startup_ended_def)
  next
    case (2 cb w2)
    with fresh startup_outcome [OF contract 2(1)] have "balanced (checkedOut (poolw w)) pc w2"
      by (simp add: startup_ended_def)
    moreover have "srv w1 = srv w2" "poolw w1 = poolw w2"
      using relatedD [OF messageLoop_le [of cb UNIV] 2(2)] by (simp_all add: relay_le_def)
    ultimately show ?thesis by (rule balanced_same)
  qed
  moreover have "q \<noteq> Blocked" "q \<noteq> Exit" using 2(5) ends by auto
  ultimately show ?thesis using teardown_result [OF 2(4)] by blast
qed

text \<open>A failed reset is only logged. When the \<open>ROLLBACK\<close> of the teardown fails, \<open>DISCARD ALL\<close> is
  not executed, and the pool connection goes back to the pool with the session's state.\<close>

theorem failed_reset_still_released:
  assumes "pc_poolConn (heap (srv w) pc) = Held p" and "execq w = Inl e # rs"
  shows "\<exists>w'. teardown pc w = (Ret (), w') \<and> execs w' = execs w @ [''ROLLBACK'']
     \<and> checkedOut (poolw w') = remove1 (pcId p) (checkedOut (poolw w))"
  using assms
  by (auto simp: teardown_def getPC_def setPC_def fullResetBeforeRelease_def Exec_def PgConn_def on_pools_def
      on_server_def conn_Release_def unregisterConnection_def prog_simps split: option.split)

section \<open>Cancel requests\<close>

lemma cancel_packet_fields:
  "length (cancel_packet pid sk) = 16 \<and> Uint32 (cancel_packet pid sk) 0 = 16
    \<and> Uint32 (cancel_packet pid sk) 4 = 80877102 \<and> Uint32 (cancel_packet pid sk) 8 = pid
    \<and> Uint32 (cancel_packet pid sk) 12 = sk"
  by (simp add: cancel_packet_def Let_def Uint32_PutUint32 Uint32_PutUint32_other)

lemma teardown_plain:
  assumes "pc_poolConn (heap (srv w) pc) = NoPool" and "pc_key (heap (srv w) pc) = None"
  shows "teardown pc w = (Ret (), w\<lparr>client_open := False\<rparr>)"
  using assms by (simp add: teardown_def getPC_def prog_simps)

text \<open>C16: Cancel requests. A fresh connection whose first message is a CancelRequest ends without a
  word to the client and without touching the registry. If a connection is registered
  under the request's process id and secret key, the proxy makes exactly one connection, to port
  5432 of the configured database host, and when it can be made and written to, exactly one
  packet goes over it, 16 bytes that parse as a cancel request with this process id and
  secret key; the connection is not left open. If none is registered, PostgreSQL is not
  even dialled.\<close>

theorem cancel_request_forwarded:
  assumes "startupq w = Inr (CancelRequest pid sk) # rs"
    and "pc_poolConn (heap (srv w) pc) = NoPool" and "pc_key (heap (srv w) pc) = None"
  shows "\<exists>w' packet. handleConnection ext pc w = (Ret (), w') \<and> client w' = client w \<and> srv w' = srv w
     \<and> \<not> client_open w'
     \<and> cancel_writes w' = cancel_writes w @
        (if findConn (activeConnections (srv w)) (pid, sk) \<noteq> None \<and> dial_ok w (length (dials w)) \<and> cancel_write_ok w
         then [packet] else [])
     \<and> dials w' = dials w @
        (if findConn (activeConnections (srv w)) (pid, sk) \<noteq> None then [DBHost (srv_config (srv w)) @ '':5432''] else [])
     \<and> (cancel_open w \<or> \<not> cancel_open w')
     \<and> length packet = 16 \<and> Uint32 packet 0 = 16 \<and> Uint32 packet 4 = 80877102
     \<and> Uint32 packet 8 = pid \<and> Uint32 packet 12 = sk"
proof -
  obtain out v where c: "processCancel pid sk (w\<lparr>startupq := rs\<rparr>) = (out, v)" by fastforce
  note f = processCancel_frame [OF c]
  then obtain e where e: "out = Ret (Inl e)" by blast
  have "handleStartupMessage ext pc cb w = (Ret (Inl e), v)" for cb
    using assms(1) c e unfolding handleStartupMessage_def
    by (subst startup.unfold) (simp add: startupRound_def ReceiveStartupMessage_def prog_simps)
  then have "connection_body ext pc w = (Ret (), v)"
    by (simp add: connection_body_def getPC_def prog_simps)
  moreover have "teardown pc v = (Ret (), v\<lparr>client_open := False\<rparr>)"
    using f assms by (intro teardown_plain) simp_all
  ultimately have "handleConnection ext pc w = (Ret (), v\<lparr>client_open := False\<rparr>)"
    by (simp add: handleConnection_def connection_body_def deferring_def)
  moreover have "cancel_writes v = cancel_writes w @
      (if findConn (activeConnections (srv w)) (pid, sk) \<noteq> None \<and> dial_ok w (length (dials w)) \<and> cancel_write_ok w
       then [cancel_packet pid sk] else [])"
    "dials v = dials w @
      (if findConn (activeConnections (srv w)) (pid, sk) \<noteq> None then [DBHost (srv_config (srv w)) @ '':5432''] else [])"
    "cancel_open w \<or> \<not> cancel_open v"
    using c by (auto simp: processCancel_eq Let_def split: option.splits if_splits)
  ultimately show ?thesis using f cancel_packet_fields [of pid sk]
    by (intro exI [of _ "v\<lparr>client_open := False\<rparr>"] exI [of _ "cancel_packet pid sk"]) simp
qed

section \<open>A request that skips the login\<close>

text \<open>C38: A GSSEncRequest crashes the proxy. \<open>handleStartupMessage\<close> has no case for it and returns
  without an error and without a login, so the client's next message reaches
  \<open>handleMessage\<close>, which dereferences the pool connection that does not exist. The client
  needs no account for it.\<close>

theorem gss_request_panics:
  assumes "startupq w = Inr GSSEncRequest # rs" and "inq (client w) = Inr m # ms"
    and "pc_poolConn (heap (srv w) pc) = NoPool" and "pc_key (heap (srv w) pc) = None"
  shows "fst (handleConnection ext pc w) = Panic \<and> outq (client (snd (handleConnection ext pc w))) = outq (client w)"
proof -
  let ?w1 = "w\<lparr>startupq := rs\<rparr>" and ?cb = "pc_conn (heap (srv w) pc)"
  have s: "handleStartupMessage ext pc ?cb w = (Ret (Inr ?cb), ?w1)"
    using assms(1) unfolding handleStartupMessage_def
    by (subst startup.unfold) (simp add: startupRound_def ReceiveStartupMessage_def prog_simps)
  have m: "messageLoop pc ?cb ?w1 = (Panic, ?w1\<lparr>client := (client w)\<lparr>inq := ms\<rparr>\<rparr>)"
    using assms(2,3) unfolding messageLoop_def
    by (subst messages.unfold)
      (simp add: messageRound_def handleMessage_def forwardMessage_def clientReceive_def ep_recv_def
        getPC_def PgConn_def prog_simps)
  have "connection_body ext pc w = (Panic, ?w1\<lparr>client := (client w)\<lparr>inq := ms\<rparr>\<rparr>)"
    using s m by (simp add: connection_body_def getPC_def prog_simps)
  with assms(3,4) show ?thesis
    by (simp add: handleConnection_def connection_body_def deferring_def teardown_plain)
qed

end
