(* ===== verification/Transport.thy ===== *)
theory Transport
  imports Handler
begin

text \<open>
  What goes over the wire in the clear and what over TLS, for a whole client connection;
  and to which account a session's queries belong.
\<close>

section \<open>The connections a session writes to\<close>

lemma fst_image_subset: "fst ` A \<subseteq> B \<longleftrightarrow> A \<subseteq> B \<times> UNIV"
  by force

text \<open>
  Once \<open>pc.conn\<close> is one of \<open>T\<close> it stays so, and the client is only written to over
  connections of \<open>T\<close>. \<open>T\<close> contains the TLS connection.
\<close>

definition chan_le :: "nat \<Rightarrow> transport set \<Rightarrow> 'a proxy_world_scheme \<Rightarrow> 'a proxy_world_scheme \<Rightarrow> bool" where
  "chan_le pc T w w' \<longleftrightarrow> pc_conn (heap (srv w) pc) \<in> T \<longrightarrow>
     pc_conn (heap (srv w') pc) \<in> T
   \<and> (\<exists>new. outq (client w') = outq (client w) @ new \<and> set new \<subseteq> T \<times> UNIV)"

interpretation chan: frame "chan_le pc T :: 'a proxy_world_scheme \<Rightarrow> 'a proxy_world_scheme \<Rightarrow> bool"
proof unfold_locales
  show "chan_le pc T w w" for w :: "'a proxy_world_scheme" by (simp add: chan_le_def)
next
  fix u v w :: "'a proxy_world_scheme"
  assume "chan_le pc T u v" "chan_le pc T v w"
  then show "chan_le pc T u w" by (fastforce simp: chan_le_def)
qed

lemma chan_le_same:
  "srv w' = srv w \<Longrightarrow> outq (client w') = outq (client w) @ new \<Longrightarrow> set new \<subseteq> T \<times> UNIV \<Longrightarrow> chan_le pc T w w'"
  by (simp add: chan_le_def)

lemma chan_le_clientSend: "cb \<in> T \<Longrightarrow> related (chan_le pc T) (clientSend cb m)"
  by (auto simp: related_def chan_le_def clientSend_def ep_send_def prog_simps)

lemma chan_le_setPC:
  "(\<And>c. pc_conn c \<in> T \<Longrightarrow> pc_conn (f c) \<in> T) \<Longrightarrow> related (chan_le pc T) (setPC pc f)"
  by (auto simp: related_def chan_le_def setPC_def prog_simps)

lemma chan_le_reads: "related (chan_le pc T) (getPC c)" "related (chan_le pc T) ReceiveStartupMessage"
  "related (chan_le pc T) (Exec r sql)" "related (chan_le pc T) (on_pools m)"
  "related (chan_le pc T) (modify (client_open_update g))"
  by (auto simp: related_def chan_le_def getPC_def ReceiveStartupMessage_def Exec_def PgConn_def on_pools_def
      prog_simps split: list.split pool_ref.split prod.split)

lemma chan_le_server: "related (chan_le pc T) (on_server (registerConnection pid sk c))"
  "related (chan_le pc T) (on_server (unregisterConnection pid sk c))"
  by (auto simp: related_def chan_le_def on_server_def registerConnection_eq unregisterConnection_eq
      zoom_def Let_def)

lemma chan_le_cancel: "related (chan_le pc T) (processCancel pid sk)"
proof (rule relatedI)
  fix w :: "'a proxy_world_scheme"
  obtain out w' where c: "processCancel pid sk w = (out, w')" by fastforce
  from processCancel_frame [OF c] have "chan_le pc T w w'"
    by (intro chan_le_same [where new = "[]"]) simp_all
  with c show "chan_le pc T w (snd (processCancel pid sk w))" by simp
qed

lemma chan_le_ssl: "TLSConn \<in> T \<Longrightarrow> related (chan_le pc T) (answerSSLRequest pc cb)"
proof (rule relatedI)
  fix w :: "'a proxy_world_scheme"
  assume T: "TLSConn \<in> T"
  obtain q w' where a: "answerSSLRequest pc cb w = (q, w')" by fastforce
  note r = answerSSL_result [OF a, unfolded fst_image_subset]
  have "pc_conn (heap (srv w') pc) \<in> T" if "pc_conn (heap (srv w) pc) \<in> T"
    using r T that by (auto simp: upgraded_def)
  moreover from r obtain new where "outq (client w') = outq (client w) @ new"
    "set new \<subseteq> {pc_conn (heap (srv w) pc)} \<times> UNIV" by blast
  then have "\<exists>new. outq (client w') = outq (client w) @ new \<and> set new \<subseteq> T \<times> UNIV"
    if "pc_conn (heap (srv w) pc) \<in> T" using that by blast
  ultimately have "chan_le pc T w w'" by (simp add: chan_le_def)
  with a show "chan_le pc T w (snd (answerSSLRequest pc cb w))" by simp
qed

lemma chan_le_Authenticate:
  fixes jwt_Parse :: "'a proxy_world_scheme jwt_parser"
  assumes "parse_contract jwt_Parse sig_ok" and "cb \<in> T"
  shows "related (chan_le pc T) (AuthenticateUser ul jwt_Parse sn ss user host params cb)"
proof (rule relatedI)
  fix w :: "'a proxy_world_scheme"
  obtain q w' where a: "AuthenticateUser ul jwt_Parse sn ss user host params cb w = (q, w')" by fastforce
  from assms(2) have "login_answers cb \<subseteq> T \<times> UNIV" by (auto simp: login_answers_def)
  with Authenticate_proxy [OF assms(1) a] have "chan_le pc T w w'"
    unfolding chan_le_def by (metis order_trans)
  with a show "chan_le pc T w (snd (AuthenticateUser ul jwt_Parse sn ss user host params cb w))" by simp
qed

lemmas chan_le_rules = chan.related_rules chan.related_forLoop chan_le_clientSend chan_le_setPC
  chan_le_reads chan_le_server chan_le_cancel

lemma startSession_chan:
  assumes "parse_contract (ext_jwt_Parse ext) sig_ok" and "cb \<in> T"
  shows "related (chan_le pc T) (startSession ext pc cb params)"
  unfolding startSession_def connectBackend_def pc_sendErrorToClient_def Let_def
  by (auto intro!: chan_le_rules chan_le_Authenticate [OF assms(1)] assms(2) split: pool_ref.split)

lemma startupRound_chan:
  assumes "parse_contract (ext_jwt_Parse ext) sig_ok" and "cb \<in> T" and "TLSConn \<in> T"
  shows "related (chan_le pc T) (startupRound ext pc cb)"
  unfolding startupRound_def
  by (auto intro!: chan_le_rules chan_le_ssl startSession_chan assms split: StartupMsg.split)

text \<open>Which transport the start-up phase goes on with.\<close>

lemma startSession_transport:
  assumes "parse_contract (ext_jwt_Parse ext) sig_ok" and "startSession ext pc cb params w = (Ret (Inr cb'), w')"
  shows "cb' = cb"
  using assms by (cases rule: startSession_cases) auto

lemma startupRound_Inl_transport:
  assumes "startupRound ext pc cb w = (Ret (Inl cb'), w')"
  shows "cb' = cb \<or> cb' = TLSConn"
proof -
  from startupRound_cases [OF assms] obtain rs
    where "answerSSLRequest pc cb (w\<lparr>startupq := rs\<rparr>) = (Ret (Inl cb'), w')" by blast
  from answerSSL_result [OF this] show ?thesis by (auto split: if_splits)
qed

lemma startupRound_Inr_transport:
  assumes "parse_contract (ext_jwt_Parse ext) sig_ok" and "startupRound ext pc cb w = (Ret (Inr (Inr cb')), w')"
  shows "cb' = cb"
  using assms(2)
  by (cases rule: ReceiveStartup_cases [of w])
    (auto simp: startupRound_def prog_simps dest!: processCancel_frame startSession_transport [OF assms(1)]
      answerSSL_result split: sum.splits StartupMsg.splits prod.splits outcome.splits)

lemma handleStartup_chan:
  assumes "parse_contract (ext_jwt_Parse ext) sig_ok" and "cb \<in> T" and "TLSConn \<in> T"
  shows "related (chan_le pc T) (handleStartupMessage ext pc cb)"
  unfolding handleStartupMessage_def
  by (rule chan.related_forLoop_where [where P = "\<lambda>s. s \<in> T"])
    (use assms in \<open>auto intro: startupRound_chan dest: startupRound_Inl_transport\<close>)

lemma handleStartup_transport:
  assumes contract: "parse_contract (ext_jwt_Parse ext) sig_ok" and "cb \<in> T" and "TLSConn \<in> T"
    and "handleStartupMessage ext pc cb w = (Ret (Inr cb'), w')"
  shows "cb' \<in> T"
proof -
  have "\<forall>c. Ret (Inr cb') = Ret (Inr c :: error + transport) \<longrightarrow> c \<in> T"
    by (rule startup.invariant [where I = "\<lambda>s _. s \<in> T" and Q = "\<lambda>out _. \<forall>c. out = Ret (Inr c) \<longrightarrow> c \<in> T",
          OF assms(4) [unfolded handleStartupMessage_def] assms(2)])
      (use assms(3) in \<open>auto dest: startupRound_Inl_transport startupRound_Inr_transport [OF contract]\<close>)
  then show ?thesis by simp
qed

lemma messageLoop_chan:
  assumes "cb \<in> T"
  shows "related (chan_le pc T) (messageLoop pc cb)"
proof (rule relatedI)
  fix w :: "'a proxy_world_scheme"
  have "relay_le ({cb} \<times> UNIV) w (snd (messageLoop pc cb w))"
    by (rule related_snd [OF messageLoop_le]) simp
  with assms show "chan_le pc T w (snd (messageLoop pc cb w))"
    by (auto simp: relay_le_def chan_le_def)
qed

lemma teardown_chan: "related (chan_le pc T) (teardown pc)"
  unfolding teardown_def fullResetBeforeRelease_def
  by (auto intro!: chan_le_rules split: pool_ref.split option.split)

text \<open>From the start-up phase on \<open>cb\<close> to the end, the teardown included.\<close>

lemma connection_chan:
  assumes contract: "parse_contract (ext_jwt_Parse ext) sig_ok" and "cb \<in> T" and "TLSConn \<in> T"
  shows "related (chan_le pc T) (deferring (teardown pc)
     (ifErr (handleStartupMessage ext pc cb) (\<lambda>_. ret ()) (messageLoop pc)))"
proof (rule chan.related_deferring [OF relatedI teardown_chan])
  fix w
  obtain q v where s: "handleStartupMessage ext pc cb w = (q, v)" by fastforce
  have v: "chan_le pc T w v" using relatedD [OF handleStartup_chan [OF assms] s] .
  show "chan_le pc T w (snd (ifErr (handleStartupMessage ext pc cb) (\<lambda>_. ret ()) (messageLoop pc) w))"
  proof (cases "\<exists>c. q = Ret (Inr c)")
    case True
    then obtain c where c: "q = Ret (Inr c)" by blast
    with handleStartup_transport [OF assms] s have "c \<in> T" by blast
    from related_snd [OF messageLoop_chan [OF this], of pc v] v s c show ?thesis
      by (auto simp: prog_simps intro: chan.R_trans)
  next
    case False
    with v s show ?thesis by (cases q) (auto simp: prog_simps split: sum.split)
  qed
qed

section \<open>TLS\<close>

lemma answerSSL_tls:
  assumes "answerSSLRequest pc cb w = (q, w')" and "srv_tlsConfig (srv w)"
  shows "outq (client w') = outq (client w)
     \<or> outq (client w') = outq (client w) @ [(pc_conn (heap (srv w) pc), RawByte (CHR ''S''))]"
  using assms
  by (cases rule: clientSend_cases [of "pc_conn (heap (srv w) pc)" "RawByte (CHR ''S'')" w])
    (auto simp: answerSSLRequest_def getPC_def setPC_def Handshake_def prog_simps split: list.splits sum.splits)

lemma handleStartup_ssl:
  assumes "startupq w = Inr SSLRequest # rs" and "answerSSLRequest pc cb (w\<lparr>startupq := rs\<rparr>) = (q, v)"
  shows "handleStartupMessage ext pc cb w = (case q of
     Ret (Inl cb') \<Rightarrow> handleStartupMessage ext pc cb' v | Ret (Inr r) \<Rightarrow> (Ret r, v)
   | Panic \<Rightarrow> (Panic, v) | Exit \<Rightarrow> (Exit, v) | Blocked \<Rightarrow> (Blocked, v))"
  using assms unfolding handleStartupMessage_def
  by (subst startup.unfold)
    (auto simp: startupRound_def ReceiveStartupMessage_def prog_simps split: outcome.split sum.split)

text \<open>C18: After an upgrade everything is encrypted. On a proxy with TLS, when a connection starts
  with an SSLRequest, the one byte 'S' is all that is ever written to the client in the
  clear: password requests, errors, the cancel key and every query result go over TLS,
  however the connection goes on and ends.\<close>

theorem tls_after_upgrade:
  assumes contract: "parse_contract (ext_jwt_Parse ext) sig_ok"
    and ssl: "startupq w = Inr SSLRequest # rs" and tls: "srv_tlsConfig (srv w)"
    and plain: "pc_conn (heap (srv w) pc) = PlainTCP"
    and run: "handleConnection ext pc w = (out, w')"
  shows "\<exists>first rest. outq (client w') = outq (client w) @ first @ rest
    \<and> (first = [] \<or> first = [(PlainTCP, RawByte (CHR ''S''))]) \<and> set rest \<subseteq> {TLSConn} \<times> UNIV"
proof -
  obtain q v where a: "answerSSLRequest pc PlainTCP (w\<lparr>startupq := rs\<rparr>) = (q, v)" by fastforce
  have first: "outq (client v) = outq (client w) \<or> outq (client v) = outq (client w) @ [(PlainTCP, RawByte (CHR ''S''))]"
    using answerSSL_tls [OF a] tls plain by simp
  note h = handleStartup_ssl [OF ssl a, of ext]
  have "\<exists>rest. outq (client w') = outq (client v) @ rest \<and> set rest \<subseteq> {TLSConn} \<times> UNIV"
  proof (cases "\<exists>cb'. q = Ret (Inl cb')")
    case True
    then obtain cb' where q: "q = Ret (Inl cb')" by blast
    with answerSSL_result [OF a] tls have t: "cb' = TLSConn" "pc_conn (heap (srv v) pc) = TLSConn" by auto
    have "deferring (teardown pc) (ifErr (handleStartupMessage ext pc TLSConn) (\<lambda>_. ret ()) (messageLoop pc)) v = (out, w')"
      using run plain q t(1) h by (simp add: handleConnection_def deferring_def getPC_def ifErr_def andThen_def gets_def)
    from relatedD [OF connection_chan [OF contract, of TLSConn "{TLSConn}"] this] t(2)
    show ?thesis by (simp add: chan_le_def)
  next
    case False
    with h plain answerSSL_result [OF a] have "\<exists>r. connection_body ext pc w = (r, v)"
      by (cases q) (auto simp: connection_body_def getPC_def prog_simps split: sum.split)
    then obtain r where "connection_body ext pc w = (r, v)" by blast
    with run have "client w' = client v"
      by (auto elim!: handleConnection_cases dest: teardown_backend)
    then show ?thesis by simp
  qed
  with first show ?thesis by (metis append.assoc append.left_neutral)
qed

text \<open>The request for the password reaches the client, and what was written stays.\<close>

lemma Authenticate_asks:
  fixes w :: "'a proxy_world_scheme"
  assumes contract: "parse_contract jwt_Parse sig_ok"
    and "dial_ok w (length (dials w))" and "\<And>n. wok (client w) n"
  shows "(cb, Msg AuthenticationCleartextPassword)
     \<in> set (outq (client (snd (AuthenticateUser ul jwt_Parse sn ss user host params cb w))))"
proof -
  let ?w0 = "w\<lparr>dials := dials w @ [JoinHostPort host ''5432''], temp_open := True\<rparr>"
  obtain q w1 where rp: "requestPasswordFromClient cb ?w0 = (q, w1)" by fastforce
  have asked: "(cb, Msg AuthenticationCleartextPassword) \<in> set (outq (client w1))"
    using rp assms(3)
    by (auto simp: requestPasswordFromClient_def auth_io ep_send_def ep_recv_def prog_simps
        split: if_splits list.splits prod.splits sum.splits FrontendMessage.splits)
  have start: "related (auth_le UNIV UNIV) (authenticateOnTemp ul jwt_Parse sn ss user params cb)"
    by (rule authenticateOnTemp_le [OF contract]) auto
  have "auth_le UNIV UNIV w1 (snd (authenticateOnTemp ul jwt_Parse sn ss user params cb ?w0))"
    unfolding authenticateOnTemp_def Let_def
    by (rule authf.related_after [where m = "requestPasswordFromClient cb", OF rp])
      (auto intro!: auth_le_rules sendErrorToClient_le chooseLogin_le [OF contract]
        authenticateWithBackend_le [where params = params] split: sum.split prod.split option.split)
  moreover have "client (snd (AuthenticateUser ul jwt_Parse sn ss user host params cb w))
      = client (snd (authenticateOnTemp ul jwt_Parse sn ss user params cb ?w0))"
    using assms(2) by (auto simp: AuthenticateUser_def DialTimeout_def prog_simps split: outcome.split prod.split)
  ultimately show ?thesis using asked by (auto simp: auth_le_def)
qed

lemma chan_UNIV: "chan_le pc UNIV w w' \<Longrightarrow> x \<in> set (outq (client w)) \<Longrightarrow> x \<in> set (outq (client w'))"
  by (auto simp: chan_le_def)

text \<open>TLS is optional for the client. Whether the proxy has TLS or not: when a client starts
  with a StartupMessage in the clear, it is asked for its password (or its token) in the
  clear.\<close>

theorem password_requested_in_clear:
  assumes contract: "parse_contract (ext_jwt_Parse ext) sig_ok"
    and start: "startupq w = Inr (StartupMessage params) # rs"
    and plain: "pc_conn (heap (srv w) pc) = PlainTCP"
    and io: "dial_ok w (length (dials w))" "\<And>n. wok (client w) n"
  shows "(PlainTCP, Msg AuthenticationCleartextPassword) \<in> set (outq (client (snd (handleConnection ext pc w))))"
proof -
  let ?x = "(PlainTCP, Msg AuthenticationCleartextPassword)"
  let ?w0 = "w\<lparr>startupq := rs\<rparr>"
  let ?auth = "AuthenticateUser (ext_lower ext) (ext_jwt_Parse ext) (ext_scram_new ext) (ext_scram_step ext)
      (parameter params ''user'') (DBHost (srv_config (srv w))) params PlainTCP"
  obtain q w1 where a: "?auth ?w0 = (q, w1)" by fastforce
  have "?x \<in> set (outq (client (snd (?auth ?w0))))"
    by (rule Authenticate_asks [OF contract]) (use io in simp_all)
  with a have x1: "?x \<in> set (outq (client w1))" by simp
  obtain r w2 where s: "startSession ext pc PlainTCP params ?w0 = (r, w2)" by fastforce
  have "chan_le pc UNIV w1 (snd (startSession ext pc PlainTCP params ?w0))"
  proof -
    have "startSession ext pc PlainTCP params ?w0 = (ifErr ?auth (\<lambda>e. ret (Inl e)) (\<lambda>keyData.
      andThen (setPC pc (pc_key_update (\<lambda>_. Some keyData))) (\<lambda>_.
      ifErr (connectBackend pc (parameter params ''database'') (parameter params ''user''))
        (\<lambda>_. andThen (pc_sendErrorToClient PlainTCP ''Database unavailable'') (\<lambda>e. ret (Inl e))) (\<lambda>_.
      andThen (getPC pc) (\<lambda>c. case pc_poolConn c of
        NoPool \<Rightarrow> panic | Released _ \<Rightarrow> panic
      | Held p \<Rightarrow>
        andThen (setPC pc (\<lambda>c. c\<lparr>pc_bf := Some p, pc_user := parameter params ''user'',
          pc_db := parameter params ''database'', pc_key := Some (pcPID p, pcSecret p)\<rparr>)) (\<lambda>_.
        ifErr (clientSend PlainTCP (Msg (BackendKeyData (pcPID p) (pcSecret p))))
          (\<lambda>_. ret (Inl (Err ''failed to send backend key data''))) (\<lambda>_.
        ifErr (clientSend PlainTCP (Msg (ReadyForQuery (CHR ''I''))))
          (\<lambda>_. ret (Inl (Err ''failed to send ready for query''))) (\<lambda>_.
        andThen (on_server (registerConnection (pcPID p) (pcSecret p) pc)) (\<lambda>_.
        ret (Inr PlainTCP)))))))))) ?w0"
      by (simp add: startSession_def Let_def andThen_def [of "gets _"] gets_def)
    then show ?thesis
      by (simp only:) (rule chan.related_after [where m = ?auth and w = ?w0 and r = q, OF a],
        auto intro!: chan_le_rules simp: connectBackend_def pc_sendErrorToClient_def split: pool_ref.split)
  qed
  with s x1 have x2: "?x \<in> set (outq (client w2))" by (auto dest: chan_UNIV)
  have h: "handleStartupMessage ext pc PlainTCP w = (r, w2)"
    using start s unfolding handleStartupMessage_def
    by (subst startup.unfold) (cases r; simp add: startupRound_def ReceiveStartupMessage_def prog_simps)
  have c: "handleConnection ext pc w = deferring (teardown pc) (ifErr (handleStartupMessage ext pc PlainTCP)
      (\<lambda>_. ret ()) (messageLoop pc)) w"
    using plain by (simp add: handleConnection_def deferring_def getPC_def ifErr_def andThen_def gets_def)
  obtain q3 w3 where b: "ifErr (handleStartupMessage ext pc PlainTCP) (\<lambda>_. ret ()) (messageLoop pc) w = (q3, w3)"
    by fastforce
  have "chan_le pc UNIV w2 (snd (ifErr (handleStartupMessage ext pc PlainTCP) (\<lambda>_. ret ()) (messageLoop pc) w))"
    by (rule chan.related_after [where m = "handleStartupMessage ext pc PlainTCP" and w = w, OF h])
      (auto intro: chan_le_rules messageLoop_chan)
  with b x2 have x3: "?x \<in> set (outq (client w3))" by (auto dest: chan_UNIV)
  have "chan_le pc UNIV w3 (snd (handleConnection ext pc w))"
    unfolding c by (rule chan.related_after_deferring [where r = q3, OF _ teardown_chan]) (rule b)
  with x3 show ?thesis by (auto dest: chan_UNIV)
qed

section \<open>On whose behalf queries run\<close>

text \<open>The pools were made from the configuration's connection strings.\<close>

definition pools_of_config :: "'a proxy_world_scheme \<Rightarrow> bool" where
  "pools_of_config w \<longleftrightarrow> targets_ok (connectionString w) (poolw w) \<and> parse_target (poolw w)"

text \<open>C19: Queries run as the proxy's service user. When the pools were made from the proxy's
  configuration (as they all are), a session whose start-up phase succeeds is bound to a
  pool connection that was opened with the connection string of \<open>GPRXY_USER\<close> and the
  requested database. The string does not depend on the login: the service account that a
  token's roles were mapped to is used for the temporary connection only, and the pool is
  the one of the user name the client claims.\<close>

theorem session_runs_as_service_user:
  assumes "parse_contract (ext_jwt_Parse ext) sig_ok" and "pools_of_config w"
    and "handleStartupMessage ext pc cb w = (Ret (Inr cb'), w')"
    and "Inr GSSEncRequest \<notin> set (startupq w)"
  shows "\<exists>params p. Inr (StartupMessage params) \<in> set (startupq w)
    \<and> pc_bf (heap (srv w') pc) = Some p
    \<and> poolManager (poolw w') (parameter params ''user'', parameter params ''database'') = Some (pcPool p)
    \<and> connTarget (poolConfig (pcPool p)) =
        BuildConnectionString (srv_config (srv w)) (parameter params ''database'')"
proof -
  from startup_outcome [OF assms(1,3)] assms(4) obtain params w1 p
    where s: "Inr (StartupMessage params) \<in> set (startupq w)" "before_login pc w w1"
      "established ext pc params cb' w1 w' p" by (auto simp: startup_ended_def)
  from s(2) have same: "poolw w1 = poolw w" "connectionString w1 = connectionString w"
    using before_login_conn [OF s(2)] by (auto simp: before_login_def same_session_def connectionString_def)
  from s(3) have e: "AcquireConnection (parameter params ''user'') (parameter params ''database'')
      (connectionString w (parameter params ''database'')) (poolw w) = (Ret (Inr p), poolw w')"
    "pc_bf (heap (srv w') pc) = Some p"
    by (auto simp: established_def same session_conn_def)
  from AcquireConnection_target [where f = "connectionString w", OF _ _ e(1)] assms(2)
  have "connTarget (poolConfig (pcPool p)) = connectionString w (parameter params ''database'')"
    "poolManager (poolw w') (parameter params ''user'', parameter params ''database'') = Some (pcPool p)"
    by (auto simp: pools_of_config_def)
  with s(1) e(2) show ?thesis by (auto simp: connectionString_def)
qed

end
