(* ===== verification/Refinement.thy ===== *)
theory Refinement
  imports Handler Lifecycle
begin

text \<open>
  The code of one connection implements the step relation of \<open>Lifecycle\<close>: what a run of
  \<open>handleConnection\<close> does to the server's registry and to its own struct is a sequence of
  steps of its goroutine.
\<close>

section \<open>The abstraction\<close>

text \<open>A struct without its socket, which the steps do not mention.\<close>

definition core :: "Connection \<Rightarrow> pool_ref \<times> pool_conn option \<times> string \<times> string \<times> (u32 \<times> u32) option" where
  "core c = (pc_poolConn c, pc_bf c, pc_user c, pc_db c, pc_key c)"

definition view :: "server_world \<Rightarrow> life \<Rightarrow> bool" where
  "view v s \<longleftrightarrow> activeConnections s = activeConnections v \<and> (\<forall>n. core (heap s n) = core (heap v n))"

text \<open>The struct of one connection changes.\<close>

definition change_conn :: "nat \<Rightarrow> (Connection \<Rightarrow> Connection) \<Rightarrow> server_world \<Rightarrow> server_world" where
  "change_conn pc f = heap_update (\<lambda>h. h(pc := f (h pc)))"

lemma change_conn_sel [simp]:
  "activeConnections (change_conn pc f v) = activeConnections v"
  "heap (change_conn pc f v) = (heap v)(pc := f (heap v pc))"
  by (simp_all add: change_conn_def)

lemma change_conn_cong: "f (heap v pc) = g (heap v pc) \<Longrightarrow> change_conn pc f v = change_conn pc g v"
  by (cases v) (simp add: change_conn_def)

lemma life_sel [simp]:
  "activeConnections (set_phase t p s) = activeConnections s" "heap (set_phase t p s) = heap s"
  "crashed (set_phase t p s) = crashed s" "phase (set_phase t p s) = (phase s)(t := p)"
  "activeConnections (set_conn t f s) = activeConnections s"
  "heap (set_conn t f s) = (heap s)(t := f (heap s t))"
  "crashed (set_conn t f s) = crashed s" "phase (set_conn t f s) = phase s"
  by (simp_all add: set_phase_def set_conn_def)

lemma view_phase [simp]: "view v (set_phase t p s) = view v s"
  by (simp add: view_def)

lemma view_crashed [simp]: "view v (s\<lparr>crashed := b\<rparr>) = view v s"
  by (simp add: view_def)

lemma view_change:
  assumes "view v s" and "\<And>c d. core c = core d \<Longrightarrow> core (f c) = core (g d)"
  shows "view (change_conn pc g v) (set_conn pc f s)"
  using assms by (simp add: view_def)

lemma view_socket:
  assumes "view v s" and "\<And>c. core (g c) = core c"
  shows "view (change_conn pc g v) s"
  using assms by (simp add: view_def)

lemma view_upgraded: "view v s \<Longrightarrow> view (upgraded pc v) s"
  using view_socket [of v s "pc_conn_update (\<lambda>_. TLSConn)" pc]
  by (simp add: upgraded_def change_conn_def core_def)

section \<open>The start-up phase\<close>

text \<open>How \<open>startSession\<close> can leave the server: untouched, with the key of the login, with a pool
  connection, or registered.\<close>

definition session_srv :: "nat \<Rightarrow> pool_conn \<Rightarrow> parameters \<Rightarrow> server_world \<Rightarrow> server_world" where
  "session_srv pc p params = change_conn pc (session_conn p params)"

definition all_held :: "(u64 \<times> nat) list \<Rightarrow> 'a server_world_scheme \<Rightarrow> bool" where
  "all_held es v \<longleftrightarrow> (\<forall>e\<in>set es. is_Held (pc_poolConn (heap v (snd e))))"

definition session_result :: "nat \<Rightarrow> server_world \<Rightarrow> (error + transport) outcome \<Rightarrow> server_world \<Rightarrow> bool" where
  "session_result pc v out v' \<longleftrightarrow> v' = v
     \<or> (\<exists>k. v' = change_conn pc (pc_key_update (\<lambda>_. Some k)) v)
     \<or> (\<exists>p params. v' = session_srv pc p params v)
     \<or> (\<exists>p params. let es = addConn (pcPID p, pcSecret p) pc (activeConnections v) in
          v' = (session_srv pc p params v)\<lparr>activeConnections := es\<rparr>
        \<and> (out \<noteq> Panic \<longrightarrow> all_held es (session_srv pc p params v)))"

lemma announce_srv:
  assumes "ifErr (clientSend cb (Msg (BackendKeyData (pcPID p) (pcSecret p))))
        (\<lambda>_. ret (Inl (Err ''failed to send backend key data''))) (\<lambda>_.
      ifErr (clientSend cb (Msg (ReadyForQuery (CHR ''I''))))
        (\<lambda>_. ret (Inl (Err ''failed to send ready for query''))) (\<lambda>_.
      andThen (on_server (registerConnection (pcPID p) (pcSecret p) pc)) (\<lambda>_.
      ret (Inr cb)))) w = (out, w')"
  shows "srv w' = srv w \<or> (let es = addConn (pcPID p, pcSecret p) pc (activeConnections (srv w)) in
     srv w' = (srv w)\<lparr>activeConnections := es\<rparr> \<and> (out \<noteq> Panic \<longrightarrow> all_held es (srv w)))"
proof (cases rule: clientSend_cases [of cb "Msg (BackendKeyData (pcPID p) (pcSecret p))" w])
  case (1 c)
  show ?thesis
  proof (cases rule: clientSend_cases [of cb "Msg (ReadyForQuery (CHR ''I''))" "w\<lparr>client := c\<rparr>"])
    case (1 c')
    with \<open>clientSend cb _ w = _\<close> assms show ?thesis
      by (auto simp: prog_simps on_server_def registerConnection_eq Let_def all_held_def split: if_splits)
  next
    case (2 e c')
    with \<open>clientSend cb _ w = _\<close> assms show ?thesis by (auto simp: prog_simps)
  qed
next
  case (2 e c)
  with assms show ?thesis by (auto simp: prog_simps)
qed

lemma sendError_srv: "srv (snd (pc_sendErrorToClient cb msg w)) = srv w"
  by (cases rule: clientSend_cases [of cb "Msg (proxyError msg)" w])
    (simp_all add: pc_sendErrorToClient_def prog_simps)

lemma startSession_srv:
  assumes contract: "parse_contract (ext_jwt_Parse ext) sig_ok"
    and run: "startSession ext pc cb params w = (out, w')"
  shows "session_result pc (srv w) out (srv w')"
proof -
  let ?user = "parameter params ''user''" and ?db = "parameter params ''database''"
  obtain r w1 where au: "AuthenticateUser (ext_lower ext) (ext_jwt_Parse ext) (ext_scram_new ext)
      (ext_scram_step ext) ?user (DBHost (srv_config (srv w))) params cb w = (r, w1)" by fastforce
  note same = Authenticate_proxy [OF contract au]
  show ?thesis
  proof (cases "\<exists>k. r = Ret (Inr k)")
    case False
    with au run have "w' = w1"
      by (auto simp: startSession_def Let_def prog_simps split: outcome.splits sum.splits)
    with same show ?thesis by (simp add: session_result_def)
  next
    case True
    then obtain k where k: "r = Ret (Inr k)" by blast
    let ?keyed = "change_conn pc (pc_key_update (\<lambda>_. Some k)) (srv w)"
    let ?w2 = "srv_update (heap_update (\<lambda>h. h(pc := (h pc)\<lparr>pc_key := Some k\<rparr>))) w1"
    have w2: "srv ?w2 = ?keyed" using same by (simp add: change_conn_def)
    obtain q w3 where cb: "connectBackend pc ?db ?user ?w2 = (q, w3)" by fastforce
    have keyed: "session_result pc (srv w) out v" if "v = ?keyed" for v
      unfolding session_result_def using that by blast
    show ?thesis
      using cb
    proof (cases rule: connectBackend_cases)
      case (1 e p)
      then have "srv w3 = ?keyed" using w2 by simp
      moreover have "srv w' = srv w3"
        using au k cb 1(2) run sendError_srv [of cb "''Database unavailable''" w3]
        by (cases "fst (pc_sendErrorToClient cb ''Database unavailable'' w3)")
          (auto simp: startSession_def Let_def setPC_def prog_simps split: prod.splits outcome.splits)
      ultimately show ?thesis by (simp add: keyed)
    next
      case (3 r' p)
      have "w' = w3"
        using au k cb run 3(3) by (cases q; simp add: startSession_def Let_def setPC_def prog_simps)+
      with 3(4) w2 show ?thesis by (simp add: keyed)
    next
      case (2 p v)
      let ?w4 = "snd (setPC pc (\<lambda>c. c\<lparr>pc_bf := Some p, pc_user := ?user, pc_db := ?db,
          pc_key := Some (pcPID p, pcSecret p)\<rparr>) w3)"
      have w4: "srv ?w4 = session_srv pc p params (srv w)"
        using 2(3) same by (simp add: setPC_def modify_def with_pool_conn_def session_srv_def
          change_conn_def session_conn_def comp_def)
      from au k cb 2(2,3) run same have "ifErr (clientSend cb (Msg (BackendKeyData (pcPID p) (pcSecret p))))
        (\<lambda>_. ret (Inl (Err ''failed to send backend key data''))) (\<lambda>_.
      ifErr (clientSend cb (Msg (ReadyForQuery (CHR ''I''))))
        (\<lambda>_. ret (Inl (Err ''failed to send ready for query''))) (\<lambda>_.
      andThen (on_server (registerConnection (pcPID p) (pcSecret p) pc)) (\<lambda>_.
      ret (Inr cb)))) ?w4 = (out, w')"
        by (simp add: startSession_def Let_def setPC_def getPC_def with_pool_conn_def prog_simps)
      from announce_srv [OF this] w4 show ?thesis
        by (auto simp: session_result_def Let_def session_srv_def)
    qed
  qed
qed


text \<open>How the start-up phase can leave the server.\<close>

definition startup_srv :: "nat \<Rightarrow> server_world \<Rightarrow> (error + transport) outcome \<Rightarrow> server_world \<Rightarrow> bool" where
  "startup_srv pc v0 out v' \<longleftrightarrow> (\<exists>v. (v = v0 \<or> v = upgraded pc v0) \<and> session_result pc v out v')"

lemma startup_srv_same: "v = v0 \<or> v = upgraded pc v0 \<Longrightarrow> startup_srv pc v0 out v"
  by (auto simp: startup_srv_def session_result_def)

lemma startupRound_srv:
  assumes contract: "parse_contract (ext_jwt_Parse ext) sig_ok"
    and i: "before_login pc w0 w" and b: "startupRound ext pc s w = (r, w1)"
    and r: "\<nexists>s'. r = Ret (Inl s')"
  shows "startup_srv pc (srv w0)
    (case r of Ret (Inr x) \<Rightarrow> Ret x | Panic \<Rightarrow> Panic | Exit \<Rightarrow> Exit | _ \<Rightarrow> Blocked) (srv w1)"
proof (cases rule: ReceiveStartup_cases [of w])
  case 1
  with b have "w1 = w" by (simp add: startupRound_def prog_simps)
  with i show ?thesis by (intro startup_srv_same) (simp add: before_login_def)
next
  case (2 m rs)
  note i' = before_login_receive [OF i 2(1)]
  then have same: "srv (w\<lparr>startupq := rs\<rparr>) = srv w0 \<or> srv (w\<lparr>startupq := rs\<rparr>) = upgraded pc (srv w0)"
    by (simp add: before_login_def)
  have quiet: "?thesis" if "before_login pc w0 w1"
    using that by (intro startup_srv_same) (simp add: before_login_def)
  show ?thesis
  proof (cases m)
    case (Inl e)
    with b 2 have "w1 = w\<lparr>startupq := rs\<rparr>" by (auto simp: startupRound_def prog_simps)
    with i' quiet show ?thesis by simp
  next
    case (Inr msg)
    note b' = b [unfolded startupRound_def ifErr_def andThen_def 2(2) Inr, simplified]
    show ?thesis
    proof (cases msg)
      case (StartupMessage params)
      obtain out v where s: "startSession ext pc s params (w\<lparr>startupq := rs\<rparr>) = (out, v)" by fastforce
      with b' StartupMessage have "w1 = v" "(case r of Ret (Inr x) \<Rightarrow> Ret x | Panic \<Rightarrow> Panic
          | Exit \<Rightarrow> Exit | _ \<Rightarrow> Blocked) = out"
        by (cases out; auto simp: prog_simps)+
      with startSession_srv [OF contract s] same show ?thesis unfolding startup_srv_def by auto
    next
      case SSLRequest
      with b' have "answerSSLRequest pc s (w\<lparr>startupq := rs\<rparr>) = (r, w1)" by simp
      with before_login_ssl [OF i'] show ?thesis by (intro quiet) blast
    next
      case (CancelRequest pid sk)
      obtain out v where s: "processCancel pid sk (w\<lparr>startupq := rs\<rparr>) = (out, v)" by fastforce
      with processCancel_frame [OF s] b' CancelRequest have "w1 = v" "srv v = srv w"
        by (auto simp: prog_simps)
      with same show ?thesis by (intro startup_srv_same) simp
    next
      case GSSEncRequest
      with b' have "w1 = w\<lparr>startupq := rs\<rparr>" by (auto simp: prog_simps)
      with i' quiet show ?thesis by simp
    qed
  qed
qed

lemma handleStartup_srv:
  assumes contract: "parse_contract (ext_jwt_Parse ext) sig_ok"
    and run: "handleStartupMessage ext pc cb w0 = (out, w')"
  shows "startup_srv pc (srv w0) out (srv w')"
proof (rule startup.invariant [where I = "\<lambda>_. before_login pc w0" and Q = "\<lambda>out w. startup_srv pc (srv w0) out (srv w)",
      OF run [unfolded handleStartupMessage_def] before_login_refl])
  fix s w s' w1
  assume i: "before_login pc w0 w" and b: "startupRound ext pc s w = (Ret (Inl s'), w1)"
  from startupRound_cases [OF b] obtain rs where "startupq w = Inr SSLRequest # rs"
    "answerSSLRequest pc s (w\<lparr>startupq := rs\<rparr>) = (Ret (Inl s'), w1)" by blast
  with before_login_receive [OF i] show "before_login pc w0 w1" by (blast intro: before_login_ssl)
next
  fix s w w1
  assume i: "before_login pc w0 w"
  note round = startupRound_srv [OF contract i]
  show "startup_srv pc (srv w0) (Ret r) (srv w1)" if "startupRound ext pc s w = (Ret (Inr r), w1)" for r
    using round [OF that] by simp
  show "startup_srv pc (srv w0) Panic (srv w1)" if "startupRound ext pc s w = (Panic, w1)"
    using round [OF that] by simp
  show "startup_srv pc (srv w0) Exit (srv w1)" if "startupRound ext pc s w = (Exit, w1)"
    using round [OF that] by simp
  show "startup_srv pc (srv w0) Blocked (srv w1)" if "startupRound ext pc s w = (Blocked, w1)"
    using round [OF that] by simp
qed


section \<open>The teardown\<close>

definition ended_srv :: "nat \<Rightarrow> server_world \<Rightarrow> server_world" where
  "ended_srv pc v = (let v1 = change_conn pc (pc_poolConn_update give_back) v in
     case pc_key (heap v pc) of
       None \<Rightarrow> v1
     | Some k \<Rightarrow> v1\<lparr>activeConnections := delConn k (activeConnections v)\<rparr>)"

lemma teardown_srv_cases:
  assumes run: "teardown pc w = (q, w')"
  shows "srv w' = ended_srv pc (srv w) \<or> q \<noteq> Ret () \<and> srv w' = srv w"
proof (cases "pc_poolConn (heap (srv w) pc)")
  case NoPool
  then have "change_conn pc (pc_poolConn_update give_back) (srv w) = srv w"
    by (cases "heap (srv w) pc") (simp add: change_conn_def give_back_def fun_upd_idem)
  with NoPool run show ?thesis
    by (auto simp: teardown_def ended_srv_def getPC_def on_server_def unregisterConnection_eq prog_simps Let_def
        split: option.splits)
next
  case (Held p)
  show ?thesis
  proof (cases rule: fullReset_cases [of p "w\<lparr>client_open := False\<rparr>"])
    case (1 r eq xs)
    have "change_conn pc (pc_poolConn_update give_back) (srv w)
        = change_conn pc (pc_poolConn_update (\<lambda>_. Released p)) (srv w)"
      using Held by (intro change_conn_cong) (cases "heap (srv w) pc", simp add: give_back_def)
    with 1 Held run show ?thesis
      by (auto simp: teardown_def ended_srv_def change_conn_def getPC_def setPC_def on_server_def
          on_pools_def conn_Release_def unregisterConnection_eq prog_simps Let_def split: option.splits)
  next
    case (2 eq xs)
    with Held run show ?thesis by (auto simp: teardown_def getPC_def prog_simps)
  qed
next
  case (Released p)
  with run show ?thesis by (auto simp: teardown_def getPC_def prog_simps)
qed

lemma teardown_srv: "teardown pc w = (Ret (), w') \<Longrightarrow> srv w' = ended_srv pc (srv w)"
  using teardown_srv_cases by blast

lemma messageLoop_srv: "messageLoop pc cb w = (r, w') \<Longrightarrow> srv w' = srv w"
  using relatedD [OF messageLoop_le [of cb UNIV]] by (fastforce simp: relay_le_def)

text \<open>A whole run, however it ends.\<close>

lemma connection_body_srv:
  assumes contract: "parse_contract (ext_jwt_Parse ext) sig_ok"
    and run: "connection_body ext pc w = (r, w')"
  shows "\<exists>out. startup_srv pc (srv w) out (srv w')"
  using run
proof (cases rule: connection_body_cases)
  case (1 q w2)
  with handleStartup_srv [OF contract 1(1)] show ?thesis by blast
next
  case (2 cb w2)
  from handleStartup_srv [OF contract 2(1)] messageLoop_srv [OF 2(2)] show ?thesis by metis
qed

lemma handleConnection_srv_cases:
  assumes contract: "parse_contract (ext_jwt_Parse ext) sig_ok"
    and run: "handleConnection ext pc w = (out, w')"
  shows "\<exists>r v. startup_srv pc (srv w) r v \<and> (srv w' = v \<or> srv w' = ended_srv pc v)"
  using run
proof (cases rule: handleConnection_cases)
  case (1 r w1)
  with connection_body_srv [OF contract 1(1)] show ?thesis by blast
next
  case (2 r w1 q)
  with connection_body_srv [OF contract 2(1)] teardown_srv_cases [OF 2(4)] show ?thesis by metis
qed

text \<open>A whole run, when it returns.\<close>

lemma handleConnection_srv:
  assumes contract: "parse_contract (ext_jwt_Parse ext) sig_ok"
    and run: "handleConnection ext pc w = (Ret (), w')"
  shows "\<exists>r v. startup_srv pc (srv w) (Ret r) v \<and> srv w' = ended_srv pc v"
  using run
proof (cases rule: handleConnection_cases)
  case (1 r w1)
  then show ?thesis by auto
next
  case (2 r w1 q)
  from 2(5) have r: "r = Ret ()" and q: "q = Ret ()" by (cases "q = Ret ()"; simp)+
  have "\<exists>x. startup_srv pc (srv w) (Ret x) (srv w1)"
    using 2(1)
  proof (cases rule: connection_body_cases)
    case (1 out w2)
    with r obtain x where "out = Ret x" by (cases out) auto
    with handleStartup_srv [OF contract 1(1)] 1(3) show ?thesis by blast
  next
    case (2 cb w2)
    with handleStartup_srv [OF contract 2(1)] messageLoop_srv [OF 2(2)] show ?thesis by metis
  qed
  with teardown_srv [OF 2(4) [unfolded q]] show ?thesis by blast
qed

section \<open>The simulation\<close>

lemma view_heap: "view v s \<Longrightarrow> pc_poolConn (heap s n) = pc_poolConn (heap v n) \<and> pc_key (heap s n) = pc_key (heap v n)"
  by (simp add: view_def core_def)

lemma view_registry: "view v s \<Longrightarrow> activeConnections s = activeConnections v"
  by (simp add: view_def)

text \<open>The goroutine \<open>t\<close> has moved to the phase \<open>p\<close>, and nothing has panicked.\<close>

definition at_phase :: "nat \<Rightarrow> phase \<Rightarrow> life \<Rightarrow> life \<Rightarrow> bool" where
  "at_phase t p s s' \<longleftrightarrow> phase s' = (phase s)(t := p) \<and> \<not> crashed s'"

definition keyed :: "nat \<Rightarrow> (u32 \<times> u32) \<Rightarrow> life \<Rightarrow> life" where
  "keyed t k s = set_phase t Authenticated (set_conn t (pc_key_update (\<lambda>_. Some k)) s)"

definition acquired :: "nat \<Rightarrow> pool_conn \<Rightarrow> parameters \<Rightarrow> life \<Rightarrow> life" where
  "acquired t p params s = set_phase t Acquired (set_conn t (\<lambda>pc. pc\<lparr>pc_poolConn := Held p, pc_bf := Some p,
     pc_user := parameter params ''user'', pc_db := parameter params ''database'',
     pc_key := Some (pcPID p, pcSecret p)\<rparr>) (keyed t (0, 0) s))"

lemma keyed_step:
  assumes "\<not> crashed s" "phase s t = Fresh" and "view v s"
  shows "life_step s (keyed t k s) \<and> view (change_conn t (pc_key_update (\<lambda>_. Some k)) v) (keyed t k s)
    \<and> at_phase t Authenticated s (keyed t k s)"
  unfolding keyed_def using assms
  by (auto intro!: life_step.authenticate view_change simp: at_phase_def core_def)

lemma acquired_steps:
  assumes s: "\<not> crashed s" "phase s t = Fresh" and "view v s" and p: "available s p"
  shows "life_step\<^sup>*\<^sup>* s (acquired t p params s) \<and> view (session_srv t p params v) (acquired t p params s)
    \<and> at_phase t Acquired s (acquired t p params s)"
proof (intro conjI)
  have "available (keyed t (0, 0) s) p" using p by (auto simp: available_def keyed_def)
  then have "life_step (keyed t (0, 0) s) (acquired t p params s)"
    unfolding acquired_def using s by (intro life_step.acquire) (simp_all add: keyed_def)
  moreover have "life_step s (keyed t (0, 0) s)" using keyed_step [OF assms(1-3)] by blast
  ultimately show "life_step\<^sup>*\<^sup>* s (acquired t p params s)"
    by (rule converse_rtranclp_into_rtranclp [OF _ r_into_rtranclp, rotated])
qed (use assms in \<open>simp_all add: view_def core_def session_srv_def session_conn_def acquired_def keyed_def
    at_phase_def\<close>)

lemma registered_step:
  assumes s: "\<not> crashed s" "phase s t = Fresh" and "view v s"
    and es: "es = addConn (pcPID p, pcSecret p) t (activeConnections v)" "all_held es (session_srv t p params v)"
    and vw: "view (session_srv t p params v) (acquired t p params s)"
  shows "life_step (acquired t p params s)
    (set_phase t Registered ((acquired t p params s)\<lparr>activeConnections := es, crashed := False\<rparr>))"
proof -
  let ?s = "acquired t p params s"
  have reg: "addConn (pcPID p, pcSecret p) t (activeConnections ?s) = es"
    using view_registry [OF assms(3)] es(1) by (simp add: acquired_def keyed_def)
  have "all_held es ?s" using es(2) view_heap [OF vw] unfolding all_held_def by simp
  then have "registerConnection (pcPID p) (pcSecret p) t ?s = (Ret (), ?s\<lparr>activeConnections := es\<rparr>)"
    using reg by (simp add: registerConnection_eq Let_def all_held_def)
  moreover have "\<not> crashed ?s" "phase ?s t = Acquired" "pc_key (heap ?s t) = Some (pcPID p, pcSecret p)"
    using s by (simp_all add: acquired_def keyed_def)
  ultimately have "life_step ?s (set_phase t Registered ((?s\<lparr>activeConnections := es\<rparr>)\<lparr>crashed := (Ret () \<noteq> Ret ())\<rparr>))"
    by (intro life_step.register)
  then show ?thesis by simp
qed

lemma session_steps:
  assumes v: "view v s" and s: "\<not> crashed s" "phase s t = Fresh"
    and res: "session_result t v (Ret r) v'"
    and fresh_conn: "\<And>p. pc_poolConn (heap v' t) = Held p \<Longrightarrow> available s p"
  shows "\<exists>s' p. life_step\<^sup>*\<^sup>* s s' \<and> view v' s' \<and> at_phase t p s s'
    \<and> p \<in> {Fresh, Authenticated, Acquired, Registered}"
proof -
  from res consider "v' = v" | (key) k where "v' = change_conn t (pc_key_update (\<lambda>_. Some k)) v"
    | (held) p params where "v' = session_srv t p params v"
    | (reg) p params es where "es = addConn (pcPID p, pcSecret p) t (activeConnections v)"
      "v' = (session_srv t p params v)\<lparr>activeConnections := es\<rparr>" "all_held es (session_srv t p params v)"
    unfolding session_result_def Let_def by blast
  then show ?thesis
  proof cases
    case 1
    with v s show ?thesis by (intro exI [of _ s] exI [of _ Fresh]) (auto simp: at_phase_def)
  next
    case (key k)
    with keyed_step [OF s v, of k] show ?thesis
      by (intro exI [of _ "keyed t k s"] exI [of _ Authenticated]) auto
  next
    case (held p params)
    then have "available s p" by (intro fresh_conn) (simp add: session_srv_def session_conn_def)
    from acquired_steps [OF s v this, of params] held show ?thesis
      by (intro exI [of _ "acquired t p params s"] exI [of _ Acquired]) auto
  next
    case (reg p params es)
    let ?s = "acquired t p params s"
    let ?r = "set_phase t Registered (?s\<lparr>activeConnections := es, crashed := False\<rparr>)"
    have "available s p" using reg(2) by (intro fresh_conn) (simp add: session_srv_def session_conn_def)
    note a = acquired_steps [OF s v this, of params]
    with registered_step [OF s v reg(1,3)] have "life_step\<^sup>*\<^sup>* s ?r"
      by (blast intro: life_more)
    moreover have "view v' ?r" using a reg(2) by (simp add: view_def)
    ultimately show ?thesis using a
      by (intro exI [of _ ?r] exI [of _ Registered]) (auto simp: at_phase_def)
  qed
qed

lemma closing_steps:
  assumes v: "view v s" and s: "\<not> crashed s" "phase s t \<in> {Fresh, Authenticated, Acquired, Registered}"
  shows "\<exists>s'. life_step\<^sup>*\<^sup>* s s' \<and> view (ended_srv t v) s' \<and> at_phase t Gone s s'"
proof -
  let ?c = "set_phase t Closing s"
  let ?g = "set_phase t GivenBack (set_conn t (pc_poolConn_update give_back) ?c)"
  have "life_step s ?c" using s by (rule life_step.teardown)
  moreover have "life_step ?c ?g" using s by (intro life_step.release) simp_all
  ultimately have g: "life_step\<^sup>*\<^sup>* s ?g" by (meson r_into_rtranclp rtranclp.rtrancl_into_rtrancl)
  have vg: "view (change_conn t (pc_poolConn_update give_back) v) ?g"
    using v by (auto intro!: view_change simp: core_def)
  have key: "pc_key (heap ?g t) = pc_key (heap v t)" using view_heap [OF v, of t] by simp
  show ?thesis
  proof (cases "pc_key (heap v t)")
    case None
    with s key have "life_step ?g (set_phase t Gone ?g)" by (intro life_step.vanish) simp_all
    with g have "life_step\<^sup>*\<^sup>* s (set_phase t Gone ?g)" by (rule life_more)
    with vg None s show ?thesis
      by (intro exI [of _ "set_phase t Gone ?g"]) (auto simp: ended_srv_def at_phase_def Let_def)
  next
    case (Some k)
    let ?e = "?g\<lparr>activeConnections := delConn k (activeConnections ?g)\<rparr>"
    have "unregisterConnection (fst k) (snd k) t ?g = (Ret (), ?e)" by (simp add: unregisterConnection_eq)
    with s key Some have "life_step ?g (set_phase t Gone ?e)"
      by (intro life_step.unregister [where pid = "fst k" and sk = "snd k"]) simp_all
    with g have "life_step\<^sup>*\<^sup>* s (set_phase t Gone ?e)" by (rule life_more)
    moreover have "view (ended_srv t v) ?e"
      using vg Some view_registry [OF vg] view_registry [OF v] by (simp add: ended_srv_def Let_def view_def)
    ultimately show ?thesis using s by (intro exI [of _ "set_phase t Gone ?e"]) (auto simp: at_phase_def)
  qed
qed

text \<open>C11: The detailed code implements the step relation. Take a run of \<open>handleConnection\<close> that
  returns, and a state of the step relation with a fresh goroutine for it that agrees
  with the server before the run (the same registry, the same structs up to their
  sockets). If the pool connection the run was given is one that no other connection
  holds, then steps of this one goroutine lead from this state to one that agrees with
  the server after the run, in which the goroutine is gone and every other one is where
  it was. What is proved of all interleavings of steps so holds of the code.\<close>

theorem handleConnection_refines:
  assumes contract: "parse_contract (ext_jwt_Parse ext) sig_ok"
    and run: "handleConnection ext pc w = (Ret (), w')"
    and agree: "view (srv w) s" and s: "\<not> crashed s" "phase s pc = Fresh"
    and exclusive: "\<And>p. pc_poolConn (heap (srv w') pc) = Released p \<Longrightarrow> available s p"
  shows "\<exists>s'. life_step\<^sup>*\<^sup>* s s' \<and> view (srv w') s' \<and> phase s' = (phase s)(pc := Gone) \<and> \<not> crashed s'"
proof -
  from handleConnection_srv [OF contract run] obtain r v v0
    where v0: "v0 = srv w \<or> v0 = upgraded pc (srv w)" and res: "session_result pc v0 (Ret r) v"
      and w': "srv w' = ended_srv pc v" unfolding startup_srv_def by blast
  have agree0: "view v0 s" using v0 agree view_upgraded by blast
  have "available s p" if "pc_poolConn (heap v pc) = Held p" for p
    using that w' by (intro exclusive) (simp add: ended_srv_def give_back_def Let_def split: option.split)
  from session_steps [OF agree0 s res this] obtain s1 q
    where s1: "life_step\<^sup>*\<^sup>* s s1" "view v s1" "at_phase pc q s s1" "q \<in> {Fresh, Authenticated, Acquired, Registered}"
    by blast
  then have "\<not> crashed s1" "phase s1 pc \<in> {Fresh, Authenticated, Acquired, Registered}"
    by (auto simp: at_phase_def)
  from closing_steps [OF s1(2) this] obtain s2
    where "life_step\<^sup>*\<^sup>* s1 s2" "view (ended_srv pc v) s2" "at_phase pc Gone s1 s2" by blast
  with s1(1,3) w' show ?thesis
    by (intro exI [of _ s2]) (auto simp: at_phase_def intro: life_trans)
qed

end
