(* ===== verification/Wellformed.thy ===== *)
theory Wellformed
  imports Refinement
begin

text \<open>
  What every connection can rely on about the server's state, and that the code of one
  connection keeps it and stays within its own struct and its own key, however it ends.
\<close>

section \<open>A well-formed server\<close>

text \<open>The struct of a registered connection has its pool connection, and the key of it.\<close>

definition conn_typed :: "Connection \<Rightarrow> u64 \<Rightarrow> bool" where
  "conn_typed c k \<longleftrightarrow> (\<exists>p. pc_poolConn c = Held p \<and> pc_key c = Some (pcPID p, pcSecret p)
     \<and> k = makeCancelKey (pcPID p) (pcSecret p))"

definition server_wf :: "server_world \<Rightarrow> bool" where
  "server_wf v \<longleftrightarrow> distinct (map fst (activeConnections v))
     \<and> (\<forall>e\<in>set (activeConnections v). conn_typed (heap v (snd e)) (fst e))"

text \<open>Only the struct of \<open>t\<close> and the entry under its key change.\<close>

definition own_entry :: "server_world \<Rightarrow> nat \<Rightarrow> u64 \<Rightarrow> bool" where
  "own_entry v t k \<longleftrightarrow> (\<exists>pid sk. pc_key (heap v t) = Some (pid, sk) \<and> k = makeCancelKey pid sk)"

definition only_own :: "nat \<Rightarrow> server_world \<Rightarrow> server_world \<Rightarrow> bool" where
  "only_own t v v' \<longleftrightarrow> (\<forall>u. u \<noteq> t \<longrightarrow> heap v' u = heap v u)
     \<and> (\<forall>k. \<not> own_entry v' t k \<longrightarrow> map_of (activeConnections v') k = map_of (activeConnections v) k)
     \<and> srv_config v' = srv_config v \<and> srv_tlsConfig v' = srv_tlsConfig v"

section \<open>Single changes\<close>

lemma change_conn_config [simp]:
  "srv_config (change_conn t f v) = srv_config v" "srv_tlsConfig (change_conn t f v) = srv_tlsConfig v"
  by (simp_all add: change_conn_def)

lemma upgraded_change: "upgraded t v = change_conn t (pc_conn_update (\<lambda>_. TLSConn)) v"
  by (simp add: upgraded_def change_conn_def)

lemma conn_typed_core: "core c = core d \<Longrightarrow> conn_typed c k = conn_typed d k"
  by (simp add: conn_typed_def core_def)

text \<open>A connection without a pool connection has no entry, so its struct is free to change.\<close>

lemma unregistered:
  "server_wf v \<Longrightarrow> pc_poolConn (heap v t) = NoPool \<Longrightarrow> e \<in> set (activeConnections v) \<Longrightarrow> snd e \<noteq> t"
  by (auto simp: server_wf_def conn_typed_def)

lemma wf_change:
  assumes "server_wf v" and "pc_poolConn (heap v t) = NoPool"
  shows "server_wf (change_conn t f v)"
  using assms unregistered [OF assms] by (auto simp: server_wf_def)

lemma wf_upgraded:
  assumes "server_wf v"
  shows "server_wf (upgraded t v)"
proof -
  have "conn_typed (heap (upgraded t v) n) k = conn_typed (heap v n) k" for n k
    by (rule conn_typed_core) (simp add: upgraded_change core_def)
  with assms show ?thesis by (simp add: server_wf_def upgraded_def)
qed

lemma wf_add:
  assumes "server_wf v" and "conn_typed (heap v t) (makeCancelKey (fst k) (snd k))"
  shows "server_wf (v\<lparr>activeConnections := addConn k t (activeConnections v)\<rparr>)"
  using assms set_addConn [of k t "activeConnections v"]
  by (auto simp: server_wf_def distinct_addConn)

lemma only_own_change: "only_own t v (change_conn t f v)"
  by (simp add: only_own_def)

lemma only_own_trans:
  assumes "only_own t u v" and "only_own t v w" and "\<And>k. own_entry v t k \<Longrightarrow> own_entry w t k"
  shows "only_own t u w"
  using assms unfolding only_own_def by metis

lemma map_of_addConn: "k' \<noteq> makeCancelKey (fst k) (snd k) \<Longrightarrow> map_of (addConn k t m) k' = map_of m k'"
  by (simp add: addConn_def update_conv')

lemma map_of_delConn: "k' \<noteq> makeCancelKey (fst k) (snd k) \<Longrightarrow> map_of (delConn k m) k' = map_of m k'"
  by (simp add: delConn_def delete_conv')

section \<open>A whole connection\<close>

text \<open>The state of the connection's struct between start-up and teardown.\<close>

definition conn_shape :: "Connection \<Rightarrow> bool" where
  "conn_shape c \<longleftrightarrow> pc_poolConn c = NoPool
     \<or> (\<exists>p. pc_poolConn c = Held p \<and> pc_key c = Some (pcPID p, pcSecret p))"

lemma session_wf:
  assumes wf: "server_wf v" and n: "pc_poolConn (heap v t) = NoPool" and res: "session_result t v out v'"
  shows "server_wf v' \<and> only_own t v v' \<and> conn_shape (heap v' t)"
proof -
  from res consider "v' = v" | (key) k where "v' = change_conn t (pc_key_update (\<lambda>_. Some k)) v"
    | (held) p params where "v' = session_srv t p params v"
    | (reg) p params where "v' = (session_srv t p params v)\<lparr>activeConnections :=
        addConn (pcPID p, pcSecret p) t (activeConnections v)\<rparr>"
    unfolding session_result_def Let_def by blast
  then show ?thesis
  proof cases
    case 1
    with wf n show ?thesis by (simp add: only_own_def conn_shape_def)
  next
    case (key k)
    with wf_change [OF wf n] only_own_change n show ?thesis by (simp add: conn_shape_def)
  next
    case (held p params)
    with wf_change [OF wf n] only_own_change n show ?thesis
      by (simp add: conn_shape_def session_srv_def session_conn_def)
  next
    case (reg p params)
    let ?v = "session_srv t p params v"
    have shape: "pc_poolConn (heap ?v t) = Held p" "pc_key (heap ?v t) = Some (pcPID p, pcSecret p)"
      by (simp_all add: session_srv_def session_conn_def)
    have "server_wf ?v" unfolding session_srv_def by (rule wf_change [OF wf n])
    with shape have "server_wf (?v\<lparr>activeConnections := addConn (pcPID p, pcSecret p) t (activeConnections ?v)\<rparr>)"
      by (intro wf_add) (simp_all add: conn_typed_def)
    moreover have "only_own t ?v v'" using shape unfolding reg
      by (auto simp: only_own_def own_entry_def session_srv_def intro!: map_of_addConn)
    moreover have "own_entry v' t k" if "own_entry ?v t k" for k
      using that reg by (simp add: own_entry_def)
    moreover have "only_own t v ?v" unfolding session_srv_def by (rule only_own_change)
    ultimately show ?thesis using shape reg
      by (auto simp: conn_shape_def session_srv_def intro: only_own_trans [of t v ?v])
  qed
qed

lemma startup_wf:
  assumes wf: "server_wf v0" and n: "pc_poolConn (heap v0 t) = NoPool" and res: "startup_srv t v0 out v'"
  shows "server_wf v' \<and> only_own t v0 v' \<and> conn_shape (heap v' t)"
proof -
  from res obtain v where v: "v = v0 \<or> v = upgraded t v0" and s: "session_result t v out v'"
    unfolding startup_srv_def by blast
  have "server_wf v" "pc_poolConn (heap v t) = NoPool"
    using v wf n wf_upgraded [OF wf] by (auto simp: upgraded_change)
  from session_wf [OF this s] have r: "server_wf v'" "only_own t v v'" "conn_shape (heap v' t)" by simp_all
  moreover have "only_own t v0 v'" using v
  proof
    assume u: "v = upgraded t v0"
    then have "activeConnections v = activeConnections v0" "srv_config v = srv_config v0"
      "srv_tlsConfig v = srv_tlsConfig v0" "\<And>u. u \<noteq> t \<Longrightarrow> heap v u = heap v0 u"
      by (simp_all add: upgraded_change)
    with r(2) show ?thesis by (simp add: only_own_def)
  qed (use r(2) in simp)
  ultimately show ?thesis by simp
qed

lemma ended_wf:
  assumes wf: "server_wf v" and shape: "conn_shape (heap v t)"
  shows "server_wf (ended_srv t v) \<and> only_own t v (ended_srv t v)"
proof (cases "pc_key (heap v t)")
  case None
  with shape have n: "pc_poolConn (heap v t) = NoPool" by (auto simp: conn_shape_def)
  with None wf_change [OF wf n] only_own_change show ?thesis by (simp add: ended_srv_def Let_def)
next
  case (Some k)
  have gone: "snd e \<noteq> t" if "e \<in> set (delConn k (activeConnections v))" for e
  proof
    assume t: "snd e = t"
    from that have "e \<in> set (activeConnections v)" "fst e \<noteq> makeCancelKey (fst k) (snd k)"
      by (simp_all add: set_delConn)
    moreover from this wf have "conn_typed (heap v (snd e)) (fst e)" by (simp add: server_wf_def)
    ultimately show False using t Some by (auto simp: conn_typed_def)
  qed
  have "server_wf (ended_srv t v)"
    using wf Some gone
    by (auto simp: ended_srv_def Let_def server_wf_def distinct_delConn set_delConn)
  moreover have "only_own t v (ended_srv t v)"
    using Some by (cases k) (auto simp: ended_srv_def Let_def only_own_def own_entry_def intro!: map_of_delConn)
  ultimately show ?thesis by simp
qed

lemma ended_own: "own_entry v t k \<Longrightarrow> own_entry (ended_srv t v) t k"
  by (auto simp: own_entry_def ended_srv_def Let_def split: option.split)

lemma handleConnection_wf:
  assumes "parse_contract (ext_jwt_Parse ext) sig_ok"
    and "server_wf (srv w)" and "pc_poolConn (heap (srv w) pc) = NoPool"
    and "handleConnection ext pc w = (out, w')"
  shows "server_wf (srv w') \<and> only_own pc (srv w) (srv w')"
proof -
  from handleConnection_srv_cases [OF assms(1,4)] obtain r v
    where s: "startup_srv pc (srv w) r v" and e: "srv w' = v \<or> srv w' = ended_srv pc v" by blast
  note v = startup_wf [OF assms(2,3) s]
  from e show ?thesis
  proof
    assume "srv w' = ended_srv pc v"
    with v ended_wf [of v pc] ended_own show ?thesis by (auto intro: only_own_trans [of pc "srv w" v])
  qed (use v in simp)
qed

text \<open>C12: Every connection keeps the server's state well-formed and minds its own business. Let each
  entry of the registry be that of a connection which holds a pool connection with this
  key, and each key occur once. Then this holds again after a connection was handled,
  however it ended (a normal end, an error, a panic, a hang for ever); no struct of another
  connection has changed, the registry has changed at most under the connection's own key,
  and the configuration is the same.\<close>

theorem handleConnection_keeps_server_wf:
  assumes "parse_contract (ext_jwt_Parse ext) sig_ok"
    and "server_wf (srv w)" and "pc_poolConn (heap (srv w) pc) = NoPool"
    and "handleConnection ext pc w = (out, w')"
  shows "server_wf (srv w') \<and> only_own pc (srv w) (srv w')"
  using assms by (rule handleConnection_wf)

end
