(* ===== verification/Serve.thy ===== *)
theory Serve
  imports Wellformed
begin

text \<open>
  A client that is served from its first byte to its last: with a login PostgreSQL accepts, a
  pool connection and no failing write, every part of \<open>handleConnection\<close> returns, and what
  goes over each socket is a function of what came in.
\<close>

section \<open>Sockets that can be written to\<close>

definition wrote :: "'o list \<Rightarrow> ('i, 'o) endpoint \<Rightarrow> ('i, 'o) endpoint" where
  "wrote ms e = e\<lparr>outq := outq e @ ms, tries := tries e + length ms\<rparr>"

lemma wrote_sel [simp]:
  "outq (wrote ms e) = outq e @ ms" "inq (wrote ms e) = inq e" "wok (wrote ms e) = wok e"
  by (simp_all add: wrote_def)

lemma wrote_Nil [simp]: "wrote [] e = e"
  by (simp add: wrote_def)

lemma wrote_wrote [simp]: "wrote ms (wrote ms' e) = wrote (ms' @ ms) e"
  by (simp add: wrote_def)

lemma wrote_inq [simp]: "(wrote ms e)\<lparr>inq := q\<rparr> = wrote ms (e\<lparr>inq := q\<rparr>)"
  by (simp add: wrote_def)

lemma clientSend_ok:
  "\<forall>n. wok (client w) n \<Longrightarrow> clientSend cb m w = (Ret (Inr ()), w\<lparr>client := wrote [(cb, m)] (client w)\<rparr>)"
  by (simp add: auth_io ep_send_def prog_simps wrote_def)

lemma tempSend_ok:
  "\<forall>n. wok (temp w) n \<Longrightarrow> tempSend m w = (Ret (Inr ()), w\<lparr>temp := wrote [m] (temp w)\<rparr>)"
  by (simp add: auth_io ep_send_def prog_simps wrote_def)

lemma tempReceive_ok:
  "inq (temp w) = r # rs \<Longrightarrow> tempReceive w = (Ret r, w\<lparr>temp := (temp w)\<lparr>inq := rs\<rparr>\<rparr>)"
  by (simp add: auth_io ep_recv_def prog_simps)

section \<open>The login loop\<close>

lemma same_links [simp]:
  fixes w :: "'a auth_world_scheme"
  shows "w\<lparr>client := client w\<rparr> = w" "w\<lparr>temp := temp w\<rparr> = w"
  by (cases w, simp)+

lemma authMessage_ok:
  assumes "\<forall>n. wok (client w) n" and "\<forall>n. wok (temp w) n"
    and "login_reply sn ss u p vars m = Some (out, vars')"
  shows "authMessage sn ss cb u p vars m w = (Ret (Inl vars'),
    w\<lparr>client := wrote (if forwarded m then [(cb, Msg m)] else []) (client w), temp := wrote out (temp w)\<rparr>)"
proof -
  obtain conv k where vars: "vars = (conv, k)" by (cases vars)
  note ok = clientSend_ok [OF assms(1)] tempSend_ok [OF assms(2)]
  show ?thesis
  proof (cases m)
    case (AuthenticationSASL mechanisms)
    with assms(3) vars show ?thesis
      by (auto simp: authMessage_def login_reply_def ok prog_simps split: if_splits sum.splits prod.splits)
  next
    case (AuthenticationSASLContinue data)
    with assms(3) vars show ?thesis
      by (auto simp: authMessage_def login_reply_def ok prog_simps split: option.splits sum.splits prod.splits)
  next
    case (AuthenticationSASLFinal data)
    with assms(3) vars show ?thesis
      by (auto simp: authMessage_def login_reply_def ok prog_simps split: option.splits sum.splits prod.splits)
  qed (use assms(3) vars in \<open>auto simp: authMessage_def login_reply_def ok prog_simps\<close>)
qed

lemma login_loop_ok:
  assumes "\<forall>n. wok (client w) n" and "\<forall>n. wok (temp w) n"
    and "inq (temp w) = map Inr (ms @ [ReadyForQuery c]) @ mores"
    and "login_script sn ss u p vars ms = Some (outs, conv, k)"
  shows "forLoop tempPending (authRound sn ss cb u p) vars w = (Ret (Inr k),
    w\<lparr>client := wrote (map (\<lambda>m. (cb, Msg m)) (filter forwarded ms)) (client w),
      temp := wrote outs ((temp w)\<lparr>inq := mores\<rparr>)\<rparr>)"
  using assms
proof (induction ms arbitrary: w vars outs)
  case Nil
  then have "authRound sn ss cb u p vars w = (Ret (Inr (Inr k)), w\<lparr>temp := (temp w)\<lparr>inq := mores\<rparr>\<rparr>)"
    by (simp add: authRound_def tempReceive_ok authMessage_def prog_simps)
  with Nil.prems(4) show ?case by (subst login.unfold) (simp add: prog_simps)
next
  case (Cons m ms)
  from Cons.prems(4) obtain out vars' outs' where m: "login_reply sn ss u p vars m = Some (out, vars')"
    and ms: "login_script sn ss u p vars' ms = Some (outs', conv, k)" and outs: "outs = out @ outs'"
    by (auto split: option.splits prod.splits)
  let ?w0 = "w\<lparr>temp := (temp w)\<lparr>inq := map Inr (ms @ [ReadyForQuery c]) @ mores\<rparr>\<rparr>"
  let ?w1 = "?w0\<lparr>client := wrote (if forwarded m then [(cb, Msg m)] else []) (client ?w0), temp := wrote out (temp ?w0)\<rparr>"
  have "tempReceive w = (Ret (Inr m), ?w0)" using Cons.prems(3) by (simp add: tempReceive_ok)
  moreover have "authMessage sn ss cb u p vars m ?w0 = (Ret (Inl vars'), ?w1)"
    by (rule authMessage_ok [OF _ _ m]) (use Cons.prems(1,2) in simp_all)
  ultimately have "authRound sn ss cb u p vars w = (Ret (Inl vars'), ?w1)"
    by (simp add: authRound_def prog_simps)
  then have "forLoop tempPending (authRound sn ss cb u p) vars w
      = forLoop tempPending (authRound sn ss cb u p) vars' ?w1"
    by (subst login.unfold) (simp add: prog_simps)
  also have "\<dots> = (Ret (Inr k), ?w1\<lparr>client := wrote (map (\<lambda>m. (cb, Msg m)) (filter forwarded ms)) (client ?w1),
      temp := wrote outs' ((temp ?w1)\<lparr>inq := mores\<rparr>)\<rparr>)"
    by (rule Cons.IH [OF _ _ _ ms]) (use Cons.prems(1,2) in simp_all)
  finally show ?case by (simp add: outs)
qed

text \<open>The world in which the password has been asked for and received.\<close>

definition asked :: "transport \<Rightarrow> string \<Rightarrow> (error + FrontendMessage) list \<Rightarrow> 'a auth_world_scheme \<Rightarrow> 'a auth_world_scheme" where
  "asked cb host rest w = w\<lparr>dials := dials w @ [JoinHostPort host ''5432''], temp_open := True,
     client := wrote [(cb, Msg AuthenticationCleartextPassword)] ((client w)\<lparr>inq := rest\<rparr>)\<rparr>"

lemma requestPassword_ok:
  assumes "\<forall>n. wok (client w) n" and "inq (client w) = Inr (PasswordMessage pw) # rest"
  shows "requestPasswordFromClient cb w = (Ret (Inr pw),
    w\<lparr>client := wrote [(cb, Msg AuthenticationCleartextPassword)] ((client w)\<lparr>inq := rest\<rparr>)\<rparr>)"
  using assms by (simp add: requestPasswordFromClient_def clientSend_ok clientReceive_def ep_recv_def prog_simps)

lemma AuthenticateUser_ok:
  assumes contract: "parse_contract jwt_Parse sig_ok"
    and dial: "dial_ok w (length (dials w))" and wok: "\<forall>n. wok (client w) n" "\<forall>n. wok (temp w) n"
    and pw: "inq (client w) = Inr (PasswordMessage pw) # rest"
    and login: "chooseLogin ul jwt_Parse user pw (asked cb host rest w) = (Ret (Inr (u, p)), v)"
    and msgs: "inq (temp w) = map Inr (ms @ [ReadyForQuery c]) @ mores"
    and script: "login_script sn ss u p (None, None) ms = Some (outs, conv, Some keyData)"
  shows "AuthenticateUser ul jwt_Parse sn ss user host params cb w = (Ret (Inr keyData),
    v\<lparr>client := wrote (map (\<lambda>m. (cb, Msg m)) (filter forwarded ms)) (client v),
      temp := wrote (SendStartup (params(''user'' \<mapsto> u)) # outs) ((temp v)\<lparr>inq := mores\<rparr>), temp_open := False\<rparr>)"
proof -
  let ?w0 = "w\<lparr>dials := dials w @ [JoinHostPort host ''5432''], temp_open := True\<rparr>"
  have req: "requestPasswordFromClient cb ?w0 = (Ret (Inr pw), asked cb host rest w)"
    using requestPassword_ok [of ?w0 pw rest cb] wok pw by (simp add: asked_def)
  from chooseLogin_client [OF contract login]
  have v: "client v = client (asked cb host rest w)" "temp v = temp w" by (simp_all add: asked_def)
  let ?v1 = "v\<lparr>temp := wrote [SendStartup (params(''user'' \<mapsto> u))] (temp v)\<rparr>"
  have send: "tempSend (SendStartup (params(''user'' \<mapsto> u))) v = (Ret (Inr ()), ?v1)"
    using wok v by (intro tempSend_ok) simp
  have loop: "authenticateWithBackend sn ss cb u p ?v1 = (Ret (Inr (Some keyData)),
    ?v1\<lparr>client := wrote (map (\<lambda>m. (cb, Msg m)) (filter forwarded ms)) (client ?v1),
      temp := wrote outs ((temp ?v1)\<lparr>inq := mores\<rparr>)\<rparr>)"
    unfolding authenticateWithBackend_def
    by (rule login_loop_ok [OF _ _ _ script]) (use wok v msgs in \<open>simp_all add: asked_def\<close>)
  have "authenticateOnTemp ul jwt_Parse sn ss user params cb ?w0 = (Ret (Inr keyData),
    v\<lparr>client := wrote (map (\<lambda>m. (cb, Msg m)) (filter forwarded ms)) (client v),
      temp := wrote (SendStartup (params(''user'' \<mapsto> u)) # outs) ((temp v)\<lparr>inq := mores\<rparr>)\<rparr>)"
    using req login send loop by (simp add: authenticateOnTemp_def Let_def prog_simps)
  with dial show ?thesis by (simp add: AuthenticateUser_def DialTimeout_def prog_simps)
qed


section \<open>The start-up phase\<close>

lemma connectBackend_ok:
  assumes "AcquireConnection user database (connectionString w database) (poolw w) = (Ret (Inr p), q)"
  shows "connectBackend pc database user w = (Ret (Inr ()), w\<lparr>poolw := q, srv := with_pool_conn pc p (srv w)\<rparr>)"
proof -
  obtain out w' where c: "connectBackend pc database user w = (out, w')" by fastforce
  then show ?thesis by (cases rule: connectBackend_cases) (use assms c in auto)
qed

text \<open>The world of a session that has just been announced and registered.\<close>

definition in_session :: "nat \<Rightarrow> pool_conn \<Rightarrow> parameters \<Rightarrow> pool_world \<Rightarrow> transport \<Rightarrow>
    'a proxy_world_scheme \<Rightarrow> 'a proxy_world_scheme" where
  "in_session pc p params q cb w = w\<lparr>srv := (session_srv pc p params (srv w))\<lparr>activeConnections :=
       addConn (pcPID p, pcSecret p) pc (activeConnections (srv w))\<rparr>, poolw := q,
     client := wrote [(cb, Msg (BackendKeyData (pcPID p) (pcSecret p))), (cb, Msg (ReadyForQuery (CHR ''I'')))]
       (client w)\<rparr>"

lemma register_ok:
  assumes "server_wf v" and "pc_poolConn (heap v pc) = NoPool"
  shows "registerConnection (pcPID p) (pcSecret p) pc (session_srv pc p params v) = (Ret (),
    (session_srv pc p params v)\<lparr>activeConnections := addConn (pcPID p, pcSecret p) pc (activeConnections v)\<rparr>)"
proof -
  let ?v = "session_srv pc p params v"
  have held: "pc_poolConn (heap ?v pc) = Held p" by (simp add: session_srv_def session_conn_def)
  have "is_Held (pc_poolConn (heap ?v (snd e)))" if "e \<in> set (addConn (pcPID p, pcSecret p) pc (activeConnections v))" for e
  proof (cases "snd e = pc")
    case True
    with held show ?thesis by (simp add: is_Held_def)
  next
    case False
    with that set_addConn [of "(pcPID p, pcSecret p)" pc "activeConnections v"]
    have "e \<in> set (activeConnections v)" by auto
    with assms(1) False show ?thesis
      by (auto simp: server_wf_def conn_typed_def session_srv_def is_Held_def)
  qed
  then show ?thesis by (simp add: registerConnection_eq Let_def session_srv_def)
qed

lemma startSession_ok:
  assumes contract: "parse_contract (ext_jwt_Parse ext) sig_ok"
    and au: "AuthenticateUser (ext_lower ext) (ext_jwt_Parse ext) (ext_scram_new ext) (ext_scram_step ext)
      (parameter params ''user'') (DBHost (srv_config (srv w))) params cb w = (Ret (Inr keyData), w1)"
    and acq: "AcquireConnection (parameter params ''user'') (parameter params ''database'')
      (connectionString w (parameter params ''database'')) (poolw w) = (Ret (Inr p), q)"
    and wf: "server_wf (srv w)" "pc_poolConn (heap (srv w) pc) = NoPool" and wok: "\<forall>n. wok (client w1) n"
  shows "startSession ext pc cb params w = (Ret (Inr cb), in_session pc p params q cb w1)"
proof -
  let ?user = "parameter params ''user''" and ?db = "parameter params ''database''"
  note same = Authenticate_proxy [OF contract au]
  let ?w2 = "srv_update (heap_update (\<lambda>h. h(pc := (h pc)\<lparr>pc_key := Some keyData\<rparr>))) w1"
  let ?w3 = "?w2\<lparr>poolw := q, srv := with_pool_conn pc p (srv ?w2)\<rparr>"
  have "AcquireConnection ?user ?db (connectionString ?w2 ?db) (poolw ?w2) = (Ret (Inr p), q)"
    using acq same by (simp add: connectionString_def)
  from connectBackend_ok [OF this] have cb: "connectBackend pc ?db ?user ?w2 = (Ret (Inr ()), ?w3)" .
  let ?w4 = "snd (setPC pc (\<lambda>c. c\<lparr>pc_bf := Some p, pc_user := ?user, pc_db := ?db,
      pc_key := Some (pcPID p, pcSecret p)\<rparr>) ?w3)"
  have w4: "srv ?w4 = session_srv pc p params (srv w)" "client ?w4 = client w1"
    using same by (simp_all add: setPC_def modify_def with_pool_conn_def session_srv_def change_conn_def
      session_conn_def comp_def)
  have run: "startSession ext pc cb params w =
      ifErr (clientSend cb (Msg (BackendKeyData (pcPID p) (pcSecret p))))
        (\<lambda>_. ret (Inl (Err ''failed to send backend key data''))) (\<lambda>_.
      ifErr (clientSend cb (Msg (ReadyForQuery (CHR ''I''))))
        (\<lambda>_. ret (Inl (Err ''failed to send ready for query''))) (\<lambda>_.
      andThen (on_server (registerConnection (pcPID p) (pcSecret p) pc)) (\<lambda>_.
      ret (Inr cb)))) ?w4"
    using au cb by (simp add: startSession_def Let_def setPC_def getPC_def with_pool_conn_def prog_simps)
  have "?w4 = w1\<lparr>srv := session_srv pc p params (srv w), poolw := q\<rparr>"
    using same by (simp add: setPC_def modify_def with_pool_conn_def session_srv_def change_conn_def
      session_conn_def comp_def)
  then show ?thesis
    using run wok register_ok [OF wf, of p params] same
    by (simp add: clientSend_ok on_server_def prog_simps in_session_def)
qed

lemma handleStartup_session:
  assumes "startupq w = Inr (StartupMessage params) # rs"
    and "startSession ext pc cb params (w\<lparr>startupq := rs\<rparr>) = (Ret (Inr cb'), w')"
  shows "handleStartupMessage ext pc cb w = (Ret (Inr cb'), w')"
proof -
  have "startupRound ext pc cb w = (Ret (Inr (Inr cb')), w')"
    using assms by (simp add: startupRound_def ReceiveStartupMessage_def prog_simps)
  then show ?thesis unfolding handleStartupMessage_def by (subst startup.unfold) (simp add: prog_simps)
qed

text \<open>The world after an SSLRequest that was answered with TLS.\<close>

definition tls_world :: "nat \<Rightarrow> 'a proxy_world_scheme \<Rightarrow> 'a proxy_world_scheme" where
  "tls_world pc w = w\<lparr>startupq := tl (startupq w), srv := upgraded pc (srv w), handshakeq := tl (handshakeq w),
     client := wrote [(pc_conn (heap (srv w) pc), RawByte (CHR ''S''))] (client w)\<rparr>"

lemma handleStartup_after_ssl:
  assumes "startupq w = Inr SSLRequest # rs" and "srv_tlsConfig (srv w)"
    and "handshakeq w = Inr () # hs" and "\<forall>n. wok (client w) n"
  shows "handleStartupMessage ext pc cb w = handleStartupMessage ext pc TLSConn (tls_world pc w)"
proof -
  have "startupRound ext pc cb w = (Ret (Inl TLSConn), tls_world pc w)"
    using assms by (simp add: startupRound_def ReceiveStartupMessage_def answerSSLRequest_def getPC_def setPC_def
      clientSend_ok Handshake_def upgraded_def tls_world_def prog_simps)
  then show ?thesis unfolding handleStartupMessage_def by (subst startup.unfold) (simp add: prog_simps)
qed


section \<open>The teardown\<close>

lemma Exec_ok:
  "execq w = r # rs \<Longrightarrow> Exec (Held p) sql w = (Ret r, w\<lparr>execq := rs, execs := execs w @ [sql]\<rparr>)"
  by (simp add: Exec_def PgConn_def prog_simps)

lemma teardown_returns:
  assumes "pc_poolConn (heap (srv w) pc) = Held p" and "execq w = r1 # r2 # es"
  shows "\<exists>w'. teardown pc w = (Ret (), w') \<and> temp w' = temp w"
proof -
  have "fst (fullResetBeforeRelease (Held p) (w\<lparr>client_open := False\<rparr>)) \<noteq> Blocked"
    using assms(2) by (cases r1; cases r2) (simp_all add: fullResetBeforeRelease_def Exec_ok prog_simps)
  then show ?thesis
  proof (cases rule: fullReset_cases [of p "w\<lparr>client_open := False\<rparr>"])
    case (1 r eq xs)
    obtain out w' where t: "teardown pc w = (out, w')" by fastforce
    with 1 assms(1) have "out = Ret () \<and> temp w' = temp w"
      by (auto simp: teardown_def getPC_def setPC_def on_server_def on_pools_def conn_Release_def
          unregisterConnection_eq prog_simps split: option.splits)
    with t show ?thesis by blast
  qed simp
qed


section \<open>A whole connection\<close>

text \<open>
  The three ways to a start-up message: at once, after an SSLRequest to a proxy without TLS, and
  over TLS; what the client is answered before it, and the transport behind it.
\<close>

datatype way_in = Direct | Refused | Upgraded

fun greeting :: "way_in \<Rightarrow> (transport \<times> client_out) list" where
  "greeting Direct = []"
| "greeting Refused = [(PlainTCP, RawByte (CHR ''N''))]"
| "greeting Upgraded = [(PlainTCP, RawByte (CHR ''S''))]"

fun carrier :: "way_in \<Rightarrow> transport" where
  "carrier Upgraded = TLSConn"
| "carrier _ = PlainTCP"

fun opens :: "way_in \<Rightarrow> parameters \<Rightarrow> 'a proxy_world_scheme \<Rightarrow> bool" where
  "opens Direct params w = (take 1 (startupq w) = [Inr (StartupMessage params)])"
| "opens Refused params w = (take 2 (startupq w) = [Inr SSLRequest, Inr (StartupMessage params)]
     \<and> \<not> srv_tlsConfig (srv w))"
| "opens Upgraded params w = (take 2 (startupq w) = [Inr SSLRequest, Inr (StartupMessage params)]
     \<and> srv_tlsConfig (srv w) \<and> take 1 (handshakeq w) = [Inr ()])"

text \<open>The world in which the start-up message is read.\<close>

fun opened :: "way_in \<Rightarrow> nat \<Rightarrow> 'a proxy_world_scheme \<Rightarrow> 'a proxy_world_scheme" where
  "opened Direct pc w = w"
| "opened Refused pc w = w\<lparr>startupq := tl (startupq w), client := wrote (greeting Refused) (client w)\<rparr>"
| "opened Upgraded pc w = tls_world pc w"

lemma take1_iff: "take (Suc 0) xs = [x] \<longleftrightarrow> (\<exists>rs. xs = x # rs)"
  by (cases xs) auto

lemma take2_iff: "take 2 xs = [x, y] \<longleftrightarrow> (\<exists>rs. xs = x # y # rs)"
  by (cases xs; cases "tl xs") (auto simp: numeral_2_eq_2)

lemma opened_keeps:
  assumes "opens op params w" and "pc_conn (heap (srv w) pc) = PlainTCP"
  shows "\<exists>rs. startupq (opened op pc w) = Inr (StartupMessage params) # rs"
    and "client (opened op pc w) = wrote (greeting op) (client w)"
    and "temp (opened op pc w) = temp w" "poolw (opened op pc w) = poolw w" "dials (opened op pc w) = dials w"
    and "backend (opened op pc w) = backend w" "execq (opened op pc w) = execq w" "dial_ok (opened op pc w) = dial_ok w"
    and "srv (opened op pc w) = srv w \<or> srv (opened op pc w) = upgraded pc (srv w)"
    and "srv_config (srv (opened op pc w)) = srv_config (srv w)"
  using assms by - (cases op; auto simp: tls_world_def upgraded_def take1_iff take2_iff)+

lemma handleStartup_opened:
  assumes "opens op params w" and "pc_conn (heap (srv w) pc) = PlainTCP" and "\<forall>n. wok (client w) n"
  shows "handleStartupMessage ext pc PlainTCP w = handleStartupMessage ext pc (carrier op) (opened op pc w)"
proof (cases op)
  case Refused
  with assms(1) obtain rs where "startupq w = Inr SSLRequest # rs" "\<not> srv_tlsConfig (srv w)"
    by (auto simp: take2_iff)
  with Refused assms(2,3) have "startupRound ext pc PlainTCP w = (Ret (Inl PlainTCP), opened op pc w)"
    by (simp add: startupRound_def ReceiveStartupMessage_def answerSSLRequest_def getPC_def clientSend_ok prog_simps)
  with Refused show ?thesis unfolding handleStartupMessage_def by (subst startup.unfold) (simp add: prog_simps)
next
  case Upgraded
  with assms(1) obtain rs hs where "startupq w = Inr SSLRequest # rs" "srv_tlsConfig (srv w)"
    "handshakeq w = Inr () # hs" by (auto simp: take1_iff take2_iff)
  with Upgraded handleStartup_after_ssl [OF this assms(3)] show ?thesis by simp
qed simp

text \<open>The world in which \<open>AuthenticateUser\<close> has the password of a client.\<close>

definition password_world :: "way_in \<Rightarrow> nat \<Rightarrow> (error + FrontendMessage) list \<Rightarrow> 'a proxy_world_scheme \<Rightarrow> 'a proxy_world_scheme" where
  "password_world op pc rest w = asked (carrier op) (DBHost (srv_config (srv w))) rest
     ((opened op pc w)\<lparr>startupq := tl (startupq (opened op pc w))\<rparr>)"

text \<open>What the client is sent: the answer to its SSLRequest in clear, then over the transport
  that it opened the password request, PostgreSQL's messages \<open>ms\<close> of the login as far as they are
  forwarded, the key of the session, and the answers.\<close>

definition served :: "way_in \<Rightarrow> BackendMessage list \<Rightarrow> pool_conn \<Rightarrow> BackendMessage list \<Rightarrow> (transport \<times> client_out) list" where
  "served op ms p answers = greeting op @ map (\<lambda>m. (carrier op, Msg m))
     (AuthenticationCleartextPassword # filter forwarded ms
      @ [BackendKeyData (pcPID p) (pcSecret p), ReadyForQuery (CHR ''I'')] @ answers)"

text \<open>Start-up and login.\<close>

lemma startup_ok:
  assumes contract: "parse_contract (ext_jwt_Parse ext) sig_ok"
    and conn: "pc_conn (heap (srv w) pc) = PlainTCP" "pc_poolConn (heap (srv w) pc) = NoPool" "server_wf (srv w)"
    and wok: "\<forall>n. wok (client w) n" "\<forall>n. wok (temp w) n"
    and start: "opens op params w" "dial_ok w (length (dials w))"
    and pw: "inq (client w) = Inr (PasswordMessage pw) # rest"
    and login: "chooseLogin (ext_lower ext) (ext_jwt_Parse ext) (parameter params ''user'') pw
      (password_world op pc rest w) = (Ret (Inr (u, p)), v)"
    and msgs: "inq (temp w) = map Inr (ms @ [ReadyForQuery c]) @ mores"
    and script: "login_script (ext_scram_new ext) (ext_scram_step ext) u p (None, None) ms
      = Some (outs, conv, Some keyData)"
    and acq: "AcquireConnection (parameter params ''user'') (parameter params ''database'')
      (connectionString w (parameter params ''database'')) (poolw w) = (Ret (Inr pconn), q)"
  shows "\<exists>w'. handleStartupMessage ext pc PlainTCP w = (Ret (Inr (carrier op)), w')
    \<and> heap (srv w') pc = session_conn pconn params (heap (srv (opened op pc w)) pc) \<and> poolw w' = q
    \<and> backend w' = backend w \<and> execq w' = execq w
    \<and> inq (client w') = rest \<and> wok (client w') = wok (client w)
    \<and> outq (client w') = outq (client w) @ served op ms pconn []
    \<and> outq (temp w') = outq (temp w) @ SendStartup (params(''user'' \<mapsto> u)) # outs"
proof -
  note kept = opened_keeps [OF start(1) conn(1)]
  obtain rs where w0: "startupq (opened op pc w) = Inr (StartupMessage params) # rs" using kept(1) by blast
  let ?w1 = "(opened op pc w)\<lparr>startupq := rs\<rparr>" and ?cb = "carrier op"
  let ?host = "DBHost (srv_config (srv ?w1))"
  have pworld: "password_world op pc rest w = asked ?cb ?host rest ?w1"
    using w0 kept(10) by (simp add: password_world_def)
  let ?v' = "v\<lparr>client := wrote (map (\<lambda>m. (?cb, Msg m)) (filter forwarded ms)) (client v),
      temp := wrote (SendStartup (params(''user'' \<mapsto> u)) # outs) ((temp v)\<lparr>inq := mores\<rparr>), temp_open := False\<rparr>"
  have au: "AuthenticateUser (ext_lower ext) (ext_jwt_Parse ext) (ext_scram_new ext) (ext_scram_step ext)
      (parameter params ''user'') ?host params ?cb ?w1 = (Ret (Inr keyData), ?v')"
    by (rule AuthenticateUser_ok [OF contract _ _ _ _ login [unfolded pworld] _ script])
      (use start(2) wok pw msgs kept in simp_all)
  note same = Authenticate_proxy [OF contract au]
  from chooseLogin_client [OF contract login]
  have v: "client v = client (password_world op pc rest w)" "temp v = temp w"
    using kept(3) by (simp_all add: pworld asked_def)
  have cl: "client v = wrote [(?cb, Msg AuthenticationCleartextPassword)]
      ((wrote (greeting op) (client w))\<lparr>inq := rest\<rparr>)"
    using v(1) kept(2) by (simp add: pworld asked_def)
  have wf: "server_wf (srv ?w1)" "pc_poolConn (heap (srv ?w1) pc) = NoPool"
    using wf_upgraded [OF conn(3)] conn(2,3) kept(9) by (auto simp: upgraded_def)
  have "startSession ext pc ?cb params ?w1 = (Ret (Inr ?cb), in_session pc pconn params q ?cb ?v')"
    by (rule startSession_ok [OF contract au _ wf]) (use acq kept wok cl in \<open>simp_all add: connectionString_def\<close>)
  from handleStartup_session [OF w0 this]
  have run: "handleStartupMessage ext pc PlainTCP w = (Ret (Inr ?cb), in_session pc pconn params q ?cb ?v')"
    by (simp only: handleStartup_opened [OF start(1) conn(1) wok(1)])
  have "srv v = srv ?w1" "backend v = backend w" "execq v = execq w" using same kept(6,7) by simp_all
  then show ?thesis using run cl v(2)
    by (intro exI [of _ "in_session pc pconn params q ?cb ?v'"])
      (simp add: in_session_def served_def session_srv_def)
qed


text \<open>C1: A client is served. Take a client that sends its start-up message at once, after a
  refused SSLRequest or over TLS, whose login \<open>chooseLogin\<close> maps to a name and a password for
  PostgreSQL, and let PostgreSQL accept this login (\<open>login_script\<close>: cleartext, MD5 and SCRAM),
  the pool give a connection, and no write fail. Then \<open>handleConnection\<close> returns: over the temporary connection went exactly the
  start-up message with the mapped name and the answers to PostgreSQL's requests, over the
  pool connection exactly the client's messages in their order, and the client got exactly
  what \<open>served\<close> lists; at the end its connection is closed, the pool connection is back
  and the server's state is well-formed.\<close>

theorem connection_serves_client:
  assumes contract: "parse_contract (ext_jwt_Parse ext) sig_ok"
    and conn: "pc_conn (heap (srv w) pc) = PlainTCP" "pc_poolConn (heap (srv w) pc) = NoPool" "server_wf (srv w)"
    and wok: "\<forall>n. wok (client w) n" "\<forall>n. wok (temp w) n" "\<forall>n. wok (backend w) n"
    and start: "opens op params w" "dial_ok w (length (dials w))"
    and input: "inq (client w) = Inr (PasswordMessage pw) # map (\<lambda>x. Inr (fst x)) xs @ Inr Terminate # rest"
    and login: "chooseLogin (ext_lower ext) (ext_jwt_Parse ext) (parameter params ''user'') pw
      (password_world op pc (map (\<lambda>x. Inr (fst x)) xs @ Inr Terminate # rest) w) = (Ret (Inr (u, p)), v)"
    and msgs: "inq (temp w) = map Inr (ms @ [ReadyForQuery c]) @ mores"
    and script: "login_script (ext_scram_new ext) (ext_scram_step ext) u p (None, None) ms
      = Some (outs, conv, Some keyData)"
    and acq: "AcquireConnection (parameter params ''user'') (parameter params ''database'')
      (connectionString w (parameter params ''database'')) (poolw w) = (Ret (Inr pconn), q)"
    and queries: "list_all simple xs" "inq (backend w) = map Inr (concat (map answer xs)) @ brest"
    and reset: "execq w = r1 # r2 # es"
  shows "\<exists>w'. handleConnection ext pc w = (Ret (), w')
    \<and> outq (temp w') = outq (temp w) @ SendStartup (params(''user'' \<mapsto> u)) # outs
    \<and> outq (backend w') = outq (backend w) @ map fst xs
    \<and> outq (client w') = outq (client w) @ served op ms pconn (concat (map answer xs))
    \<and> checkedOut (poolw w') = checkedOut (poolw w) \<and> \<not> client_open w' \<and> server_wf (srv w')"
proof -
  from startup_ok [OF contract conn wok(1,2) start input login msgs script acq] obtain w1
    where s: "handleStartupMessage ext pc PlainTCP w = (Ret (Inr (carrier op)), w1)"
      and w1: "heap (srv w1) pc = session_conn pconn params (heap (srv (opened op pc w)) pc)" "poolw w1 = q"
        "backend w1 = backend w" "execq w1 = execq w"
        "inq (client w1) = map (\<lambda>x. Inr (fst x)) xs @ Inr Terminate # rest" "wok (client w1) = wok (client w)"
        "outq (client w1) = outq (client w) @ served op ms pconn []"
        "outq (temp w1) = outq (temp w) @ SendStartup (params(''user'' \<mapsto> u)) # outs" by blast
  have held: "pc_poolConn (heap (srv w1) pc) = Held pconn" by (simp add: w1(1) session_conn_def)
  have "connected pc w1" by (simp add: connected_def w1(1) session_conn_def is_Held_def)
  moreover have "writable w1" using wok by (simp add: writable_def w1(3,6))
  ultimately obtain w2 where m: "messageLoop pc (carrier op) w1 = (Ret (), w2)"
    and ex: "exchanged (carrier op) (concat (map answer xs)) (map fst xs) w1 w2"
    using messageLoop_transparent [of pc w1 xs rest brest "carrier op"] queries w1(3,5) by auto
  from relatedD [OF messageLoop_le [of "carrier op" UNIV] m] have w2: "srv w2 = srv w1" "temp w2 = temp w1"
    "execq w2 = execq w" "poolw w2 = q"
    using w1(2,4) by (simp_all add: relay_le_def)
  from teardown_returns [of w2 pc pconn r1 r2 es] held w2 reset obtain w'
    where t: "teardown pc w2 = (Ret (), w')" and temp: "temp w' = temp w2" by auto
  from s m conn(1) have b: "connection_body ext pc w = (Ret (), w2)"
    by (simp add: connection_body_def getPC_def prog_simps)
  have h: "handleConnection ext pc w = (Ret (), w')"
    using b t by (simp add: handleConnection_def connection_body_def [symmetric] deferring_def)
  have "checkedOut q = pcId pconn # checkedOut (poolw w)" using AcquireConnection_checkedOut [OF acq] by simp
  then have "balanced (checkedOut (poolw w)) pc w2" using held w2 by (simp add: balanced_def)
  note fin = teardown_result [OF t this] and off = teardown_backend [OF t]
  have "server_wf (srv w')" using handleConnection_wf [OF contract conn(3,2) h] by blast
  with h fin off temp w2 ex w1 show ?thesis
    by (intro exI [of _ w']) (simp add: exchanged_def served_def)
qed

end
