(* ===== verification/EndToEnd.thy ===== *)
theory EndToEnd
  imports Handler
begin

text \<open>
  What a query of a token client rests on: the components of a login (key cache, validator,
  role mapper, authenticator) and of a session, composed by \<open>handleConnection\<close>.
\<close>

section \<open>A login with a token\<close>

text \<open>The conversation with PostgreSQL leaves the validator and its keys alone.\<close>

definition same_validator :: "'a auth_world_scheme \<Rightarrow> 'a auth_world_scheme \<Rightarrow> bool" where
  "same_validator w w' \<longleftrightarrow> jwtValidator w' = jwtValidator w"

interpretation keys_kept: frame same_validator
  by unfold_locales (auto simp: same_validator_def)

lemma same_validator_io:
  "related same_validator (clientSend cb m)" "related same_validator (tempSend m')"
  "related same_validator tempReceive"
  by (auto simp: related_def same_validator_def auth_io ep_send_def ep_recv_def prog_simps
      split: list.split prod.split)

lemma authenticateWithBackend_validator: "related same_validator (authenticateWithBackend sn ss cb u p)"
proof -
  have "related same_validator (authMessage sn ss cb u p vars msg)" for vars msg
    by (cases msg; cases vars) (auto simp: authMessage_def intro!: keys_kept.related_rules same_validator_io
        split: prod.split sum.split option.split)
  then show ?thesis
    unfolding authenticateWithBackend_def authRound_def
    by (auto intro!: keys_kept.related_rules keys_kept.related_forLoop same_validator_io)
qed

text \<open>
  What is known of a token that opened the account \<open>acc\<close>, when the login started in the
  world \<open>w\<close> and left the key cache \<open>keys\<close>.
\<close>

definition token_opens :: "(string \<Rightarrow> jwt_token \<Rightarrow> rsa_key \<Rightarrow> bool) \<Rightarrow> (string \<Rightarrow> string) \<Rightarrow> string
    \<Rightarrow> 'a auth_world_scheme \<Rightarrow> (string \<rightharpoonup> rsa_key) \<Rightarrow> ServiceAccount \<Rightarrow> bool" where
  "token_opens sig_ok ul tok w keys acc \<longleftrightarrow> (\<exists>t claims kid key exp n ctx rm.
     sig_ok tok t key \<and> tokHeader t ''kid'' = Some (JStr kid) \<and> keys kid = Some key
   \<and> tokAlg t = ''RS256'' \<and> tokClaims t = Some claims
   \<and> claims_ok (jwtValidator w) claims ctx
   \<and> claims ''exp'' = Some (JNum exp) \<and> ticks w \<le> n
   \<and> clock w n \<le> time_Unix (int64_of (float_to_int64 w) exp)
   \<and> roleMapper w = Some rm \<and> MapRoleToServiceAccount ul rm (Roles ctx) = Inr acc)"

lemma token_login:
  assumes contract: "parse_contract jwt_Parse sig_ok" and clock: "\<And>n. clock w n > 0"
    and run: "AuthenticateUser ul jwt_Parse sn ss user host params cb w = (Ret (Inr keyData), w')"
    and tok: "inq (client w) = Inr (PasswordMessage tok) # rest" "looksLikeJWT tok"
  shows "\<exists>acc new. token_opens sig_ok ul tok w (publicKeys (jwtValidator w')) acc
    \<and> outq (temp w') = outq (temp w) @ new \<and> set new \<subseteq> login_messages sn ss (Username acc) (Password acc) params"
  using run
proof (cases rule: AuthenticateUser_success)
  case (1 w0 pw w1 u p w2 w3 w4)
  note f = requestPassword_frame [OF 1(2)]
  have pw: "pw = tok" using f 1(1) tok(1) by simp
  have same: "jwtValidator w1 = jwtValidator w" "clock w1 = clock w" "ticks w1 = ticks w"
    "float_to_int64 w1 = float_to_int64 w" "roleMapper w1 = roleMapper w"
    using f 1(1) by simp_all
  from chooseLogin_token [OF 1(3)] pw tok(2) obtain ctx rm acc
    where v: "ValidateJWT jwt_Parse tok w1 = (Ret (Inr ctx), w2)" "roleMapper w2 = Some rm"
      "MapRoleToServiceAccount ul rm (Roles ctx) = Inr acc" and u: "u = Username acc" "p = Password acc"
    by blast
  have rm: "roleMapper w = Some rm"
    using chooseLogin_client [OF contract 1(3)] v(2) same by simp
  obtain t claims kid key n where t: "sig_ok tok t key" "tokHeader t ''kid'' = Some (JStr kid)"
    "publicKeys (jwtValidator w2) kid = Some key" "tokAlg t = ''RS256''" "tokClaims t = Some claims"
    "claims_ok (jwtValidator w) claims ctx" "ticks w \<le> n"
    "clock w n \<le> claim_time (float_to_int64 w) claims ''exp''"
    using ValidateJWT_sound [OF contract v(1)] same by auto
  from t(8) clock [of n] obtain exp where "claims ''exp'' = Some (JNum exp)"
    "clock w n \<le> time_Unix (int64_of (float_to_int64 w) exp)"
    by (auto simp: claim_time_def split: option.splits json.splits)
  moreover have v': "jwtValidator w' = jwtValidator w2"
    using relatedD [OF authenticateWithBackend_validator 1(5)] 1(4,6)
    by (auto simp: same_validator_def auth_io ep_send_def prog_simps split: if_splits)
  ultimately have opens: "token_opens sig_ok ul tok w (publicKeys (jwtValidator w')) acc"
    using t rm v(3) unfolding v' token_opens_def by blast
  from AuthenticateUser_sends [OF contract run] show ?thesis
  proof (elim disjE exE conjE)
    assume "outq (temp w') = outq (temp w)"
    with opens show ?thesis by (intro exI [of _ acc] exI [of _ "[]"]) simp
  next
    fix v0 pw' v1 u' p' v2 ms rest' new
    assume "v0 = w\<lparr>dials := dials w @ [JoinHostPort host ''5432''], temp_open := True\<rparr>"
      "requestPasswordFromClient cb v0 = (Ret (Inr pw'), v1)"
      "chooseLogin ul jwt_Parse user pw' v1 = (Ret (Inr (u', p')), v2)"
      and new: "outq (temp w') = outq (temp w) @ new" "login_trace sn ss u' p' params ms new"
    with 1(1,2,3) have "u' = u" "p' = p" by simp_all
    with new opens u login_trace_messages [OF new(2)] show ?thesis by blast
  qed
qed

section \<open>A query of a token client\<close>

lemma before_login_token:
  assumes "before_login pc w0 w"
  shows "token_opens sig_ok ul tok w keys acc = token_opens sig_ok ul tok w0 keys acc"
    and "clock w = clock w0" and "inq (client w) = inq (client w0)" and "temp w = temp w0"
  using assms by (simp_all add: before_login_def same_session_def token_opens_def)

text \<open>C3: From a query back to the token. For a connection as \<open>Start\<close> makes it whose client answers
  the password request with something that looks like a JWT: if anything was written to a
  pool connection's socket, then this text is a token signed under a key of the key
  cache, with RS256, for the configured issuer and audience, not expired at a clock reading
  made during the login, the roles of its claims are mapped to a service account, and
  PostgreSQL let a client in to whom nothing was shown on the temporary connection but a
  login as that account.\<close>

theorem query_needs_genuine_token:
  assumes contract: "parse_contract (ext_jwt_Parse ext) sig_ok" and clock: "\<And>n. clock w n > 0"
    and fresh: "pc_poolConn (heap (srv w) pc) = NoPool"
    and tok: "inq (client w) = Inr (PasswordMessage tok) # rest" "looksLikeJWT tok"
    and run: "handleConnection ext pc w = (out, w')"
    and wrote: "outq (backend w') \<noteq> outq (backend w)"
  shows "\<exists>acc params cb w1 keyData w2 new. token_opens sig_ok (ext_lower ext) tok w (publicKeys (jwtValidator w2)) acc
    \<and> Inr (StartupMessage params) \<in> set (startupq w)
    \<and> AuthenticateUser (ext_lower ext) (ext_jwt_Parse ext) (ext_scram_new ext) (ext_scram_step ext)
        (parameter params ''user'') (DBHost (srv_config (srv w))) params cb w1 = (Ret (Inr keyData), w2)
    \<and> outq (temp w2) = outq (temp w) @ new
    \<and> set new \<subseteq> login_messages (ext_scram_new ext) (ext_scram_step ext) (Username acc) (Password acc) params"
proof -
  from query_login [OF contract fresh run wrote] obtain params cb w1 keyData w2
    where p: "Inr (StartupMessage params) \<in> set (startupq w)" and b: "before_login pc w w1"
      and au: "AuthenticateUser (ext_lower ext) (ext_jwt_Parse ext) (ext_scram_new ext) (ext_scram_step ext)
        (parameter params ''user'') (DBHost (srv_config (srv w1))) params cb w1 = (Ret (Inr keyData), w2)"
    by blast
  note same = before_login_token [OF b]
  have host: "srv_config (srv w1) = srv_config (srv w)" using before_login_conn [OF b] by simp
  from token_login [OF contract _ au] clock tok same(2,3) obtain acc new
    where "token_opens sig_ok (ext_lower ext) tok w1 (publicKeys (jwtValidator w2)) acc" "outq (temp w2) = outq (temp w1) @ new"
      "set new \<subseteq> login_messages (ext_scram_new ext) (ext_scram_step ext) (Username acc) (Password acc) params" by auto
  with p au host same(1,4) show ?thesis by metis
qed

end
