(* ===== verification/Samples.thy ===== *)
theory Samples
  imports Transport Serve EndToEnd
begin

text \<open>
  Concrete client connections, evaluated: the hypotheses of the theorems of \<open>Session\<close>,
  \<open>Handler\<close> and \<open>Transport\<close> hold for them.
\<close>

section \<open>Worlds\<close>

definition sample_ext :: "(proxy_world, unit) externals" where
  "sample_ext = \<lparr>ext_lower = (\<lambda>s. s), ext_jwt_Parse = sample_parse sample_token,
     ext_scram_new = (\<lambda>_ _ _. Inr ()), ext_scram_step = (\<lambda>c _. (Inr '''', c))\<rparr>"

lemma sample_ext_contract: "parse_contract (ext_jwt_Parse sample_ext) (\<lambda>text t' key. t' = sample_token\<lparr>tokValid := True\<rparr>)"
  using sample_parse_contract by (simp add: sample_ext_def)

text \<open>A client's start-up messages and messages, the answers on the pool connection's socket, and
  the struct of the connection.\<close>

definition sample_proxy :: "StartupMsg list \<Rightarrow> FrontendMessage list \<Rightarrow> BackendMessage list \<Rightarrow> Connection \<Rightarrow> proxy_world" where
  "sample_proxy starts msgs answers c = \<lparr>
     jwtValidator = NewJWTValidator ''https://t/'' ''gprxy'' ''u'', clock = (\<lambda>_. time_Unix 1001), ticks = 0,
     request_ok = (\<lambda>_. True), jwks_responses = [], decode_jwks = (\<lambda>_. Inr []), float_to_int64 = (\<lambda>_. 0),
     client = endpoint_of (map Inr msgs), startupq = map Inr starts,
     temp = endpoint_of [Inr AuthenticationOk, Inr (BackendKeyData 77 99), Inr (ReadyForQuery (CHR ''I''))],
     temp_open = False, dials = [], dial_ok = (\<lambda>_. True), roleMapper = Some sample_mapper,
     srv = \<lparr>srv_config = sample_config, srv_tlsConfig = True, activeConnections = [(makeCancelKey 8 9, 1)],
            heap = (\<lambda>n. if n = 0 then c else newConnection\<lparr>pc_poolConn := Held (sample_pool_conn 8 9),
              pc_key := Some (8, 9)\<rparr>)\<rparr>,
     poolw = sample_pools\<lparr>pingq := [Inr ()]\<rparr>, backend = endpoint_of (map Inr answers),
     handshakeq = [Inr ()], execq = [Inr (), Inr ()], execs = [], cancel_writes = [], cancel_write_ok = True,
     cancel_open = False, client_open = True\<rparr>"

definition bob :: parameters where
  "bob = [''user'' \<mapsto> ''bob'', ''database'' \<mapsto> ''db'']"

text \<open>A query over TLS with a password login.\<close>

definition query_world :: proxy_world where
  "query_world = sample_proxy [SSLRequest, StartupMessage bob] [PasswordMessage ''secret'', Query ''SELECT 1'', Terminate]
     [CommandComplete ''SELECT 1'', ReadyForQuery (CHR ''I'')] newConnection"

lemmas session_defs = sample_proxy_def sample_ext_def endpoint_of_def sample_pools_def
  sample_pool_config_def sample_pool_conn_def newConnection_def handleConnection_def handleStartupMessage_def
  startupRound_def startSession_def answerSSLRequest_def processCancel_eq connectBackend_def getPC_def setPC_def
  on_server_def on_pools_def bfSend_def bfReceive_def ReceiveStartupMessage_def Handshake_def
  Exec_def PgConn_def pool_defs LogPoolStats_def fullResetBeforeRelease_def pc_sendErrorToClient_def
  registry_eqs teardown_def messageLoop_def messageRound_def handleMessage_def forwardMessage_def
  relayBackendResponse_def relayRound_def clientPending_def backendPending_def startupPending_def
  parameter_def bob_def looksLikeJWT_def HasPrefix_def

lemma query_run:
  "\<exists>w'. handleConnection sample_ext 0 query_world = (Ret (), w') \<and>
     outq (client w') = [(PlainTCP, RawByte (CHR ''S'')), (TLSConn, Msg AuthenticationCleartextPassword),
       (TLSConn, Msg AuthenticationOk), (TLSConn, Msg (BackendKeyData 41 42)), (TLSConn, Msg (ReadyForQuery (CHR ''I''))),
       (TLSConn, Msg (CommandComplete ''SELECT 1'')), (TLSConn, Msg (ReadyForQuery (CHR ''I'')))]
   \<and> outq (backend w') = [Query ''SELECT 1''] \<and> execs w' = [''ROLLBACK'', ''DISCARD ALL'']
   \<and> checkedOut (poolw w') = [1]"
  by (simp add: query_world_def session_defs auth_defs forLoop.simps prog_simps Let_def addConn_def delConn_def)

lemma query_startup:
  "\<exists>w'. handleStartupMessage sample_ext 0 PlainTCP query_world = (Ret (Inr TLSConn), w')
     \<and> pc_key (heap (srv w') 0) = Some (41, 42)
     \<and> map_option poolId (map_option pcPool (pc_bf (heap (srv w') 0))) = Some 0"
  by (simp add: query_world_def session_defs auth_defs forLoop.simps prog_simps Let_def addConn_def delConn_def)

lemma query_no_gss: "Inr GSSEncRequest \<notin> set (startupq query_world)"
  by (simp add: query_world_def sample_proxy_def)

lemma query_fresh: "heap (srv query_world) 0 = newConnection"
  by (simp add: query_world_def sample_proxy_def)

section \<open>Witnesses: start-up and teardown\<close>

theorem session_established_witness:
  "\<exists>params w1 p w'. before_login 0 query_world w1 \<and> established sample_ext 0 params TLSConn w1 w' p"
proof -
  obtain w' where "handleStartupMessage sample_ext 0 PlainTCP query_world = (Ret (Inr TLSConn), w')"
    using query_startup by blast
  from session_established [OF sample_ext_contract this] query_no_gss show ?thesis by blast
qed

theorem session_runs_as_service_user_witness:
  "\<exists>params (w' :: proxy_world) p. Inr (StartupMessage params) \<in> set (startupq query_world) \<and> pc_bf (heap (srv w') 0) = Some p
     \<and> connTarget (poolConfig (pcPool p)) = BuildConnectionString sample_config (parameter params ''database'')"
proof -
  obtain w' where h: "handleStartupMessage sample_ext 0 PlainTCP query_world = (Ret (Inr TLSConn), w')"
    using query_startup by blast
  have "pools_of_config query_world"
    by (simp add: pools_of_config_def query_world_def sample_proxy_def sample_pools_def targets_ok_def
        parse_target_def sample_pool_config_def)
  from session_runs_as_service_user [OF sample_ext_contract this h query_no_gss] show ?thesis
    by (auto simp: query_world_def sample_proxy_def)
qed

theorem no_query_without_login_witness:
  "\<exists>params w1. Inr (StartupMessage params) \<in> set (startupq query_world) \<and> before_login 0 query_world w1"
proof -
  obtain w' where h: "handleConnection sample_ext 0 query_world = (Ret (), w')"
    and o: "outq (backend w') = [Query ''SELECT 1'']"
    using query_run by blast
  have "outq (backend w') \<noteq> outq (backend query_world)"
    using o by (simp add: query_world_def sample_proxy_def endpoint_of_def)
  from no_query_without_login [OF sample_ext_contract _ h this] query_fresh show ?thesis
    by (auto simp: newConnection_def)
qed

theorem connection_cleans_up_witness:
  "\<exists>w'. handleConnection sample_ext 0 query_world = (Ret (), w') \<and> \<not> client_open w' \<and> checkedOut (poolw w') = [1]"
proof -
  obtain w' where h: "handleConnection sample_ext 0 query_world = (Ret (), w')"
    using query_run by blast
  have "pc_poolConn (heap (srv query_world) 0) = NoPool"
    using query_fresh by (simp add: newConnection_def)
  from connection_cleans_up [OF sample_ext_contract this h] h show ?thesis
    by (simp add: query_world_def sample_proxy_def sample_pools_def)
qed

section \<open>Witness: a client that is served\<close>

lemma query_wf: "server_wf (srv query_world)"
  by (simp add: server_wf_def conn_typed_def query_world_def sample_proxy_def sample_pool_conn_def)

lemma query_acquire:
  "\<exists>p q. AcquireConnection (parameter bob ''user'') (parameter bob ''database'')
      (connectionString query_world (parameter bob ''database'')) (poolw query_world) = (Ret (Inr p), q)
     \<and> pcPID p = 41 \<and> pcSecret p = 42"
  by (simp add: query_world_def sample_proxy_def sample_pools_def pool_defs prog_simps)

theorem connection_serves_client_witness:
  "\<exists>w'. handleConnection sample_ext 0 query_world = (Ret (), w')
     \<and> outq (temp w') = [SendStartup (bob(''user'' \<mapsto> ''bob''))] \<and> outq (backend w') = [Query ''SELECT 1'']
     \<and> outq (client w') = (PlainTCP, RawByte (CHR ''S'')) # map (\<lambda>m. (TLSConn, Msg m))
         [AuthenticationCleartextPassword, AuthenticationOk, BackendKeyData 41 42, ReadyForQuery (CHR ''I''),
          CommandComplete ''SELECT 1'', ReadyForQuery (CHR ''I'')]"
proof -
  let ?w = query_world and ?xs = "[(Query ''SELECT 1'', [CommandComplete ''SELECT 1''], CHR ''I'')]"
  obtain p q where acq: "AcquireConnection (parameter bob ''user'') (parameter bob ''database'')
      (connectionString ?w (parameter bob ''database'')) (poolw ?w) = (Ret (Inr p), q)"
    and p: "pcPID p = 41" "pcSecret p = 42" using query_acquire by blast
  have f: "pc_conn (heap (srv ?w) 0) = PlainTCP" "pc_poolConn (heap (srv ?w) 0) = NoPool"
    using query_fresh by (simp_all add: newConnection_def)
  have w: "\<forall>n. wok (client ?w) n" "\<forall>n. wok (temp ?w) n" "\<forall>n. wok (backend ?w) n"
    "opens Upgraded bob ?w" "dial_ok ?w (length (dials ?w))"
    "inq (client ?w) = Inr (PasswordMessage ''secret'') # map (\<lambda>x. Inr (fst x)) ?xs @ Inr Terminate # []"
    "inq (temp ?w) = map Inr ([AuthenticationOk, BackendKeyData 77 99] @ [ReadyForQuery (CHR ''I'')]) @ []"
    "inq (backend ?w) = map Inr (concat (map answer ?xs)) @ []" "execq ?w = Inr () # Inr () # []"
    "outq (client ?w) = []" "outq (temp ?w) = []" "outq (backend ?w) = []"
    by (simp_all add: query_world_def sample_proxy_def endpoint_of_def)
  have l: "chooseLogin (ext_lower sample_ext) (ext_jwt_Parse sample_ext) (parameter bob ''user'') ''secret''
      (password_world Upgraded 0 (map (\<lambda>x. Inr (fst x)) ?xs @ Inr Terminate # []) ?w) =
      (Ret (Inr (''bob'', ''secret'')), password_world Upgraded 0 (map (\<lambda>x. Inr (fst x)) ?xs @ Inr Terminate # []) ?w)"
    by (simp add: chooseLogin_def looksLikeJWT_def HasPrefix_def parameter_def bob_def prog_simps)
  have s: "login_script (ext_scram_new sample_ext) (ext_scram_step sample_ext) ''bob'' ''secret'' (None, None)
      [AuthenticationOk, BackendKeyData 77 99] = Some ([], None, Some (77, 99))"
    by (simp add: login_reply_def)
  have x: "list_all simple ?xs" by simp
  from connection_serves_client [OF sample_ext_contract f query_wf w(1-6) l w(7) s acq x w(8,9)] p w(10-12)
  show ?thesis by (auto simp: served_def)
qed

text \<open>The same client with a token.\<close>

definition token_world :: proxy_world where
  "token_world = query_world\<lparr>jwtValidator := jwtValidator sample_jwt_world,
     client := endpoint_of (map Inr [PasswordMessage sample_token_text, Query ''SELECT 1'', Terminate])\<rparr>"

lemma token_run:
  "\<exists>w'. handleConnection sample_ext 0 token_world = (Ret (), w') \<and> outq (backend w') = [Query ''SELECT 1'']"
  by (simp add: token_world_def query_world_def session_defs auth_defs forLoop.simps prog_simps Let_def
      addConn_def delConn_def sample_token_text_def CountByte_def ValidateJWT_def sample_parse_def
      sample_token_def keyfunc_def getPublicKey_def cachedKey_def now_def sample_jwt_world_def NewJWTValidator_def
      checkClaims_def sample_claims_def validateAudience_def claim_nonempty_def claim_string_def
      extractRoles_def map_filter_simps claim_time_def int64_of_def time_Unix_def wrap64_def
      time_Sub_def hour_def minute_def second_def sample_roles)

theorem query_needs_genuine_token_witness:
  "\<exists>acc (w2 :: proxy_world). token_opens (\<lambda>text t' key. t' = sample_token\<lparr>tokValid := True\<rparr>) (\<lambda>s. s) sample_token_text
     token_world (publicKeys (jwtValidator w2)) acc"
proof -
  obtain w' where h: "handleConnection sample_ext 0 token_world = (Ret (), w')"
    and o: "outq (backend w') = [Query ''SELECT 1'']"
    using token_run by blast
  have c: "clock token_world n > 0" for n
    by (simp add: token_world_def query_world_def sample_proxy_def time_Unix_def wrap64_def)
  have f: "pc_poolConn (heap (srv token_world) 0) = NoPool" "looksLikeJWT sample_token_text"
    "inq (client token_world) = Inr (PasswordMessage sample_token_text) # [Inr (Query ''SELECT 1''), Inr Terminate]"
    "outq (backend w') \<noteq> outq (backend token_world)"
    using query_fresh o
    by (simp_all add: token_world_def query_world_def sample_proxy_def newConnection_def endpoint_of_def
        looksLikeJWT_def sample_token_text_def HasPrefix_def CountByte_def)
  from query_needs_genuine_token [OF sample_ext_contract c f(1,3,2) h f(4)] show ?thesis
    by (auto simp: sample_ext_def)
qed

definition query_life :: life where
  "query_life = \<lparr>srv_config = sample_config, srv_tlsConfig = True,
     activeConnections = activeConnections (srv query_world), heap = heap (srv query_world),
     phase = (\<lambda>_. Fresh)(1 := Registered), crashed = False\<rparr>"

lemma query_released:
  "\<exists>w'. handleConnection sample_ext 0 query_world = (Ret (), w')
     \<and> map_option pcPID (case pc_poolConn (heap (srv w') 0) of Released p \<Rightarrow> Some p | _ \<Rightarrow> None) = Some 41
     \<and> activeConnections (srv w') = [(makeCancelKey 8 9, 1)]"
  by (simp add: query_world_def session_defs auth_defs forLoop.simps prog_simps Let_def addConn_def delConn_def)

theorem handleConnection_refines_witness:
  "\<exists>s'. life_step\<^sup>*\<^sup>* query_life s' \<and> phase s' = (phase query_life)(0 := Gone) \<and> \<not> crashed s'
     \<and> activeConnections s' = [(makeCancelKey 8 9, 1)]"
proof -
  obtain w' where h: "handleConnection sample_ext 0 query_world = (Ret (), w')"
    and p: "map_option pcPID (case pc_poolConn (heap (srv w') 0) of Released p \<Rightarrow> Some p | _ \<Rightarrow> None) = Some 41"
    and a: "activeConnections (srv w') = [(makeCancelKey 8 9, 1)]"
    using query_released by blast
  have v: "view (srv query_world) query_life" "\<not> crashed query_life" "phase query_life 0 = Fresh"
    by (simp_all add: view_def query_life_def)
  have "available query_life p" if "pc_poolConn (heap (srv w') 0) = Released p" for p
    using that p by (simp add: available_def query_life_def query_world_def sample_proxy_def
        newConnection_def sample_pool_conn_def)
  from handleConnection_refines [OF sample_ext_contract h v this] a show ?thesis
    by (auto simp: view_def)
qed

theorem handleConnection_keeps_server_wf_witness:
  "\<exists>w'. handleConnection sample_ext 0 query_world = (Ret (), w') \<and> server_wf (srv w') \<and> only_own 0 (srv query_world) (srv w')"
proof -
  obtain w' where h: "handleConnection sample_ext 0 query_world = (Ret (), w')"
    using query_run by blast
  have "pc_poolConn (heap (srv query_world) 0) = NoPool"
    using query_fresh by (simp add: newConnection_def)
  from handleConnection_keeps_server_wf [OF sample_ext_contract query_wf this h] h show ?thesis by blast
qed

theorem tls_after_upgrade_witness:
  "\<exists>w' first rest. handleConnection sample_ext 0 query_world = (Ret (), w')
     \<and> outq (client w') = first @ rest \<and> length first \<le> 1 \<and> set rest \<subseteq> {TLSConn} \<times> UNIV"
proof -
  obtain w' where h: "handleConnection sample_ext 0 query_world = (Ret (), w')"
    using query_run by blast
  have s: "startupq query_world = Inr SSLRequest # [Inr (StartupMessage bob)]"
    "srv_tlsConfig (srv query_world)" "outq (client query_world) = []"
    by (simp_all add: query_world_def sample_proxy_def endpoint_of_def)
  have p: "pc_conn (heap (srv query_world) 0) = PlainTCP"
    using query_fresh by (simp add: newConnection_def)
  from tls_after_upgrade [OF sample_ext_contract s(1,2) p h] obtain first rest
    where "outq (client w') = first @ rest" "first = [] \<or> first = [(PlainTCP, RawByte (CHR ''S''))]"
      "set rest \<subseteq> {TLSConn} \<times> UNIV" using s(3) by auto
  then show ?thesis using h by (intro exI [of _ w'] exI [of _ first] exI [of _ rest]) auto
qed

definition plain_world :: proxy_world where
  "plain_world = sample_proxy [StartupMessage bob] [PasswordMessage ''secret'', Terminate] [] newConnection"

theorem password_requested_in_clear_witness:
  "srv_tlsConfig (srv plain_world)
   \<and> (PlainTCP, Msg AuthenticationCleartextPassword) \<in> set (outq (client (snd (handleConnection sample_ext 0 plain_world))))"
proof -
  have "startupq plain_world = Inr (StartupMessage bob) # []" "pc_conn (heap (srv plain_world) 0) = PlainTCP"
    "dial_ok plain_world (length (dials plain_world))" "\<And>n. wok (client plain_world) n"
    "srv_tlsConfig (srv plain_world)"
    by (simp_all add: plain_world_def sample_proxy_def endpoint_of_def newConnection_def)
  with password_requested_in_clear [OF sample_ext_contract this(1,2,3,4)] show ?thesis by simp
qed

definition cancel_world :: proxy_world where
  "cancel_world = sample_proxy [CancelRequest 8 9] [] [] newConnection"

theorem cancel_request_forwarded_witness:
  "\<exists>w' packet. handleConnection sample_ext 0 cancel_world = (Ret (), w') \<and> cancel_writes w' = [packet]
     \<and> dials w' = [''db:5432''] \<and> Uint32 packet 8 = 8 \<and> Uint32 packet 12 = 9"
proof -
  have s: "startupq cancel_world = Inr (CancelRequest 8 9) # []" "pc_poolConn (heap (srv cancel_world) 0) = NoPool"
    "pc_key (heap (srv cancel_world) 0) = None" "findConn (activeConnections (srv cancel_world)) (8, 9) \<noteq> None"
    "dial_ok cancel_world (length (dials cancel_world))" "cancel_write_ok cancel_world" "cancel_writes cancel_world = []"
    "dials cancel_world = []" "DBHost (srv_config (srv cancel_world)) = ''db''"
    by (simp_all add: cancel_world_def sample_proxy_def newConnection_def findConn_def sample_config_def)
  from cancel_request_forwarded [OF s(1,2,3), of sample_ext] s(4-9) show ?thesis by force
qed

theorem gss_request_panics_witness:
  "fst (handleConnection sample_ext 0 (sample_proxy [GSSEncRequest] [Sync] [] newConnection)) = Panic"
  using gss_request_panics [of "sample_proxy [GSSEncRequest] [Sync] [] newConnection" "[]" Sync "[]" 0 sample_ext]
  by (simp add: sample_proxy_def endpoint_of_def newConnection_def)

section \<open>Witnesses: an established session\<close>

definition session_world :: "FrontendMessage list \<Rightarrow> BackendMessage list \<Rightarrow> proxy_world" where
  "session_world msgs answers = sample_proxy [] msgs answers
     (session_conn (sample_pool_conn 41 42) bob newConnection)"

lemma session_world_ok: "connected 0 (session_world ms as)" "writable (session_world ms as)"
  by (simp_all add: session_world_def sample_proxy_def session_conn_def connected_def writable_def endpoint_of_def)

definition two_exchanges :: "exchange list" where
  "two_exchanges = [(Query ''BEGIN'', [CommandComplete ''BEGIN''], CHR ''T''),
     (Query ''X'', [ErrorResponse ''ERROR'' ''42601'' ''syntax error''], CHR ''E'')]"

theorem session_transparent_witness:
  "\<exists>w'. messageLoop 0 PlainTCP (session_world [Query ''BEGIN'', Query ''X'', Terminate]
      [CommandComplete ''BEGIN'', ReadyForQuery (CHR ''T''), ErrorResponse ''ERROR'' ''42601'' ''syntax error'',
       ReadyForQuery (CHR ''E'')]) = (Ret (), w')
   \<and> outq (backend w') = [Query ''BEGIN'', Query ''X'']"
proof -
  let ?w = "session_world [Query ''BEGIN'', Query ''X'', Terminate]
      [CommandComplete ''BEGIN'', ReadyForQuery (CHR ''T''), ErrorResponse ''ERROR'' ''42601'' ''syntax error'',
       ReadyForQuery (CHR ''E'')]"
  have "list_all simple two_exchanges"
    "inq (client ?w) = map (\<lambda>x. Inr (fst x)) two_exchanges @ Inr Terminate # []"
    "inq (backend ?w) = map Inr (concat (map answer two_exchanges)) @ []" "outq (backend ?w) = []"
    by (simp_all add: two_exchanges_def session_world_def sample_proxy_def endpoint_of_def)
  with session_transparent [OF session_world_ok this(1,2,3), of PlainTCP] show ?thesis
    by (auto simp: exchanged_def two_exchanges_def)
qed

theorem pipelined_sync_deadlock_witness:
  "\<exists>w'. messageLoop 0 TLSConn (session_world [Parse ''s'' ''SELECT 1'', Sync] [OtherBackend ''ParseComplete'']) = (Blocked, w')
     \<and> inq (client w') = [Inr Sync]"
proof -
  let ?w = "session_world [Parse ''s'' ''SELECT 1'', Sync] [OtherBackend ''ParseComplete'']"
  have "inq (client ?w) = Inr (Parse ''s'' ''SELECT 1'') # [Inr Sync]"
    "inq (backend ?w) = map Inr [OtherBackend ''ParseComplete'']"
    by (simp_all add: session_world_def sample_proxy_def endpoint_of_def)
  from pipelined_sync_deadlock [OF session_world_ok _ this, of TLSConn] show ?thesis by auto
qed

theorem failed_reset_still_released_witness:
  "\<exists>w'. teardown 0 ((session_world [] [])\<lparr>execq := [Inl (Err ''closed'')]\<rparr>) = (Ret (), w') \<and> execs w' = [''ROLLBACK'']"
proof -
  let ?w = "(session_world [] [])\<lparr>execq := [Inl (Err ''closed'')]\<rparr>"
  have "pc_poolConn (heap (srv ?w) 0) = Held (sample_pool_conn 41 42)" "execq ?w = Inl (Err ''closed'') # []" "execs ?w = []"
    by (simp_all add: session_world_def sample_proxy_def session_conn_def)
  with failed_reset_still_released [OF this(1,2)] show ?thesis by auto
qed

end
