(* ===== verification/Url.thy ===== *)
theory Url
  imports GoStd "HOL-Library.List_Lexorder" "HOL-Library.Char_ord"
begin

text \<open>
  \<open>url.Values\<close> of \<open>net/url\<close>, as the command line builds query strings and form bodies
  with it, and the reader of that format, which shows that nothing is lost or mixed up.
\<close>

section \<open>Escaping\<close>

text \<open>\<open>shouldEscape\<close> for a query component: letters, digits and four marks stay.\<close>

definition unreserved :: "char \<Rightarrow> bool" where
  "unreserved c \<longleftrightarrow> (let n = of_char c :: nat in
     65 \<le> n \<and> n \<le> 90 \<or> 97 \<le> n \<and> n \<le> 122 \<or> 48 \<le> n \<and> n \<le> 57
     \<or> c \<in> {CHR ''-'', CHR ''_'', CHR ''.'', CHR ''~''})"

definition upper_hex :: "nat \<Rightarrow> char" where
  "upper_hex n = char_of (if n < 10 then n + 48 else n + 55)"

definition unhex :: "char \<Rightarrow> nat option" where
  "unhex c = (let n = of_char c :: nat in
     if 48 \<le> n \<and> n \<le> 57 then Some (n - 48)
     else if 97 \<le> n \<and> n \<le> 102 then Some (n - 87)
     else if 65 \<le> n \<and> n \<le> 70 then Some (n - 55)
     else None)"

definition escape_char :: "char \<Rightarrow> string" where
  "escape_char c = (if unreserved c then [c] else if c = CHR '' '' then ''+''
     else [CHR ''%'', upper_hex (of_char c div 16), upper_hex (of_char c mod 16)])"

definition QueryEscape :: "string \<Rightarrow> string" where
  "QueryEscape s = concat (map escape_char s)"

fun QueryUnescape :: "string \<Rightarrow> string option" where
  "QueryUnescape [] = Some []"
| "QueryUnescape (c # s) =
    (if c = CHR ''%'' then (case s of
        a # b # r \<Rightarrow> (case (unhex a, unhex b) of
            (Some x, Some y) \<Rightarrow> map_option ((#) (char_of (16 * x + y))) (QueryUnescape r)
          | _ \<Rightarrow> None)
      | _ \<Rightarrow> None)
     else map_option ((#) (if c = CHR ''+'' then CHR '' '' else c)) (QueryUnescape s))"

section \<open>Values\<close>

text \<open>A multimap; the keys of the list are distinct.\<close>

type_synonym Values = "(string \<times> string list) list"

fun Add :: "string \<Rightarrow> string \<Rightarrow> Values \<Rightarrow> Values" where
  "Add k v [] = [(k, [v])]"
| "Add k v ((k', vs) # m) = (if k = k' then (k, vs @ [v]) # m else (k', vs) # Add k v m)"

fun Set :: "string \<Rightarrow> string \<Rightarrow> Values \<Rightarrow> Values" where
  "Set k v [] = [(k, [v])]"
| "Set k v ((k', vs) # m) = (if k = k' then (k, [v]) # m else (k', vs) # Set k v m)"

definition encode_pair :: "string \<times> string \<Rightarrow> string" where
  "encode_pair p = QueryEscape (fst p) @ ''='' @ QueryEscape (snd p)"

fun JoinByte :: "char \<Rightarrow> string list \<Rightarrow> string" where
  "JoinByte c [] = ''''"
| "JoinByte c [s] = s"
| "JoinByte c (s # t # r) = s @ c # JoinByte c (t # r)"

text \<open>The pairs of a multimap in the order of \<open>Encode\<close>: by key, the values of a key in theirs.\<close>

definition sorted_pairs :: "Values \<Rightarrow> (string \<times> string) list" where
  "sorted_pairs m = concat (map (\<lambda>(k, vs). map (Pair k) vs) (sort_key fst m))"

definition Encode :: "Values \<Rightarrow> string" where
  "Encode m = JoinByte (CHR ''&'') (map encode_pair (sorted_pairs m))"

text \<open>The reader, \<open>url.ParseQuery\<close> for strings without semicolons.\<close>

definition parse_pair :: "string \<Rightarrow> (string \<times> string) option" where
  "parse_pair s = (case SplitN2 s (CHR ''='') of
     [k, v] \<Rightarrow> (case (QueryUnescape k, QueryUnescape v) of (Some a, Some b) \<Rightarrow> Some (a, b) | _ \<Rightarrow> None)
   | _ \<Rightarrow> map_option (\<lambda>a. (a, '''')) (QueryUnescape s))"

definition ParseQuery :: "string \<Rightarrow> (string \<times> string) list option" where
  "ParseQuery s = (if s = '''' then Some [] else those (map parse_pair (SplitByte s (CHR ''&''))))"

section \<open>Round trip\<close>

lemma unhex_upper: "n < 16 \<Longrightarrow> unhex (upper_hex n) = Some n"
  by (auto simp: unhex_def upper_hex_def Let_def)

lemma upper_hex_not: "n < 16 \<Longrightarrow> of_char (upper_hex n) = (if n < 10 then n + 48 else n + 55)"
  by (simp add: upper_hex_def)

lemma char_lt: "(of_char c :: nat) < 256"
  by simp

lemma unreserved_plain: "unreserved c \<Longrightarrow> c \<noteq> CHR ''%'' \<and> c \<noteq> CHR ''+''"
  by (auto simp: unreserved_def Let_def)

lemma unreserved_no_sep: "unreserved c \<Longrightarrow> c \<noteq> CHR ''&'' \<and> c \<noteq> CHR ''=''"
  by (auto simp: unreserved_def Let_def)

lemma upper_hex_no_sep:
  assumes "n < 16"
  shows "upper_hex n \<noteq> CHR ''&'' \<and> upper_hex n \<noteq> CHR ''=''"
proof -
  have "of_char (upper_hex n) \<noteq> (of_char (CHR ''&'') :: nat)"
    "of_char (upper_hex n) \<noteq> (of_char (CHR ''='') :: nat)"
    unfolding upper_hex_not [OF assms] by simp_all
  then show ?thesis by metis
qed

lemma QueryUnescape_escape_char:
  "QueryUnescape (escape_char c @ s) = map_option ((#) c) (QueryUnescape s)"
proof (cases "unreserved c \<or> c = CHR '' ''")
  case True
  then show ?thesis by (auto simp: escape_char_def dest: unreserved_plain)
next
  case False
  have "(of_char c :: nat) div 16 < 16" using char_lt [of c] by linarith
  moreover have "char_of (16 * (of_char c div 16) + of_char c mod 16) = c"
    by (simp only: mult_div_mod_eq char_of_char)
  ultimately show ?thesis using False
    by (simp add: escape_char_def unhex_upper)
qed

lemma QueryUnescape_QueryEscape: "QueryUnescape (QueryEscape s) = Some s"
proof (induction s)
  case (Cons c s)
  then show ?case by (simp add: QueryEscape_def QueryUnescape_escape_char)
qed (simp add: QueryEscape_def)

lemma escape_char_no:
  assumes "x \<in> set (escape_char c)"
  shows "x \<noteq> CHR ''&'' \<and> x \<noteq> CHR ''=''"
proof (cases "unreserved c")
  case True
  then show ?thesis using assms by (simp add: escape_char_def unreserved_no_sep)
next
  case False
  have "(of_char c :: nat) div 16 < 16" "(of_char c :: nat) mod 16 < 16"
    using char_lt [of c] by linarith+
  from this [THEN upper_hex_no_sep] show ?thesis using assms False
    by (auto simp: escape_char_def split: if_splits)
qed

lemma QueryEscape_no: "CHR ''&'' \<notin> set (QueryEscape s)" "CHR ''='' \<notin> set (QueryEscape s)"
  using escape_char_no by (auto simp: QueryEscape_def)

lemma parse_encode_pair: "parse_pair (encode_pair p) = Some p"
  by (simp add: parse_pair_def encode_pair_def SplitN2_sep QueryEscape_no QueryUnescape_QueryEscape)

lemma encode_pair_no: "CHR ''&'' \<notin> set (encode_pair p)"
  by (simp add: encode_pair_def QueryEscape_no)

lemma SplitByte_join:
  "list_all (\<lambda>s. c \<notin> set s) ss \<Longrightarrow> ss \<noteq> [] \<Longrightarrow> SplitByte (JoinByte c ss) c = ss"
  by (induction c ss rule: JoinByte.induct) (simp_all add: SplitByte_no_sep SplitByte_sep)

lemma those_Some: "those (map (\<lambda>x. Some (f x)) xs) = Some (map f xs)"
  by (induction xs) simp_all

lemma ParseQuery_Encode: "ParseQuery (Encode m) = Some (sorted_pairs m)"
proof (cases "sorted_pairs m = []")
  case True
  then show ?thesis by (simp add: Encode_def ParseQuery_def)
next
  case False
  let ?ps = "map encode_pair (sorted_pairs m)"
  have "list_all (\<lambda>s. CHR ''&'' \<notin> set s) ?ps" by (simp add: list_all_iff encode_pair_no)
  with False have s: "SplitByte (Encode m) (CHR ''&'') = ?ps"
    by (simp add: Encode_def SplitByte_join)
  have "Encode m \<noteq> ''''"
    using False by (cases "(CHR ''&'', ?ps)" rule: JoinByte.cases) (auto simp: Encode_def encode_pair_def)
  with s show ?thesis
    by (simp add: ParseQuery_def comp_def parse_encode_pair those_Some [of "\<lambda>x. x", simplified])
qed

end
