(* ===== verification/Creds.thy ===== *)
theory Creds
  imports Jwt Url
begin

text \<open>
  \<open>internal/cli/loginStatus.go\<close>: the credentials file of the command line, its expiry,
  the claims it shows, and the refresh of the access token. The encoder and decoders of
  JSON, the parser of URLs, the replies of the token server and the outcome of file
  writes are fields of the world; what the theorems need of JSON is \<open>creds_json\<close>. The log
  lines are not kept.
\<close>

section \<open>Data\<close>

record UserInfo =
  Sub :: string
  UserEmail :: string
  UserName :: string
  UserRoles :: "string list"

record SavedCreds =
  AccessToken :: string
  RefreshToken :: string
  IDToken :: string
  CredsExpiresAt :: gotime
  CredsIssuedAt :: gotime
  CredsUser :: UserInfo

record TokenResponse =
  NewAccessToken :: string
  NewRefreshToken :: string
  NewIDToken :: string
  TokenType :: string
  ExpiresIn :: int

text \<open>
  A parsed URL: \<open>String()\<close> puts a non-empty query between the part before and the part
  behind it (the fragment).
\<close>

record url =
  urlFront :: string
  RawQuery :: string
  urlFragment :: string

definition url_String :: "url \<Rightarrow> string" where
  "url_String u = urlFront u @ (if RawQuery u = '''' then '''' else ''?'' @ RawQuery u) @ urlFragment u"

text \<open>The reply of an HTTP server; the read of the body may stop with an error after a part of it.\<close>

record http_response =
  StatusCode :: nat
  Body :: string
  bodyErr :: "error option"

text \<open>
  The outcomes of \<open>os.WriteFile\<close>: the whole content, nothing because the file cannot be
  opened, or only the first bytes, since it truncates the file before it writes.
\<close>

datatype write_outcome = Written | NotOpened error | Torn nat error

record cli_world =
  cenv :: environ
  GOOS :: string
  cclock :: "nat \<Rightarrow> gotime"
  cticks :: nat
  mkdir_err :: "string \<Rightarrow> error option"
  files :: "string \<rightharpoonup> string"
  writes :: nat
  write_outcome :: "nat \<Rightarrow> write_outcome"
  marshal :: "SavedCreds \<Rightarrow> error + string"
  unmarshal :: "string \<Rightarrow> error + SavedCreds"
  decode_claims :: "u8 list \<Rightarrow> error + claims"
  decode_tokens :: "string \<Rightarrow> error + TokenResponse"
  url_Parse :: "string \<Rightarrow> url option"
  http_reply :: "nat \<Rightarrow> error + http_response"
  requests :: "(string \<times> string) list"

section \<open>The system calls\<close>

definition cli_now :: "('a cli_world_scheme, gotime) prog" where
  "cli_now w = (Ret (cclock w (cticks w)), w\<lparr>cticks := Suc (cticks w)\<rparr>)"

definition env_var :: "string \<Rightarrow> ('a cli_world_scheme, string) prog" where
  "env_var k = gets (\<lambda>w. Getenv (cenv w) k)"

definition UserHomeDir :: "('a cli_world_scheme, error + string) prog" where
  "UserHomeDir = gets (\<lambda>w.
     let home = Getenv (cenv w) (if GOOS w = ''windows'' then ''USERPROFILE'' else ''HOME'')
     in if home = '''' then Inl (Err ''$HOME is not defined'') else Inr home)"

text \<open>\<open>filepath.Clean\<close> and \<open>Join\<close> of two elements, with \<open>/\<close> as the separator.\<close>

fun clean_elems :: "bool \<Rightarrow> string list \<Rightarrow> string list \<Rightarrow> string list" where
  "clean_elems rooted out [] = rev out"
| "clean_elems rooted out (e # es) =
     (if e = '''' \<or> e = ''.'' then clean_elems rooted out es
      else if e \<noteq> ''..'' then clean_elems rooted (e # out) es
      else (case out of
        d # ds \<Rightarrow> if d = ''..'' then clean_elems rooted (e # out) es else clean_elems rooted ds es
      | [] \<Rightarrow> clean_elems rooted (if rooted then [] else [e]) es))"

definition Clean :: "string \<Rightarrow> string" where
  "Clean p = (let rooted = HasPrefix p ''/'';
      s = (if rooted then ''/'' else '''')
          @ JoinByte (CHR ''/'') (clean_elems rooted [] (SplitByte p (CHR ''/'')))
    in if s = '''' then ''.'' else s)"

definition filepath_Join :: "string \<Rightarrow> string \<Rightarrow> string" where
  "filepath_Join a b = (if a = '''' then Clean b else Clean (a @ ''/'' @ b))"

definition MkdirAll :: "string \<Rightarrow> ('a cli_world_scheme, error + unit) prog" where
  "MkdirAll p = gets (\<lambda>w. case mkdir_err w p of Some e \<Rightarrow> Inl e | None \<Rightarrow> Inr ())"

definition ReadFile :: "string \<Rightarrow> ('a cli_world_scheme, error + string) prog" where
  "ReadFile p = gets (\<lambda>w. case files w p of None \<Rightarrow> Inl (Err ''open file'') | Some d \<Rightarrow> Inr d)"

definition WriteFile :: "string \<Rightarrow> string \<Rightarrow> ('a cli_world_scheme, error + unit) prog" where
  "WriteFile p d w0 = (let w = w0\<lparr>writes := Suc (writes w0)\<rparr> in
    case write_outcome w0 (writes w0) of
      Written \<Rightarrow> (Ret (Inr ()), w\<lparr>files := (files w)(p \<mapsto> d)\<rparr>)
    | NotOpened e \<Rightarrow> (Ret (Inl e), w)
    | Torn n e \<Rightarrow> (Ret (Inl e), w\<lparr>files := (files w)(p \<mapsto> take n d)\<rparr>))"

text \<open>
  \<open>http.NewRequest("POST", url, body)\<close> and \<open>client.Do\<close>: the request fails to be built when
  its URL does not parse; a request that was built is sent, and within the 30 seconds of
  the client's timeout there is a reply or an error.
\<close>

definition http_NewRequest :: "string \<Rightarrow> ('a cli_world_scheme, error + unit) prog" where
  "http_NewRequest u = gets (\<lambda>w. if url_Parse w u = None then Inl (Err ''parse url'') else Inr ())"

definition client_Do :: "string \<Rightarrow> string \<Rightarrow> ('a cli_world_scheme, error + http_response) prog" where
  "client_Do u form w = (Ret (http_reply w (length (requests w))),
     w\<lparr>requests := requests w @ [(u, form)]\<rparr>)"

section \<open>The credentials file\<close>

definition getCredentialsPath :: "('a cli_world_scheme, error + string) prog" where
  "getCredentialsPath =
    ifErr UserHomeDir (\<lambda>e. ret (Inl e)) (\<lambda>homeDir.
    let gprxyDir = filepath_Join homeDir ''.gprxy'' in
    ifErr (MkdirAll gprxyDir) (\<lambda>e. ret (Inl e)) (\<lambda>_.
    ret (Inr (filepath_Join gprxyDir ''credentials''))))"

definition saveCreds :: "SavedCreds \<Rightarrow> ('a cli_world_scheme, error + unit) prog" where
  "saveCreds creds =
    ifErr getCredentialsPath (\<lambda>e. ret (Inl e)) (\<lambda>path.
    ifErr (gets (\<lambda>w. marshal w creds)) (\<lambda>e. ret (Inl e)) (\<lambda>data.
    WriteFile path data))"

definition loadCreds :: "('a cli_world_scheme, error + SavedCreds) prog" where
  "loadCreds =
    ifErr getCredentialsPath (\<lambda>e. ret (Inl e)) (\<lambda>path.
    ifErr (ReadFile path) (\<lambda>e. ret (Inl e)) (\<lambda>data.
    ifErr (gets (\<lambda>w. unmarshal w data)) (\<lambda>e. ret (Inl e)) (\<lambda>creds.
    ret (Inr creds))))"

text \<open>\<open>time.Until(t)\<close>\<close>

definition time_Until :: "gotime \<Rightarrow> ('a cli_world_scheme, int) prog" where
  "time_Until t = andThen cli_now (\<lambda>n. ret (time_Sub t n))"

definition isExpired :: "SavedCreds \<Rightarrow> ('a cli_world_scheme, bool) prog" where
  "isExpired creds = andThen (time_Until (CredsExpiresAt creds)) (\<lambda>d. ret (d < 3 * minute))"

section \<open>Claims\<close>

text \<open>\<open>parseIDToken\<close> reads the payload of its token with the same statements.\<close>

definition parseAccessToken :: "string \<Rightarrow> ('a cli_world_scheme, error + claims) prog" where
  "parseAccessToken tok =
    (case SplitByte tok (CHR ''.'') of
       [_, p, _] \<Rightarrow> (case DecodeString p of
           Inl e \<Rightarrow> ret (Inl e)
         | Inr payload \<Rightarrow> gets (\<lambda>w. decode_claims w payload))
     | _ \<Rightarrow> ret (Inl (Err ''invalid token format'')))"

definition getString :: "claims \<Rightarrow> string \<Rightarrow> string" where
  "getString m key = (case m key of Some (JStr v) \<Rightarrow> v | _ \<Rightarrow> '''')"

definition parseIDToken :: "string \<Rightarrow> ('a cli_world_scheme, error + UserInfo) prog" where
  "parseIDToken idToken =
    ifErr (parseAccessToken idToken) (\<lambda>e. ret (Inl e)) (\<lambda>claims.
    ret (Inr \<lparr>Sub = getString claims ''sub'', UserEmail = getString claims ''email'',
      UserName = getString claims ''name'', UserRoles = []\<rparr>))"

definition extractRolesFromClaims :: "claims \<Rightarrow> string list" where
  "extractRolesFromClaims claims = (case claims ''role'' of
     None \<Rightarrow> []
   | Some roleInterface \<Rightarrow> (case roleInterface of
       JArr rolesArr \<Rightarrow> List.map_filter (\<lambda>r. case r of JStr s \<Rightarrow> Some s | _ \<Rightarrow> None) rolesArr
     | _ \<Rightarrow> []))"

section \<open>Refresh\<close>

definition refresh_form :: "string \<Rightarrow> string \<Rightarrow> Values" where
  "refresh_form client_id refreshToken =
     Add ''refresh_token'' refreshToken
       (Add ''client_id'' client_id (Add ''grant_type'' ''refresh_token'' []))"

text \<open>\<open>time.Now().Add(time.Duration(n) * time.Second)\<close>; the product wraps around.\<close>

definition expiry :: "gotime \<Rightarrow> int \<Rightarrow> gotime" where
  "expiry t n = t + wrap64 (n * second)"

text \<open>The part of \<open>getRefreshToken\<close> behind the decoded reply.\<close>

definition storeRefreshed :: "SavedCreds \<Rightarrow> TokenResponse \<Rightarrow>
    ('a cli_world_scheme, error + SavedCreds) prog" where
  "storeRefreshed oldCreds tokens =
    andThen (ifErr (parseAccessToken (NewAccessToken tokens))
      (\<lambda>e. ret (UserRoles (CredsUser oldCreds)))
      (\<lambda>accessClaims. ret (extractRolesFromClaims accessClaims))) (\<lambda>roles.
    andThen cli_now (\<lambda>t1.
    andThen cli_now (\<lambda>t2.
    let newCreds = \<lparr>AccessToken = NewAccessToken tokens, RefreshToken = NewRefreshToken tokens,
          IDToken = NewIDToken tokens, CredsExpiresAt = expiry t1 (ExpiresIn tokens),
          CredsIssuedAt = t2, CredsUser = \<lparr>Sub = Sub (CredsUser oldCreds),
            UserEmail = UserEmail (CredsUser oldCreds), UserName = UserName (CredsUser oldCreds),
            UserRoles = roles\<rparr>\<rparr>
    in andThen (saveCreds newCreds) (\<lambda>err. ret (Inr newCreds)))))"

text \<open>The reply to the request: read error, status, decoding.\<close>

definition useReply :: "SavedCreds \<Rightarrow> http_response \<Rightarrow>
    ('a cli_world_scheme, error + SavedCreds) prog" where
  "useReply oldCreds response =
    (case bodyErr response of
       Some e \<Rightarrow> ret (Inl (Wrap ''failed to read refresh token response: %v'' e))
     | None \<Rightarrow>
    if StatusCode response \<noteq> 200 then ret (Inl (Err ''token refresh failed with status %d: %s''))
    else
    ifErr (gets (\<lambda>w. decode_tokens w (Body response)))
      (\<lambda>e. ret (Inl (Wrap ''failed to parse refresh token response: %v'' e)))
      (\<lambda>tokens. storeRefreshed oldCreds tokens))"

text \<open>\<open>url.Parse\<close> gives nil with its error, which the code drops: \<open>String\<close> on nil panics.\<close>

definition getRefreshToken :: "('a cli_world_scheme, error + SavedCreds) prog" where
  "getRefreshToken =
    ifErr loadCreds (\<lambda>e. ret (Inl (Wrap ''failed to load creds: %v'' e))) (\<lambda>oldCreds.
    if RefreshToken oldCreds = ''''
    then ret (Inl (Err ''no refresh token found, pls authenticate using gprxy login''))
    else
    andThen (env_var ''AUTH0_TENANT'') (\<lambda>auth0_url.
    andThen (env_var ''AUTH0_NATIVE_CLIENT_ID'') (\<lambda>client_id.
    if auth0_url = '''' \<or> client_id = ''''
    then ret (Inl (Err ''AUTH0_TENANT or AUTH0_NATIVE_CLIENT_ID not configured''))
    else
    andThen (gets (\<lambda>w. url_Parse w (''https://'' @ auth0_url @ ''/oauth/token''))) (\<lambda>u. case u of
      None \<Rightarrow> panic
    | Some refresh_url \<Rightarrow>
        ifErr (http_NewRequest (url_String refresh_url))
          (\<lambda>e. ret (Inl (Wrap ''failed to create refresh token request: %v'' e))) (\<lambda>_.
        ifErr (client_Do (url_String refresh_url)
            (Encode (refresh_form client_id (RefreshToken oldCreds))))
          (\<lambda>e. ret (Inl (Wrap ''failed to send refresh token request: %v'' e)))
          (useReply oldCreds))))))"

definition loginStatus :: "('a cli_world_scheme, bool) prog" where
  "loginStatus =
    ifErr loadCreds (\<lambda>e. ret False) (\<lambda>creds.
    andThen (isExpired creds) (\<lambda>expired.
    if expired then ifErr getRefreshToken (\<lambda>e. ret False) (\<lambda>newCreds. ret True)
    else andThen (time_Until (CredsExpiresAt creds)) (\<lambda>_. ret True)))"

section \<open>What the commands leave alone\<close>

text \<open>
  The environment, the outside world's answers and what lies beyond the record never
  change; requests and clock readings are only added.
\<close>

definition cli_le :: "'a cli_world_scheme \<Rightarrow> 'a cli_world_scheme \<Rightarrow> bool" where
  "cli_le w w' \<longleftrightarrow> cenv w' = cenv w \<and> GOOS w' = GOOS w \<and> mkdir_err w' = mkdir_err w
     \<and> marshal w' = marshal w \<and> unmarshal w' = unmarshal w \<and> decode_tokens w' = decode_tokens w
     \<and> decode_claims w' = decode_claims w \<and> url_Parse w' = url_Parse w \<and> http_reply w' = http_reply w
     \<and> write_outcome w' = write_outcome w \<and> cclock w' = cclock w
     \<and> cticks w \<le> cticks w' \<and> writes w \<le> writes w' \<and> (\<exists>rs. requests w' = requests w @ rs)
     \<and> cli_world.more w' = cli_world.more w"

interpretation cli: frame "cli_le :: 'a cli_world_scheme \<Rightarrow> 'a cli_world_scheme \<Rightarrow> bool"
  by unfold_locales (auto simp: cli_le_def)

lemma cli_now_le: "related cli_le cli_now"
  by (simp add: related_def cli_now_def cli_le_def)

lemma WriteFile_le: "related cli_le (WriteFile p d)"
  by (simp add: related_def WriteFile_def cli_le_def Let_def split: write_outcome.split)

lemma client_Do_le: "related cli_le (client_Do u form)"
  by (simp add: related_def client_Do_def cli_le_def)

section \<open>The file\<close>

text \<open>The path and the stored credentials as functions of the world.\<close>

definition credentials_file :: "'a cli_world_scheme \<Rightarrow> error + string" where
  "credentials_file w =
     bindE (let home = Getenv (cenv w) (if GOOS w = ''windows'' then ''USERPROFILE'' else ''HOME'')
       in if home = '''' then Inl (Err ''$HOME is not defined'') else Inr home) (\<lambda>home.
     bindE (case mkdir_err w (filepath_Join home ''.gprxy'') of Some e \<Rightarrow> Inl e | None \<Rightarrow> Inr ()) (\<lambda>_.
     Inr (filepath_Join (filepath_Join home ''.gprxy'') ''credentials'')))"

definition stored :: "'a cli_world_scheme \<Rightarrow> error + SavedCreds" where
  "stored w = bindE (credentials_file w) (\<lambda>p.
     bindE (case files w p of None \<Rightarrow> Inl (Err ''open file'') | Some d \<Rightarrow> Inr d) (unmarshal w))"

lemma getCredentialsPath_eq: "getCredentialsPath w = (Ret (credentials_file w), w)"
  by (simp add: getCredentialsPath_def credentials_file_def UserHomeDir_def MkdirAll_def prog_simps
      Let_def bindE_def split: option.split)

lemma loadCreds_eq: "loadCreds w = (Ret (stored w), w)"
  by (simp add: loadCreds_def stored_def getCredentialsPath_eq ReadFile_def prog_simps bindE_def
      split: sum.split option.split)

lemma credentials_file_cong:
  "cenv w' = cenv w \<Longrightarrow> GOOS w' = GOOS w \<Longrightarrow> mkdir_err w' = mkdir_err w \<Longrightarrow>
     credentials_file w' = credentials_file w"
  by (simp add: credentials_file_def)

lemma stored_same:
  "cli_le w w' \<Longrightarrow> files w' = files w \<Longrightarrow> stored w' = stored w"
  using credentials_file_cong [of w' w] by (auto simp: stored_def cli_le_def)

lemma getCredentialsPath_le: "related cli_le getCredentialsPath"
  by (simp add: related_def getCredentialsPath_eq cli.R_refl)

lemma loadCreds_le: "related cli_le loadCreds"
  by (simp add: related_def loadCreds_eq cli.R_refl)

lemma saveCreds_le: "related cli_le (saveCreds c)"
  unfolding saveCreds_def
  by (intro cli.related_rules getCredentialsPath_le WriteFile_le)

lemma saveCreds_cases:
  assumes "saveCreds c w = (out, w')"
  obtains (failed) e where "out = Ret (Inl e)" "files w' = files w"
  | (torn) e p d n where "out = Ret (Inl e)" "credentials_file w = Inr p" "marshal w c = Inr d"
      "files w' = (files w)(p \<mapsto> take n d)"
  | (written) p d where "out = Ret (Inr ())" "credentials_file w = Inr p" "marshal w c = Inr d"
      "files w' = (files w)(p \<mapsto> d)"
  using assms
  by (auto simp: saveCreds_def getCredentialsPath_eq WriteFile_def prog_simps Let_def
      split: sum.splits write_outcome.splits)

text \<open>
  What \<open>encoding/json\<close> promises for a \<open>SavedCreds\<close> without bytes outside ASCII (others it
  may replace): the encoding is read back as the same value, and no proper prefix of it
  is a JSON document, since it is an object.
\<close>

definition ascii_creds :: "SavedCreds \<Rightarrow> bool" where
  "ascii_creds c \<longleftrightarrow> is_ascii (AccessToken c) \<and> is_ascii (RefreshToken c) \<and> is_ascii (IDToken c)
     \<and> is_ascii (Sub (CredsUser c)) \<and> is_ascii (UserEmail (CredsUser c))
     \<and> is_ascii (UserName (CredsUser c)) \<and> list_all is_ascii (UserRoles (CredsUser c))"

definition creds_json :: "'a cli_world_scheme \<Rightarrow> bool" where
  "creds_json w \<longleftrightarrow> (\<forall>c d. ascii_creds c \<and> marshal w c = Inr d \<longrightarrow>
     unmarshal w d = Inr c \<and> (\<forall>n < length d. \<exists>e. unmarshal w (take n d) = Inl e))"

lemma creds_json_le: "cli_le w w' \<Longrightarrow> creds_json w' = creds_json w"
  by (simp add: creds_json_def cli_le_def)

lemma stored_updated:
  assumes "cli_le w w'" and "credentials_file w = Inr p" and "files w' = (files w)(p \<mapsto> d)"
  shows "stored w' = unmarshal w d"
proof -
  have "credentials_file w' = Inr p"
    using assms(1,2) credentials_file_cong [of w' w] by (simp add: cli_le_def)
  with assms(1,3) show ?thesis by (simp add: stored_def cli_le_def)
qed

lemma saveCreds_stored:
  assumes s: "saveCreds c w = (out, w')" and j: "creds_json w" "ascii_creds c"
  shows "(out = Ret (Inr ()) \<longrightarrow> stored w' = Inr c)
     \<and> (stored w' = Inr c \<or> stored w' = stored w \<or> (\<exists>e. stored w' = Inl e))"
proof -
  have le: "cli_le w w'" by (rule relatedD [OF saveCreds_le s])
  from s show ?thesis
  proof (cases rule: saveCreds_cases)
    case failed
    with stored_same [OF le] show ?thesis by simp
  next
    case (torn e p d n)
    then have "stored w' = unmarshal w (take n d)" using stored_updated [OF le] by simp
    with torn j show ?thesis by (cases "n < length d") (auto simp: creds_json_def)
  next
    case (written p d)
    then have "stored w' = unmarshal w d" using stored_updated [OF le] by simp
    with written j show ?thesis by (simp add: creds_json_def)
  qed
qed

text \<open>C29: Credentials survive the file. What \<open>saveCreds\<close> reports as saved is what \<open>loadCreds\<close>
  gives back; a save that fails (no home directory, no permission, a write that stops in
  the middle) leaves the old credentials, the new ones or a file that does not load, never
  a mixture.\<close>

theorem creds_roundtrip:
  assumes "creds_json w" and "ascii_creds c" and "saveCreds c w = (out, w')"
  shows "(out = Ret (Inr ()) \<longrightarrow> loadCreds w' = (Ret (Inr c), w'))
     \<and> (\<exists>r. loadCreds w' = (Ret r, w') \<and> (\<forall>c'. r = Inr c' \<longrightarrow> c' = c \<or> loadCreds w = (Ret (Inr c'), w)))"
  using saveCreds_stored [OF assms(3,1,2)] by (auto simp: loadCreds_eq)


section \<open>Refresh\<close>

lemma parseAccessToken_eq: "\<exists>r. parseAccessToken tok w = (Ret r, w)"
  by (auto simp: parseAccessToken_def prog_simps split: list.split sum.split)

lemma parseAccessToken_le: "related cli_le (parseAccessToken tok)"
proof (rule relatedI)
  fix w
  show "cli_le w (snd (parseAccessToken tok w))"
    using parseAccessToken_eq [of tok w] by (auto simp: cli.R_refl)
qed

lemma storeRefreshed_le: "related cli_le (storeRefreshed old tokens)"
  unfolding storeRefreshed_def Let_def
  by (intro cli.related_rules parseAccessToken_le cli_now_le saveCreds_le)

lemma useReply_le: "related cli_le (useReply old response)"
  unfolding useReply_def
  by (auto intro!: cli.related_rules storeRefreshed_le split: option.split)

lemma getRefreshToken_le: "related cli_le getRefreshToken"
  unfolding getRefreshToken_def env_var_def http_NewRequest_def
  by (auto intro!: cli.related_rules loadCreds_le client_Do_le useReply_le split: option.split)

lemma requests_saveCreds: "saveCreds c w = (out, w') \<Longrightarrow> requests w' = requests w \<and> (\<exists>r. out = Ret r)"
  by (auto simp: saveCreds_def getCredentialsPath_eq WriteFile_def prog_simps Let_def
      split: sum.splits write_outcome.splits)

text \<open>The new credentials, and the file they are written to.\<close>

definition refreshed :: "SavedCreds \<Rightarrow> TokenResponse \<Rightarrow> SavedCreds \<Rightarrow> bool" where
  "refreshed old tokens c \<longleftrightarrow> AccessToken c = NewAccessToken tokens
     \<and> RefreshToken c = NewRefreshToken tokens \<and> IDToken c = NewIDToken tokens
     \<and> Sub (CredsUser c) = Sub (CredsUser old) \<and> UserEmail (CredsUser c) = UserEmail (CredsUser old)
     \<and> UserName (CredsUser c) = UserName (CredsUser old)"

lemma storeRefreshed_cases:
  assumes "storeRefreshed old tokens w = (out, w')"
  obtains c w1 r where "out = Ret (Inr c)" "refreshed old tokens c" "files w1 = files w"
    "requests w1 = requests w" "cli_le w w1" "saveCreds c w1 = (Ret r, w')"
    "CredsExpiresAt c = expiry (cclock w (cticks w)) (ExpiresIn tokens)"
proof -
  obtain r where p: "parseAccessToken (NewAccessToken tokens) w = (Ret r, w)"
    using parseAccessToken_eq by blast
  define roles where "roles = (case r of Inl _ \<Rightarrow> UserRoles (CredsUser old)
    | Inr claims \<Rightarrow> extractRolesFromClaims claims)"
  let ?t = "cticks w"
  define c where "c = \<lparr>AccessToken = NewAccessToken tokens, RefreshToken = NewRefreshToken tokens,
    IDToken = NewIDToken tokens, CredsExpiresAt = expiry (cclock w ?t) (ExpiresIn tokens),
    CredsIssuedAt = cclock w (Suc ?t), CredsUser = \<lparr>Sub = Sub (CredsUser old),
      UserEmail = UserEmail (CredsUser old), UserName = UserName (CredsUser old), UserRoles = roles\<rparr>\<rparr>"
  let ?w1 = "w\<lparr>cticks := Suc (Suc ?t)\<rparr>"
  obtain q w2 where s: "saveCreds c ?w1 = (q, w2)" by fastforce
  then obtain x where q: "q = Ret x" using requests_saveCreds by blast
  have "storeRefreshed old tokens w = (Ret (Inr c), w2)"
    using s unfolding q
    by (cases r) (simp_all add: storeRefreshed_def prog_simps p cli_now_def Let_def c_def roles_def)
  with assms have "out = Ret (Inr c)" "w' = w2" by simp_all
  with s q show ?thesis
    by (intro that [of c ?w1 x]) (simp_all add: c_def refreshed_def cli_le_def)
qed

lemma useReply_cases:
  assumes "useReply old response w = (out, w')"
  obtains (failed) e where "out = Ret (Inl e)" "w' = w"
  | (ok) tokens where "StatusCode response = 200" "decode_tokens w (Body response) = Inr tokens"
      "bodyErr response = None" "storeRefreshed old tokens w = (out, w')"
  using assms
  by (auto simp: useReply_def prog_simps split: option.splits if_splits sum.splits)

lemma getRefreshToken_cases:
  assumes "getRefreshToken w = (out, w')"
  obtains (early) e where "out = Ret (Inl e)" "w' = w"
  | (badURL) "out = Panic" "w' = w"
      "url_Parse w (''https://'' @ Getenv (cenv w) ''AUTH0_TENANT'' @ ''/oauth/token'') = None"
  | (sent) old u where "stored w = Inr old" "RefreshToken old \<noteq> ''''"
      "url_Parse w (''https://'' @ Getenv (cenv w) ''AUTH0_TENANT'' @ ''/oauth/token'') = Some u"
      "(case http_reply w (length (requests w)) of
          Inl e \<Rightarrow> ret (Inl (Wrap ''failed to send refresh token request: %v'' e))
        | Inr response \<Rightarrow> useReply old response)
         (w\<lparr>requests := requests w @ [(url_String u, Encode (refresh_form
            (Getenv (cenv w) ''AUTH0_NATIVE_CLIENT_ID'') (RefreshToken old)))]\<rparr>) = (out, w')"
proof (cases "stored w")
  case (Inl e)
  with assms show ?thesis by (intro early) (auto simp: getRefreshToken_def loadCreds_eq prog_simps)
next
  case (Inr old)
  note eval = getRefreshToken_def loadCreds_eq env_var_def prog_simps Inr
  let ?tenant = "Getenv (cenv w) ''AUTH0_TENANT''" and ?cid = "Getenv (cenv w) ''AUTH0_NATIVE_CLIENT_ID''"
  consider "RefreshToken old = '''' \<or> ?tenant = '''' \<or> ?cid = ''''"
    | (none) "RefreshToken old \<noteq> ''''" "?tenant \<noteq> ''''" "?cid \<noteq> ''''"
        "url_Parse w (''https://'' @ ?tenant @ ''/oauth/token'') = None"
    | (some) u where "RefreshToken old \<noteq> ''''" "?tenant \<noteq> ''''" "?cid \<noteq> ''''"
        "url_Parse w (''https://'' @ ?tenant @ ''/oauth/token'') = Some u"
    by blast
  then show ?thesis
  proof cases
    case 1
    with assms have "\<exists>e. out = Ret (Inl e) \<and> w' = w"
      by (cases "RefreshToken old = ''''") (auto simp: eval)
    then show ?thesis using early by blast
  next
    case none
    with assms show ?thesis by (intro badURL) (simp_all add: eval)
  next
    case some
    show ?thesis
    proof (cases "url_Parse w (url_String u)")
      case None
      with some assms have "\<exists>e. out = Ret (Inl e) \<and> w' = w" by (auto simp: eval http_NewRequest_def)
      then show ?thesis using early by blast
    next
      case (Some v)
      with some assms Inr show ?thesis
        by (intro sent [of old u])
          (simp_all add: eval http_NewRequest_def client_Do_def split: sum.splits)
    qed
  qed
qed

lemma useReply_requests: "useReply old response w = (out, w') \<Longrightarrow> requests w' = requests w"
proof (cases "bodyErr response = None \<and> StatusCode response = 200 \<and> (\<exists>t. decode_tokens w (Body response) = Inr t)")
  case True
  assume run: "useReply old response w = (out, w')"
  from True obtain t where "decode_tokens w (Body response) = Inr t" by blast
  with True run have "storeRefreshed old t w = (out, w')" by (simp add: useReply_def prog_simps)
  then show ?thesis by (cases rule: storeRefreshed_cases) (auto dest: requests_saveCreds)
qed (auto simp: useReply_def prog_simps split: option.splits if_splits sum.splits)

text \<open>A refresh sends at most one request.\<close>

definition refresh_request :: "'a cli_world_scheme \<Rightarrow> string \<times> string \<Rightarrow> bool" where
  "refresh_request w q \<longleftrightarrow> (\<exists>old u. stored w = Inr old
     \<and> url_Parse w (''https://'' @ Getenv (cenv w) ''AUTH0_TENANT'' @ ''/oauth/token'') = Some u
     \<and> q = (url_String u, Encode (refresh_form (Getenv (cenv w) ''AUTH0_NATIVE_CLIENT_ID'') (RefreshToken old))))"

lemma refresh_requests:
  assumes "getRefreshToken w = (out, w')"
  shows "requests w' = requests w \<or> (\<exists>q. refresh_request w q \<and> requests w' = requests w @ [q])"
  using assms
proof (cases rule: getRefreshToken_cases)
  case (sent old u)
  then have "requests w' = requests w @ [(url_String u, Encode (refresh_form
      (Getenv (cenv w) ''AUTH0_NATIVE_CLIENT_ID'') (RefreshToken old)))]"
    by (cases "http_reply w (length (requests w))") (auto simp: prog_simps dest: useReply_requests)
  with sent show ?thesis unfolding refresh_request_def by blast
qed simp_all

lemma ParseQuery_refresh_form:
  "ParseQuery (Encode (refresh_form cid tok)) =
     Some [(''client_id'', cid), (''grant_type'', ''refresh_token''), (''refresh_token'', tok)]"
  by (simp add: ParseQuery_Encode refresh_form_def sorted_pairs_def)


text \<open>C24: The refresh. New credentials come from one request to the tenant's token endpoint whose
  form, decoded, is the grant type, the client id and the stored refresh token; the reply
  had status 200, and the new credentials carry its tokens and the old identity: a refresh
  cannot change who the user is.\<close>

theorem refresh_keeps_identity:
  assumes "getRefreshToken w = (Ret (Inr c), w')"
  shows "\<exists>old u form response tokens. loadCreds w = (Ret (Inr old), w) \<and> RefreshToken old \<noteq> ''''
     \<and> url_Parse w (''https://'' @ Getenv (cenv w) ''AUTH0_TENANT'' @ ''/oauth/token'') = Some u
     \<and> requests w' = requests w @ [(url_String u, form)]
     \<and> ParseQuery form = Some [(''client_id'', Getenv (cenv w) ''AUTH0_NATIVE_CLIENT_ID''),
         (''grant_type'', ''refresh_token''), (''refresh_token'', RefreshToken old)]
     \<and> http_reply w (length (requests w)) = Inr response \<and> StatusCode response = 200
     \<and> decode_tokens w (Body response) = Inr tokens \<and> refreshed old tokens c"
  using assms
proof (cases rule: getRefreshToken_cases)
  case (sent old u)
  let ?form = "Encode (refresh_form (Getenv (cenv w) ''AUTH0_NATIVE_CLIENT_ID'') (RefreshToken old))"
  let ?w1 = "w\<lparr>requests := requests w @ [(url_String u, ?form)]\<rparr>"
  from sent obtain response where r: "http_reply w (length (requests w)) = Inr response"
    "useReply old response ?w1 = (Ret (Inr c), w')"
    by (cases "http_reply w (length (requests w))") (auto simp: prog_simps)
  from r(2) obtain tokens where t: "StatusCode response = 200"
    "decode_tokens w (Body response) = Inr tokens" "storeRefreshed old tokens ?w1 = (Ret (Inr c), w')"
    by (cases rule: useReply_cases) auto
  from t(3) have "refreshed old tokens c \<and> requests w' = requests w @ [(url_String u, ?form)]"
    by (cases rule: storeRefreshed_cases) (auto dest: requests_saveCreds)
  with sent r t(1,2) show ?thesis by (auto simp: loadCreds_eq ParseQuery_refresh_form)
qed simp_all

lemma refresh_failure:
  assumes "getRefreshToken w = (Ret (Inl e), w')"
  shows "files w' = files w"
  using assms
proof (cases rule: getRefreshToken_cases)
  case (sent old u)
  then show ?thesis
    by (cases "http_reply w (length (requests w))")
      (auto simp: prog_simps elim: useReply_cases storeRefreshed_cases)
qed simp_all

text \<open>A refresh that fails changes no file, and a successful one leaves in the file the
  credentials it returns, the ones that were there, or a file that does not load.\<close>

theorem refresh_never_corrupts:
  assumes "creds_json w" and "getRefreshToken w = (Ret r, w')" and "\<forall>c. r = Inr c \<longrightarrow> ascii_creds c"
  shows "(\<forall>e. r = Inl e \<longrightarrow> files w' = files w)
     \<and> (\<forall>c. r = Inr c \<longrightarrow> stored w' = Inr c \<or> stored w' = stored w \<or> (\<exists>e. stored w' = Inl e))"
proof (cases r)
  case (Inl e)
  with assms(2) show ?thesis by (simp add: refresh_failure)
next
  case (Inr c)
  with assms(2) obtain w1 where s: "\<exists>q. saveCreds c w1 = (Ret q, w')"
    and w1: "files w1 = files w" "cli_le w w1"
  proof (cases rule: getRefreshToken_cases)
    case (sent old u)
    let ?w2 = "w\<lparr>requests := requests w @ [(url_String u, Encode (refresh_form
      (Getenv (cenv w) ''AUTH0_NATIVE_CLIENT_ID'') (RefreshToken old)))]\<rparr>"
    from sent Inr obtain response tokens where "storeRefreshed old tokens ?w2 = (Ret (Inr c), w')"
      by (cases "http_reply w (length (requests w))") (auto simp: prog_simps elim: useReply_cases)
    then show ?thesis
    proof (cases rule: storeRefreshed_cases)
      case (1 c' w1 q)
      moreover have "cli_le w ?w2" by (simp add: cli_le_def)
      ultimately show ?thesis by (intro that [of w1]) (auto intro: cli.R_trans)
    qed
  qed simp_all
  from w1 have "stored w1 = stored w" "creds_json w1"
    using assms(1) by (simp_all add: stored_same creds_json_le)
  with s assms(3) Inr show ?thesis using saveCreds_stored [of c w1 _ w'] by auto
qed

text \<open>The token server may answer a refresh without a new refresh token. The code then
  saves an empty one over the old: from the saved credentials no further refresh is
  possible, every later one fails without a request.\<close>

theorem refresh_token_lost:
  assumes "getRefreshToken w = (Ret (Inr c), w')" and "RefreshToken c = ''''"
    and "loadCreds w' = (Ret (Inr c), w')"
  shows "(\<exists>old. loadCreds w = (Ret (Inr old), w) \<and> RefreshToken old \<noteq> '''')
     \<and> getRefreshToken w' =
        (Ret (Inl (Err ''no refresh token found, pls authenticate using gprxy login'')), w')"
proof
  show "\<exists>old. loadCreds w = (Ret (Inr old), w) \<and> RefreshToken old \<noteq> ''''"
    using assms(1) by (cases rule: getRefreshToken_cases) (simp_all add: loadCreds_eq)
next
  show "getRefreshToken w' =
      (Ret (Inl (Err ''no refresh token found, pls authenticate using gprxy login'')), w')"
    unfolding getRefreshToken_def using assms(2,3) by (simp add: prog_simps)
qed


section \<open>Expiry\<close>

lemma expiry_exact: "0 \<le> n \<Longrightarrow> n \<le> 9223372036 \<Longrightarrow> expiry t n = t + n * second"
  by (simp add: expiry_def second_def wrap64_id)

lemma wrap64_bounds: "- (2 ^ 63) \<le> wrap64 x" "wrap64 x < 2 ^ 63"
  by (simp_all add: wrap64_def)

lemma expiry_not_exact: "9223372036 < n \<Longrightarrow> expiry t n \<noteq> t + n * second"
  using wrap64_bounds [of "n * second"] by (auto simp: expiry_def second_def)

lemma isExpired_eq:
  "isExpired c w = (Ret (CredsExpiresAt c - cclock w (cticks w) < 3 * minute), w\<lparr>cticks := Suc (cticks w)\<rparr>)"
  by (auto simp: isExpired_def time_Until_def cli_now_def prog_simps time_Sub_def minute_def second_def)

text \<open>C35: Expiry at its bounds. The expiry time computed from a life time in seconds is exact as
  long as it fits a 64-bit duration (9223372036 seconds, some 292 years) and never beyond;
  credentials with an exact one count as expired precisely from three minutes before the
  end of their life time.\<close>

theorem expiry_bounds:
  assumes "0 \<le> n"
  shows "(expiry t n = t + n * second) = (n \<le> 9223372036)
     \<and> (CredsExpiresAt c = expiry t n \<and> n \<le> 9223372036 \<longrightarrow>
         fst (isExpired c w) = Ret (t + (n - 180) * second < cclock w (cticks w)))"
proof (cases "n \<le> 9223372036")
  case True
  with assms show ?thesis by (auto simp: isExpired_eq minute_def second_def expiry_exact)
next
  case False
  then show ?thesis using expiry_not_exact [of n t] by simp
qed

text \<open>One second more wraps around into the past: the token counts as expired at once.\<close>

lemma expiry_overflow: "expiry t 9223372037 < t"
  by (simp add: expiry_def second_def wrap64_def)

text \<open>What being logged in means. \<open>loginStatus\<close> is true only with stored credentials that
  are good for at least three more minutes, and then no request is sent and no file
  written, or after a refresh that succeeded.\<close>

theorem loginStatus_true:
  assumes "loginStatus w = (Ret True, w')"
  shows "\<exists>c. loadCreds w = (Ret (Inr c), w) \<and>
     (cclock w (cticks w) + 180 * second \<le> CredsExpiresAt c
        \<and> requests w' = requests w \<and> files w' = files w
      \<or> (\<exists>c'. getRefreshToken (w\<lparr>cticks := Suc (cticks w)\<rparr>) = (Ret (Inr c'), w')))"
proof (cases "stored w")
  case (Inl e)
  with assms show ?thesis by (simp add: loginStatus_def loadCreds_eq prog_simps)
next
  case (Inr c)
  show ?thesis
  proof (cases "CredsExpiresAt c - cclock w (cticks w) < 3 * minute")
    case True
    obtain out w1 where g: "getRefreshToken (w\<lparr>cticks := Suc (cticks w)\<rparr>) = (out, w1)" by fastforce
    with assms Inr True have "(\<exists>c'. out = Ret (Inr c')) \<and> w1 = w'"
      by (cases out)
        (auto simp: loginStatus_def loadCreds_eq isExpired_eq prog_simps split: sum.splits)
    with g Inr show ?thesis by (auto simp: loadCreds_eq)
  next
    case False
    with assms Inr show ?thesis
      by (auto simp: loginStatus_def loadCreds_eq isExpired_eq prog_simps time_Until_def cli_now_def
          minute_def second_def)
  qed
qed

text \<open>A status check sends at most a refresh.\<close>

lemma refresh_request_tick [simp]: "refresh_request (w\<lparr>cticks := t\<rparr>) q = refresh_request w q"
  by (simp add: refresh_request_def stored_def credentials_file_def)

lemma loginStatus_requests:
  assumes "loginStatus w = (out, w')"
  shows "requests w' = requests w \<or> (\<exists>q. refresh_request w q \<and> requests w' = requests w @ [q])"
proof (cases "stored w")
  case (Inl e)
  with assms show ?thesis by (simp add: loginStatus_def loadCreds_eq prog_simps)
next
  case (Inr c)
  show ?thesis
  proof (cases "CredsExpiresAt c - cclock w (cticks w) < 3 * minute")
    case True
    obtain o1 w1 where g: "getRefreshToken (w\<lparr>cticks := Suc (cticks w)\<rparr>) = (o1, w1)" by fastforce
    with assms Inr True have "w' = w1"
      by (cases o1) (auto simp: loginStatus_def loadCreds_eq isExpired_eq prog_simps split: sum.splits)
    with refresh_requests [OF g] show ?thesis by simp
  next
    case False
    with assms Inr show ?thesis
      by (auto simp: loginStatus_def loadCreds_eq isExpired_eq prog_simps time_Until_def cli_now_def)
  qed
qed

section \<open>Roles\<close>

text \<open>The roles the command line shows are a part of the ones the proxy uses for the same
  claims: the strings of an array under \<open>role\<close>. The two agree unless the token has its role
  as a plain string or has strings under \<open>roles\<close>.\<close>

theorem cli_roles_vs_proxy:
  "\<exists>rest. extractRoles claims = extractRolesFromClaims claims @ rest
     \<and> (rest = []) = ((\<nexists>s. claims ''role'' = Some (JStr s))
          \<and> (case claims ''roles'' of None \<Rightarrow> True | Some v \<Rightarrow> role_strings v = []))"
proof (cases "claims ''role''")
  case None
  then show ?thesis by (auto simp: extractRoles_def extractRolesFromClaims_def split: option.split)
next
  case (Some v)
  then show ?thesis
    by (cases v) (auto simp: extractRoles_def extractRolesFromClaims_def split: option.split)
qed

section \<open>An instance\<close>

text \<open>
  A world in which exactly one value has an encoding, with a token server that answers
  every refresh with the given tokens.
\<close>

definition sample_creds :: SavedCreds where
  "sample_creds = \<lparr>AccessToken = ''at1'', RefreshToken = ''rt1'', IDToken = ''it1'',
     CredsExpiresAt = 5000 * second, CredsIssuedAt = 1000 * second,
     CredsUser = \<lparr>Sub = ''s'', UserEmail = ''ann@x'', UserName = ''Ann'', UserRoles = []\<rparr>\<rparr>"

definition renewed_creds :: "string \<Rightarrow> SavedCreds" where
  "renewed_creds rt = sample_creds\<lparr>AccessToken := ''at2'', RefreshToken := rt, IDToken := ''it2'',
     CredsExpiresAt := 8600 * second, CredsIssuedAt := 5000 * second\<rparr>"

definition sample_cli :: "string \<Rightarrow> cli_world" where
  "sample_cli rt = \<lparr>cenv = [''HOME=/h'', ''AUTH0_TENANT=t'', ''AUTH0_NATIVE_CLIENT_ID=cid''],
     GOOS = ''linux'', cclock = (\<lambda>_. 5000 * second), cticks = 0, mkdir_err = (\<lambda>_. None),
     files = [''/h/.gprxy/credentials'' \<mapsto> ''{1}''], writes = 0, write_outcome = (\<lambda>_. Written),
     marshal = (\<lambda>c. if c = sample_creds then Inr ''{1}'' else if c = renewed_creds rt then Inr ''{2}''
       else Inl (Err ''unsupported'')),
     unmarshal = (\<lambda>d. if d = ''{1}'' then Inr sample_creds else if d = ''{2}'' then Inr (renewed_creds rt)
       else Inl (Err ''invalid'')),
     decode_claims = (\<lambda>_. Inl (Err ''invalid'')),
     decode_tokens = (\<lambda>b. Inr \<lparr>NewAccessToken = ''at2'', NewRefreshToken = rt, NewIDToken = ''it2'',
       TokenType = ''Bearer'', ExpiresIn = 3600\<rparr>),
     url_Parse = (\<lambda>u. Some \<lparr>urlFront = u, RawQuery = '''', urlFragment = ''''\<rparr>),
     http_reply = (\<lambda>_. Inr \<lparr>StatusCode = 200, Body = '''', bodyErr = None\<rparr>), requests = []\<rparr>"

lemma sample_fields [simp]:
  "cenv (sample_cli rt) = [''HOME=/h'', ''AUTH0_TENANT=t'', ''AUTH0_NATIVE_CLIENT_ID=cid'']"
  "GOOS (sample_cli rt) = ''linux''" "cclock (sample_cli rt) n = 5000 * second"
  "mkdir_err (sample_cli rt) p = None" "files (sample_cli rt) = [''/h/.gprxy/credentials'' \<mapsto> ''{1}'']"
  "write_outcome (sample_cli rt) n = Written" "requests (sample_cli rt) = []"
  "marshal (sample_cli rt) c = (if c = sample_creds then Inr ''{1}''
     else if c = renewed_creds rt then Inr ''{2}'' else Inl (Err ''unsupported''))"
  "unmarshal (sample_cli rt) d = (if d = ''{1}'' then Inr sample_creds
     else if d = ''{2}'' then Inr (renewed_creds rt) else Inl (Err ''invalid''))"
  "decode_tokens (sample_cli rt) b = Inr \<lparr>NewAccessToken = ''at2'', NewRefreshToken = rt,
     NewIDToken = ''it2'', TokenType = ''Bearer'', ExpiresIn = 3600\<rparr>"
  "url_Parse (sample_cli rt) u = Some \<lparr>urlFront = u, RawQuery = '''', urlFragment = ''''\<rparr>"
  "http_reply (sample_cli rt) n = Inr \<lparr>StatusCode = 200, Body = '''', bodyErr = None\<rparr>"
  by (simp_all add: sample_cli_def)

lemma credentials_file_update [simp]:
  "credentials_file (w\<lparr>requests := r\<rparr>) = credentials_file w"
  "credentials_file (w\<lparr>cticks := t\<rparr>) = credentials_file w"
  "credentials_file (w\<lparr>writes := n\<rparr>) = credentials_file w"
  "credentials_file (w\<lparr>cclock := k\<rparr>) = credentials_file w"
  "credentials_file (w\<lparr>files := f\<rparr>) = credentials_file w"
  by (simp_all add: credentials_file_def)

lemma sample_path [simp]: "credentials_file (sample_cli rt) = Inr ''/h/.gprxy/credentials''"
  by (simp add: credentials_file_def Getenv_def HasPrefix_def filepath_Join_def Clean_def Let_def)

lemma sample_stored: "stored (sample_cli rt) = Inr sample_creds"
  by (simp add: stored_def)

lemma renewed_neq: "renewed_creds rt \<noteq> sample_creds"
  by (simp add: renewed_creds_def sample_creds_def)

lemma sample_json: "creds_json (sample_cli rt)"
proof -
  have short: "take n d \<noteq> ''{1}'' \<and> take n d \<noteq> ''{2}''" if "n < 3" for n and d :: string
    using that by (auto dest: arg_cong [of _ _ length])
  then show ?thesis
    unfolding creds_json_def using renewed_neq [of rt] by (auto split: if_splits)
qed

lemmas cli_eval = saveCreds_def loadCreds_eq getCredentialsPath_eq WriteFile_def ReadFile_def
  env_var_def http_NewRequest_def client_Do_def cli_now_def time_Until_def prog_simps Let_def

theorem creds_roundtrip_witness:
  "\<exists>w'. saveCreds sample_creds (sample_cli ''rt2'') = (Ret (Inr ()), w')
     \<and> loadCreds w' = (Ret (Inr sample_creds), w')"
proof -
  obtain w' where s: "saveCreds sample_creds (sample_cli ''rt2'') = (Ret (Inr ()), w')"
    by (simp add: cli_eval)
  have "ascii_creds sample_creds"
    by (simp add: ascii_creds_def sample_creds_def is_ascii_def)
  with s show ?thesis using creds_roundtrip [OF sample_json _ s] by blast
qed

lemma sample_env:
  "Getenv [''HOME=/h'', ''AUTH0_TENANT=t'', ''AUTH0_NATIVE_CLIENT_ID=cid''] ''AUTH0_TENANT'' = ''t''"
  "Getenv [''HOME=/h'', ''AUTH0_TENANT=t'', ''AUTH0_NATIVE_CLIENT_ID=cid''] ''AUTH0_NATIVE_CLIENT_ID'' = ''cid''"
  by (simp_all add: Getenv_def HasPrefix_def)

lemma sample_refresh:
  "\<exists>w'. getRefreshToken (sample_cli rt) = (Ret (Inr (renewed_creds rt)), w')
     \<and> loadCreds w' = (Ret (Inr (renewed_creds rt)), w')"
proof -
  have new: "\<lparr>AccessToken = ''at2'', RefreshToken = rt, IDToken = ''it2'',
      CredsExpiresAt = expiry (5000 * second) 3600, CredsIssuedAt = 5000 * second,
      CredsUser = \<lparr>Sub = Sub (CredsUser sample_creds), UserEmail = UserEmail (CredsUser sample_creds),
        UserName = UserName (CredsUser sample_creds), UserRoles = UserRoles (CredsUser sample_creds)\<rparr>\<rparr>
     = renewed_creds rt"
    by (simp add: renewed_creds_def sample_creds_def expiry_exact second_def)
  have rt: "RefreshToken sample_creds = ''rt1''" by (simp add: sample_creds_def)
  show ?thesis
    using renewed_neq [of rt]
    by (simp add: getRefreshToken_def useReply_def storeRefreshed_def parseAccessToken_def cli_eval
        sample_stored sample_env new rt stored_def)
qed

theorem refresh_keeps_identity_witness:
  "\<exists>w' form. getRefreshToken (sample_cli ''rt2'') = (Ret (Inr (renewed_creds ''rt2'')), w')
     \<and> requests w' = [(''https://t/oauth/token'', form)]
     \<and> ParseQuery form = Some [(''client_id'', ''cid''), (''grant_type'', ''refresh_token''),
         (''refresh_token'', ''rt1'')]"
proof -
  obtain w' where g: "getRefreshToken (sample_cli ''rt2'') = (Ret (Inr (renewed_creds ''rt2'')), w')"
    using sample_refresh by blast
  have "RefreshToken sample_creds = ''rt1''" by (simp add: sample_creds_def)
  with refresh_keeps_identity [OF g] g show ?thesis
    by (auto simp: loadCreds_eq sample_stored sample_env url_String_def)
qed

theorem refresh_never_corrupts_witness:
  "\<exists>w'. getRefreshToken (sample_cli ''rt2'') = (Ret (Inr (renewed_creds ''rt2'')), w')
     \<and> (stored w' = Inr (renewed_creds ''rt2'') \<or> stored w' = Inr sample_creds \<or> (\<exists>e. stored w' = Inl e))"
proof -
  obtain w' where g: "getRefreshToken (sample_cli ''rt2'') = (Ret (Inr (renewed_creds ''rt2'')), w')"
    using sample_refresh by blast
  have "ascii_creds (renewed_creds ''rt2'')"
    by (simp add: ascii_creds_def renewed_creds_def sample_creds_def is_ascii_def)
  with refresh_never_corrupts [OF sample_json g] g show ?thesis by (simp add: sample_stored)
qed

theorem refresh_token_lost_witness:
  "\<exists>w'. getRefreshToken (sample_cli '''') = (Ret (Inr (renewed_creds '''')), w')
     \<and> getRefreshToken w' = (Ret (Inl (Err ''no refresh token found, pls authenticate using gprxy login'')), w')"
proof -
  obtain w' where g: "getRefreshToken (sample_cli '''') = (Ret (Inr (renewed_creds '''')), w')"
    "loadCreds w' = (Ret (Inr (renewed_creds '''')), w')"
    using sample_refresh by blast
  then show ?thesis
    using refresh_token_lost [OF g(1) _ g(2)] by (simp add: renewed_creds_def)
qed

theorem expiry_bounds_witness:
  "fst (isExpired (sample_creds\<lparr>CredsExpiresAt := expiry (4000 * second) 1180\<rparr>) (sample_cli ''x''))
     = Ret (4000 * second + (1180 - 180) * second < 5000 * second)"
proof -
  let ?c = "sample_creds\<lparr>CredsExpiresAt := expiry (4000 * second) 1180\<rparr>"
  have "CredsExpiresAt ?c = expiry (4000 * second) 1180 \<and> (1180::int) \<le> 9223372036" by simp
  with expiry_bounds [of 1180 "4000 * second" ?c "sample_cli ''x''"] show ?thesis
    by (simp only: sample_fields)
qed

theorem loginStatus_true_witness:
  "\<exists>w'. loginStatus ((sample_cli ''rt2'')\<lparr>cclock := \<lambda>_. 1000 * second\<rparr>) = (Ret True, w')
     \<and> (\<exists>c. stored ((sample_cli ''rt2'')\<lparr>cclock := \<lambda>_. 1000 * second\<rparr>) = Inr c)"
proof -
  let ?w = "(sample_cli ''rt2'')\<lparr>cclock := \<lambda>_. 1000 * second\<rparr>"
  have "stored ?w = Inr sample_creds" by (simp add: stored_def)
  then obtain w' where l: "loginStatus ?w = (Ret True, w')"
    by (simp add: loginStatus_def isExpired_eq cli_eval)
      (simp add: sample_creds_def minute_def second_def cli_eval)
  then show ?thesis using loginStatus_true [OF l] by (auto simp: loadCreds_eq)
qed

end
