(* ===== verification/Callback.thy ===== *)
theory Callback
  imports GoStd
begin

text \<open>
  The callback server of the log-in command (\<open>startCallbackServer\<close> in
  \<open>internal/cli/login.go\<close>): the main goroutine waits in a \<open>select\<close>, every request runs a
  handler in a goroutine of its own, and they talk over unbuffered channels. A handler is
  the list of its remaining actions; a step of the system is one action of one goroutine.
\<close>

section \<open>The handler\<close>

text \<open>The query parameters of a request to \<open>/callback\<close>, empty when missing.\<close>

record cb_request =
  qCode :: string
  qState :: string
  qError :: string
  qErrorDesc :: string

datatype page = FailedPage string | HttpError string | SuccessPage

text \<open>
  What a handler does that others see: it writes a part of its reply, sends an error (and
  blocks until the main goroutine takes it), or offers the code (and goes on at once).
\<close>

datatype cb_action = WritePage page | SendErr error | OfferCode string

text \<open>The checks behind the error branch do not return: a handler that fails one goes on.\<close>

definition callback :: "string \<Rightarrow> cb_request \<Rightarrow> cb_action list" where
  "callback expectedState r =
    (let code = qCode r; state = qState r; errorParam = qError r; errorDesc = qErrorDesc r in
     if errorParam \<noteq> '''' then [WritePage (FailedPage errorParam), SendErr (Err (errorParam @ errorDesc))]
     else
       (if code = '''' then [WritePage (HttpError ''missing auth code''),
          SendErr (Err ''missing authorisation code in callback'')] else [])
       @ (if state = '''' then [WritePage (HttpError ''Missing state parameter''),
          SendErr (Err ''missing state param in callback'')] else [])
       @ (if state \<noteq> expectedState then [WritePage (HttpError ''Invalid state parameter''),
          SendErr (Err ''state mismatch - possible CSRF attack'')] else [])
       @ [WritePage SuccessPage, OfferCode code])"

section \<open>The server\<close>

record handler =
  hReq :: cb_request
  hDone :: "cb_action list"
  hTodo :: "cb_action list"

text \<open>The main goroutine: before its \<open>select\<close>, in it, or with the result of the function.\<close>

datatype cb_main = Starting | Waiting | Returned "error + string"

record cb_state =
  cbMain :: cb_main
  handlers :: "handler list"
  listenErr :: "error option"

definition cb_init :: "cb_state" where
  "cb_init = \<lparr>cbMain = Starting, handlers = [], listenErr = None\<rparr>"

definition new_handler :: "string \<Rightarrow> cb_request \<Rightarrow> handler" where
  "new_handler expected q = \<lparr>hReq = q, hDone = [], hTodo = callback expected q\<rparr>"

definition decided :: "cb_state \<Rightarrow> bool" where
  "decided s \<longleftrightarrow> (case cbMain s of Returned _ \<Rightarrow> True | _ \<Rightarrow> False)"

text \<open>The next action of a handler is done.\<close>

definition step_handler :: "handler \<Rightarrow> handler" where
  "step_handler h = h\<lparr>hDone := hDone h @ take 1 (hTodo h), hTodo := drop 1 (hTodo h)\<rparr>"

definition advance :: "nat \<Rightarrow> cb_state \<Rightarrow> cb_state" where
  "advance i s = s\<lparr>handlers := (handlers s)[i := step_handler (handlers s ! i)]\<rparr>"

text \<open>
  The steps. Requests come in until the function has its result; then the server shuts
  down. \<open>cancelled\<close> is \<open>ctx.Done()\<close>.
\<close>

inductive cb_step :: "string \<Rightarrow> cb_state \<Rightarrow> cb_state \<Rightarrow> bool" for expected :: string where
  select: "cbMain s = Starting \<Longrightarrow> cb_step expected s (s\<lparr>cbMain := Waiting\<rparr>)"
| request: "\<not> decided s \<Longrightarrow> cb_step expected s (s\<lparr>handlers := handlers s @ [new_handler expected q]\<rparr>)"
| listen_fails: "\<not> decided s \<Longrightarrow> listenErr s = None \<Longrightarrow> cb_step expected s (s\<lparr>listenErr := Some e\<rparr>)"
| listen_error: "cbMain s = Waiting \<Longrightarrow> listenErr s = Some e \<Longrightarrow>
    cb_step expected s (s\<lparr>listenErr := None, cbMain := Returned (Inl e)\<rparr>)"
| write_page: "i < length (handlers s) \<Longrightarrow> hTodo (handlers s ! i) = WritePage p # as \<Longrightarrow>
    cb_step expected s (advance i s)"
| send_err: "cbMain s = Waiting \<Longrightarrow> i < length (handlers s) \<Longrightarrow> hTodo (handlers s ! i) = SendErr e # as \<Longrightarrow>
    cb_step expected s ((advance i s)\<lparr>cbMain := Returned (Inl e)\<rparr>)"
| code_taken: "cbMain s = Waiting \<Longrightarrow> i < length (handlers s) \<Longrightarrow> hTodo (handlers s ! i) = OfferCode c # as \<Longrightarrow>
    cb_step expected s ((advance i s)\<lparr>cbMain := Returned (Inr c)\<rparr>)"
| code_dropped: "cbMain s \<noteq> Waiting \<Longrightarrow> i < length (handlers s) \<Longrightarrow> hTodo (handlers s ! i) = OfferCode c # as \<Longrightarrow>
    cb_step expected s (advance i s)"
| timeout: "cbMain s = Waiting \<Longrightarrow>
    cb_step expected s (s\<lparr>cbMain := Returned (Inl (Err ''timeout waiting for authentication callback''))\<rparr>)"
| cancelled: "cbMain s = Waiting \<Longrightarrow>
    cb_step expected s (s\<lparr>cbMain := Returned (Inl (Err ''authentication cancelled: %w''))\<rparr>)"

text \<open>The results the function can return.\<close>

definition callback_result :: "string \<Rightarrow> error + string \<Rightarrow> bool" where
  "callback_result expected r \<longleftrightarrow>
     (\<exists>s. (cb_step expected)\<^sup>*\<^sup>* cb_init s \<and> cbMain s = Returned r)"

section \<open>What is accepted\<close>

fun is_SendErr :: "cb_action \<Rightarrow> bool" where
  "is_SendErr (SendErr _) = True"
| "is_SendErr _ = False"

text \<open>A request that the code is meant to accept.\<close>

definition acceptable :: "string \<Rightarrow> cb_request \<Rightarrow> bool" where
  "acceptable expected q \<longleftrightarrow> qError q = '''' \<and> qCode q \<noteq> '''' \<and> qState q \<noteq> '''' \<and> qState q = expected"

lemma callback_acceptable:
  "\<not> list_ex is_SendErr (callback expected q) \<longleftrightarrow> acceptable expected q"
  by (auto simp: callback_def acceptable_def Let_def)

lemma callback_offer:
  "pre @ OfferCode c # as = callback expected q \<Longrightarrow> as = [] \<and> c = qCode q"
  by (auto simp: callback_def Let_def append_eq_append_conv2 append_eq_Cons_conv Cons_eq_append_conv
      split: if_splits)

text \<open>
  The invariant: every handler is on its way through its actions, before the decision none
  has got rid of an error, and a code that was returned came from an acceptable request.
\<close>

definition handler_ok :: "string \<Rightarrow> bool \<Rightarrow> handler \<Rightarrow> bool" where
  "handler_ok expected undecided h \<longleftrightarrow> hDone h @ hTodo h = callback expected (hReq h)
     \<and> (undecided \<longrightarrow> \<not> list_ex is_SendErr (hDone h))"

definition cb_inv :: "string \<Rightarrow> cb_state \<Rightarrow> bool" where
  "cb_inv expected s \<longleftrightarrow> (\<forall>h\<in>set (handlers s). handler_ok expected (\<not> decided s) h)
     \<and> (\<forall>c. cbMain s = Returned (Inr c) \<longrightarrow>
          (\<exists>h\<in>set (handlers s). acceptable expected (hReq h) \<and> qCode (hReq h) = c))"

lemma hReq_step_handler [simp]: "hReq (step_handler h) = hReq h"
  by (simp add: step_handler_def)

lemma hDone_hTodo_step: "hDone (step_handler h) @ hTodo (step_handler h) = hDone h @ hTodo h"
  by (cases "hTodo h") (simp_all add: step_handler_def)

lemma handler_ok_step:
  assumes "handler_ok expected u h" and "hTodo h = a # as" and "u' \<longrightarrow> u \<and> \<not> is_SendErr a"
  shows "handler_ok expected u' (step_handler h)"
  using assms hDone_hTodo_step [of h] by (auto simp: handler_ok_def step_handler_def)

lemma handler_ok_weaken: "handler_ok expected u h \<Longrightarrow> u' \<longrightarrow> u \<Longrightarrow> handler_ok expected u' h"
  by (auto simp: handler_ok_def)

lemma advance_sel [simp]:
  "cbMain (advance i s) = cbMain s" "listenErr (advance i s) = listenErr s"
  "decided (advance i s) = decided s" "length (handlers (advance i s)) = length (handlers s)"
  by (simp_all add: advance_def decided_def)

lemma reqs_advance: "map hReq (handlers (advance i s)) = map hReq (handlers s)"
  by (cases "i < length (handlers s)") (simp_all add: advance_def map_update list_update_beyond
      list_update_same_conv)

lemma advance_handlers:
  assumes "\<forall>h\<in>set (handlers s). handler_ok expected u h" and "i < length (handlers s)"
    and "hTodo (handlers s ! i) = a # as" and "u' \<longrightarrow> u \<and> \<not> is_SendErr a"
  shows "\<forall>h\<in>set (handlers (advance i s)). handler_ok expected u' h"
proof
  fix h assume "h \<in> set (handlers (advance i s))"
  then have "h \<in> set (handlers s) \<or> h = step_handler (handlers s ! i)"
    using set_update_subset_insert by (fastforce simp: advance_def)
  then show "handler_ok expected u' h"
    using assms handler_ok_step [OF _ assms(3,4)] by (auto intro: handler_ok_weaken)
qed

lemma some_request:
  "map hReq (handlers t) = map hReq (handlers s) \<Longrightarrow>
     (\<exists>h\<in>set (handlers t). P (hReq h)) = (\<exists>h\<in>set (handlers s). P (hReq h))"
  by (metis (no_types, lifting) image_iff list.set_map)

lemma decided_simps [simp]:
  "cbMain s = Waiting \<Longrightarrow> \<not> decided s" "cbMain s = Starting \<Longrightarrow> \<not> decided s"
  "cbMain s = Returned r \<Longrightarrow> decided s"
  "decided (s\<lparr>cbMain := Waiting\<rparr>) = False" "decided (s\<lparr>cbMain := Returned r\<rparr>) = True"
  "decided (s\<lparr>handlers := hs\<rparr>) = decided s" "decided (s\<lparr>listenErr := l\<rparr>) = decided s"
  "decided (s\<lparr>listenErr := l, cbMain := Returned r\<rparr>) = True"
  by (simp_all add: decided_def)

lemma new_handler_ok: "handler_ok expected u (new_handler expected q)"
  by (simp add: handler_ok_def new_handler_def)

lemma offered_acceptable:
  assumes "handler_ok expected True h" and "hTodo h = OfferCode c # as"
  shows "acceptable expected (hReq h) \<and> qCode (hReq h) = c"
proof -
  from assms have e: "hDone h @ OfferCode c # as = callback expected (hReq h)"
    by (simp add: handler_ok_def)
  from callback_offer [OF e] have c: "as = []" "c = qCode (hReq h)" by simp_all
  with e assms(1) have "\<not> list_ex is_SendErr (callback expected (hReq h))"
    by (simp add: handler_ok_def flip: e)
  with c show ?thesis by (simp add: callback_acceptable)
qed

lemma same_requests_keep:
  assumes "cb_inv expected s" and "decided s" and "cbMain t = cbMain s"
    and "map hReq (handlers t) = map hReq (handlers s)"
    and "\<forall>h\<in>set (handlers t). handler_ok expected (\<not> decided t) h"
  shows "cb_inv expected t"
  using assms some_request [OF assms(4), of "\<lambda>q. acceptable expected q \<and> qCode q = _"]
  by (simp add: cb_inv_def)

lemma cb_inv_step:
  assumes "cb_inv expected s" and "cb_step expected s t"
  shows "cb_inv expected t"
  using assms(2,1)
proof (induction rule: cb_step.induct)
  case (write_page i s p as)
  then have ok: "\<forall>h\<in>set (handlers (advance i s)). handler_ok expected (\<not> decided s) h"
    by (intro advance_handlers [where u = "\<not> decided s"]) (auto simp: cb_inv_def)
  show ?case
  proof (cases "decided s")
    case True
    with write_page ok show ?thesis
      by (intro same_requests_keep [OF write_page.prems]) (simp_all add: reqs_advance)
  next
    case False
    with ok show ?thesis by (auto simp: cb_inv_def)
  qed
next
  case (send_err s i e as)
  then show ?case
    using advance_handlers [of s expected True i "SendErr e" as False] by (simp add: cb_inv_def)
next
  case (code_taken s i c as)
  then have u: "\<forall>h\<in>set (handlers s). handler_ok expected True h" by (simp add: cb_inv_def)
  with code_taken have "acceptable expected (hReq (handlers s ! i)) \<and> qCode (hReq (handlers s ! i)) = c"
    using offered_acceptable by (metis nth_mem)
  with code_taken have "\<exists>h\<in>set (handlers s). acceptable expected (hReq h) \<and> qCode (hReq h) = c"
    using nth_mem by blast
  then have "\<exists>h\<in>set (handlers (advance i s)). acceptable expected (hReq h) \<and> qCode (hReq h) = c"
    using some_request [OF reqs_advance, where P = "\<lambda>q. acceptable expected q \<and> qCode q = c"] by simp
  with u code_taken show ?case
    using advance_handlers [of s expected True i "OfferCode c" as False] by (simp add: cb_inv_def)
next
  case (code_dropped s i c as)
  then have ok: "\<forall>h\<in>set (handlers (advance i s)). handler_ok expected (\<not> decided s) h"
    by (intro advance_handlers [where u = "\<not> decided s"]) (auto simp: cb_inv_def)
  show ?case
  proof (cases "decided s")
    case True
    with code_dropped ok show ?thesis
      by (intro same_requests_keep [OF code_dropped.prems]) (simp_all add: reqs_advance)
  next
    case False
    with ok show ?thesis by (auto simp: cb_inv_def)
  qed
qed (auto simp: cb_inv_def new_handler_ok intro: handler_ok_weaken)

interpretation server: transition_invariant "(=) cb_init" "cb_step expected" "cb_inv expected"
  by unfold_locales (auto simp: cb_inv_step, simp add: cb_inv_def cb_init_def)

text \<open>C22: No forged login. Whatever requests arrive, in whatever order their handlers run, a
  code that the callback server returns came with a request that reported no error, had a
  code and carried the expected, non-empty state: the branches that report an error and
  then go on never get their code through.\<close>

theorem callback_csrf_safe:
  assumes "(cb_step expected)\<^sup>*\<^sup>* cb_init s" and "cbMain s = Returned (Inr code)"
  shows "\<exists>h\<in>set (handlers s). acceptable expected (hReq h) \<and> qCode (hReq h) = code"
  using server.inv_reachable [OF refl assms(1)] assms(2) by (simp add: cb_inv_def)

lemma callback_result_code:
  "callback_result expected (Inr code) \<Longrightarrow> code \<noteq> '''' \<and> expected \<noteq> ''''"
proof -
  assume "callback_result expected (Inr code)"
  then obtain s where "(cb_step expected)\<^sup>*\<^sup>* cb_init s" "cbMain s = Returned (Inr code)"
    by (auto simp: callback_result_def)
  with server.inv_reachable [OF refl this(1)] show ?thesis
    by (auto simp: cb_inv_def acceptable_def)
qed


section \<open>What happens to requests\<close>

text \<open>The runs with one request, its handler's actions split into the done ones and the rest.\<close>

definition one :: "cb_main \<Rightarrow> cb_request \<Rightarrow> cb_action list \<Rightarrow> cb_action list \<Rightarrow> cb_state" where
  "one m q ds as = \<lparr>cbMain = m, handlers = [\<lparr>hReq = q, hDone = ds, hTodo = as\<rparr>], listenErr = None\<rparr>"

abbreviation cb_reach :: "string \<Rightarrow> cb_state \<Rightarrow> bool" where
  "cb_reach expected s \<equiv> (cb_step expected)\<^sup>*\<^sup>* cb_init s"

lemma one_sel [simp]:
  "cbMain (one m q ds as) = m" "handlers (one m q ds as) = [\<lparr>hReq = q, hDone = ds, hTodo = as\<rparr>]"
  "(one m q ds as)\<lparr>cbMain := m'\<rparr> = one m' q ds as"
  "advance 0 (one m q ds (a # as)) = one m q (ds @ [a]) as"
  by (simp_all add: one_def advance_def step_handler_def)

lemma one_start: "cb_reach expected (one Waiting q [] (callback expected q))"
proof -
  have "cb_step expected cb_init (one Starting q [] (callback expected q))"
    using cb_step.request [of cb_init expected q] by (simp add: cb_init_def one_def new_handler_def)
  moreover have "cb_step expected (one Starting q [] (callback expected q)) (one Waiting q [] (callback expected q))"
    using cb_step.select [of "one Starting q [] (callback expected q)" expected] by simp
  ultimately show ?thesis
    using rtranclp.rtrancl_into_rtrancl [of "cb_step expected"] rtranclp.rtrancl_refl [of "cb_step expected"]
    by blast
qed

lemma one_write:
  "cb_reach expected (one m q ds (WritePage p # as)) \<Longrightarrow> cb_reach expected (one m q (ds @ [WritePage p]) as)"
  using cb_step.write_page [of 0 "one m q ds (WritePage p # as)" p as expected]
  by (simp add: rtranclp.rtrancl_into_rtrancl [of "cb_step expected"])

lemma one_send:
  "cb_reach expected (one Waiting q ds (SendErr e # as)) \<Longrightarrow>
     cb_reach expected (one (Returned (Inl e)) q (ds @ [SendErr e]) as)"
  using cb_step.send_err [of "one Waiting q ds (SendErr e # as)" 0 e as expected]
  by (simp add: rtranclp.rtrancl_into_rtrancl [of "cb_step expected"])

lemma one_offer:
  "cb_reach expected (one Waiting q ds (OfferCode c # as)) \<Longrightarrow>
     cb_reach expected (one (Returned (Inr c)) q (ds @ [OfferCode c]) as)"
  using cb_step.code_taken [of "one Waiting q ds (OfferCode c # as)" 0 c as expected]
  by (simp add: rtranclp.rtrancl_into_rtrancl [of "cb_step expected"])

text \<open>An acceptable request can get its code through, and only such codes are returned.\<close>

lemma callback_result_iff:
  "callback_result expected (Inr code) \<longleftrightarrow> code \<noteq> '''' \<and> expected \<noteq> ''''"
proof
  assume "code \<noteq> '''' \<and> expected \<noteq> ''''"
  moreover define q where "q = \<lparr>qCode = code, qState = expected, qError = '''', qErrorDesc = ''''\<rparr>"
  ultimately have "callback expected q = [WritePage SuccessPage, OfferCode code]"
    by (simp add: callback_def)
  with one_start [of expected q] have "cb_reach expected (one Waiting q [] [WritePage SuccessPage, OfferCode code])"
    by simp
  from one_offer [OF one_write [OF this]] show "callback_result expected (Inr code)"
    unfolding callback_result_def using one_sel(1) by blast
qed (rule callback_result_code)

text \<open>A handler that is at an error when the function has returned never gets on.\<close>

lemma handlers_kept:
  assumes "cb_step expected s t" and "i < length (handlers s)" and "decided s"
    and "hTodo (handlers s ! i) = SendErr e # as"
  shows "decided t \<and> i < length (handlers t) \<and> handlers t ! i = handlers s ! i"
  using assms
  by (induction rule: cb_step.induct) (auto simp: advance_def nth_list_update decided_def)

lemma stuck_handler:
  assumes "(cb_step expected)\<^sup>*\<^sup>* s t" and "i < length (handlers s)" and "decided s"
    and "hTodo (handlers s ! i) = SendErr e # as"
  shows "decided t \<and> i < length (handlers t) \<and> handlers t ! i = handlers s ! i"
  using assms
proof (induction rule: rtranclp_induct)
  case (step y z)
  then show ?case using handlers_kept [OF step.hyps(2), of i e as] by simp
qed simp

text \<open>A rejected callback can leak its goroutine. A request without a code and without a
  state ends the function with the first error; the handler goes on to its second error,
  which nobody takes any more, and stays there in every later state.\<close>

theorem callback_handler_leaks:
  assumes "qError q = ''''" and "qCode q = ''''" and "qState q = ''''"
  shows "\<exists>s e. cb_reach expected s \<and> cbMain s = Returned (Inl e)
     \<and> (\<forall>t. (cb_step expected)\<^sup>*\<^sup>* s t \<longrightarrow> (\<exists>h\<in>set (handlers t). hReq h = q \<and> hTodo h \<noteq> []))"
proof -
  let ?e = "Err ''missing authorisation code in callback''"
  obtain p1 p2 e2 as where "callback expected q = WritePage p1 # SendErr ?e # WritePage p2 # SendErr e2 # as"
    using assms by (simp add: callback_def)
  with one_start [of expected q]
  have "cb_reach expected (one Waiting q [] (WritePage p1 # SendErr ?e # WritePage p2 # SendErr e2 # as))"
    by simp
  from one_write [OF one_send [OF one_write [OF this]]] obtain ds where
    r: "cb_reach expected (one (Returned (Inl ?e)) q ds (SendErr e2 # as))"
    by blast
  have "\<exists>h\<in>set (handlers t). hReq h = q \<and> hTodo h \<noteq> []"
    if "(cb_step expected)\<^sup>*\<^sup>* (one (Returned (Inl ?e)) q ds (SendErr e2 # as)) t" for t
  proof (rule bexI [of _ "handlers t ! 0"])
    from stuck_handler [OF that, of 0 e2 as]
    have t: "0 < length (handlers t)" "handlers t ! 0 = \<lparr>hReq = q, hDone = ds, hTodo = SendErr e2 # as\<rparr>"
      by (simp_all add: decided_def)
    then show "hReq (handlers t ! 0) = q \<and> hTodo (handlers t ! 0) \<noteq> []" by simp
    from t(1) show "handlers t ! 0 \<in> set (handlers t)" by (rule nth_mem)
  qed
  with r show ?thesis by (intro exI [of _ "one _ q ds (SendErr e2 # as)"] exI conjI) auto
qed

text \<open>The browser shows a success for a rejected login. A callback with a wrong state ends
  the function with the error of a possible attack, and its reply still contains the page
  that says the authentication was successful, behind the error text.\<close>

theorem rejected_callback_shows_success:
  assumes "qError q = ''''" and "qCode q \<noteq> ''''" and "qState q \<noteq> ''''" and "qState q \<noteq> expected"
  shows "\<exists>s h. cb_reach expected s \<and> cbMain s = Returned (Inl (Err ''state mismatch - possible CSRF attack''))
     \<and> h \<in> set (handlers s) \<and> hReq h = q
     \<and> filter (\<lambda>a. \<not> is_SendErr a) (hDone h)
        = [WritePage (HttpError ''Invalid state parameter''), WritePage SuccessPage]"
proof -
  let ?e = "Err ''state mismatch - possible CSRF attack''" and ?p = "HttpError ''Invalid state parameter''"
  have "callback expected q = [WritePage ?p, SendErr ?e, WritePage SuccessPage, OfferCode (qCode q)]"
    using assms by (simp add: callback_def)
  with one_start [of expected q]
  have "cb_reach expected (one Waiting q [] [WritePage ?p, SendErr ?e, WritePage SuccessPage, OfferCode (qCode q)])"
    by simp
  from one_write [OF one_send [OF one_write [OF this]]] show ?thesis by (intro exI conjI) auto
qed

definition sample_request :: cb_request where
  "sample_request = \<lparr>qCode = ''c'', qState = ''st'', qError = '''', qErrorDesc = ''''\<rparr>"

theorem callback_csrf_safe_witness:
  "\<exists>s h. cb_reach ''st'' s \<and> cbMain s = Returned (Inr ''c'') \<and> h \<in> set (handlers s)
     \<and> acceptable ''st'' (hReq h)"
proof -
  obtain s where "cb_reach ''st'' s" "cbMain s = Returned (Inr ''c'')"
    using callback_result_iff [of "''st''" "''c''"] by (auto simp: callback_result_def)
  with callback_csrf_safe [OF this] show ?thesis by blast
qed

theorem callback_handler_leaks_witness:
  "\<exists>s e. cb_reach ''st'' s \<and> cbMain s = Returned (Inl e)
     \<and> (\<forall>t. (cb_step ''st'')\<^sup>*\<^sup>* s t \<longrightarrow> (\<exists>h\<in>set (handlers t). hTodo h \<noteq> []))"
proof -
  let ?q = "\<lparr>qCode = '''', qState = '''', qError = '''', qErrorDesc = ''''\<rparr>"
  have "qError ?q = ''''" "qCode ?q = ''''" "qState ?q = ''''" by simp_all
  from callback_handler_leaks [OF this, of "''st''"] show ?thesis by blast
qed

theorem rejected_callback_shows_success_witness:
  "\<exists>s h. cb_reach ''other'' s \<and> h \<in> set (handlers s) \<and> WritePage SuccessPage \<in> set (hDone h)
     \<and> cbMain s = Returned (Inl (Err ''state mismatch - possible CSRF attack''))"
proof -
  have "WritePage SuccessPage \<in> set ds"
    if "filter (\<lambda>a. \<not> is_SendErr a) ds = [WritePage (HttpError ''Invalid state parameter''), WritePage SuccessPage]"
    for ds
    using arg_cong [OF that, of set] by auto
  moreover have "qState sample_request \<noteq> ''other''" "qError sample_request = ''''"
    "qCode sample_request \<noteq> ''''" "qState sample_request \<noteq> ''''"
    by (simp_all add: sample_request_def)
  ultimately show ?thesis using rejected_callback_shows_success [of sample_request "''other''"] by blast
qed

end
