(* ===== verification/Sha256.thy ===== *)
theory Sha256
  imports Digest
begin

text \<open>
  \<open>crypto/sha256\<close> (FIPS 180-4), for the PKCE challenge of the log-in command. Words are big
  endian, a block has 16 of them; the padding differs from MD5's in the order of the
  length bytes.
\<close>

text \<open>
  The constants are the first 32 bits behind the point of roots of primes: \<open>int_root k n\<close> is
  the integer \<open>k\<close>-th root, found bit by bit.
\<close>

definition int_root :: "nat \<Rightarrow> nat \<Rightarrow> nat" where
  "int_root k n = foldl (\<lambda>r b. if (r + 2 ^ b) ^ k \<le> n then r + 2 ^ b else r) 0 (rev [0..<36])"

definition primes_below :: "nat \<Rightarrow> nat list" where
  "primes_below n = filter (\<lambda>p. list_all (\<lambda>d. p mod d \<noteq> 0) [2..<p]) [2..<n]"

definition root_words :: "nat \<Rightarrow> nat list \<Rightarrow> u32 list" where
  "root_words k ps = map (\<lambda>p. of_nat (int_root k (p * 2 ^ (32 * k)))) ps"

text \<open>Cube roots of the first 64 primes, square roots of the first 8.\<close>

definition sha256_K :: "u32 list" where
  "sha256_K = root_words 3 (primes_below 312)"

definition sha256_init :: "u32 list" where
  "sha256_init = root_words 2 (primes_below 20)"

definition sha_Sigma0 :: "u32 \<Rightarrow> u32" where
  "sha_Sigma0 x = word_rotr 2 x XOR word_rotr 13 x XOR word_rotr 22 x"

definition sha_Sigma1 :: "u32 \<Rightarrow> u32" where
  "sha_Sigma1 x = word_rotr 6 x XOR word_rotr 11 x XOR word_rotr 25 x"

definition sha_sigma0 :: "u32 \<Rightarrow> u32" where
  "sha_sigma0 x = word_rotr 7 x XOR word_rotr 18 x XOR drop_bit 3 x"

definition sha_sigma1 :: "u32 \<Rightarrow> u32" where
  "sha_sigma1 x = word_rotr 17 x XOR word_rotr 19 x XOR drop_bit 10 x"

text \<open>The 64 words of the message schedule.\<close>

definition sha_schedule :: "u32 list \<Rightarrow> u32 list" where
  "sha_schedule block = fold (\<lambda>t W. W @ [sha_sigma1 (W ! (t - 2)) + W ! (t - 7)
     + sha_sigma0 (W ! (t - 15)) + W ! (t - 16)]) [16..<64] block"

type_synonym sha_state = "u32 \<times> u32 \<times> u32 \<times> u32 \<times> u32 \<times> u32 \<times> u32 \<times> u32"

definition sha_round :: "u32 list \<Rightarrow> sha_state \<Rightarrow> nat \<Rightarrow> sha_state" where
  "sha_round W s t = (case s of (a, b, c, d, e, f, g, h) \<Rightarrow>
     let t1 = h + sha_Sigma1 e + ((e AND f) XOR (NOT e AND g)) + sha256_K ! t + W ! t;
         t2 = sha_Sigma0 a + ((a AND b) XOR (a AND c) XOR (b AND c))
     in (t1 + t2, a, b, c, d + t1, e, f, g))"

fun state_words :: "sha_state \<Rightarrow> u32 list" where
  "state_words (a, b, c, d, e, f, g, h) = [a, b, c, d, e, f, g, h]"

definition sha_block :: "u32 list \<Rightarrow> u32 list \<Rightarrow> u32 list" where
  "sha_block H block = map2 (+) H (state_words (foldl (sha_round (sha_schedule block))
     (H ! 0, H ! 1, H ! 2, H ! 3, H ! 4, H ! 5, H ! 6, H ! 7) [0..<64]))"

fun be_words :: "u8 list \<Rightarrow> u32 list" where
  "be_words (a # b # c # d # r) =
     (push_bit 24 (ucast a) OR push_bit 16 (ucast b) OR push_bit 8 (ucast c) OR ucast d) # be_words r"
| "be_words _ = []"

definition be_bytes :: "u32 \<Rightarrow> u8 list" where
  "be_bytes w = map (\<lambda>n. byte_at (3 - n) w) [0..<4]"

definition sha_pad :: "u8 list \<Rightarrow> u8 list" where
  "sha_pad msg = (let n = length msg; bits = of_nat (8 * n) :: u64 in
     msg @ [0x80] @ replicate ((119 - n mod 64) mod 64) 0
       @ map (\<lambda>k. ucast (drop_bit (8 * (7 - k)) bits)) [0..<8])"

definition sha256_Sum :: "u8 list \<Rightarrow> u8 list" where
  "sha256_Sum msg = concat (map be_bytes (foldl sha_block sha256_init (blocks (be_words (sha_pad msg)))))"

lemma length_state_words [simp]: "length (state_words s) = 8"
  by (cases s rule: state_words.cases) simp

lemma length_sha_block: "length H = 8 \<Longrightarrow> length (sha_block H b) = 8"
  by (simp add: sha_block_def)

lemma length_sha_blocks: "length H = 8 \<Longrightarrow> length (foldl sha_block H bs) = 8"
  by (induction bs arbitrary: H) (simp_all add: length_sha_block)

lemma length_sha256_Sum [simp]: "length (sha256_Sum msg) = 32"
proof -
  have "length (concat (map be_bytes ws)) = 4 * length ws" for ws
    by (induction ws) (simp_all add: be_bytes_def)
  moreover have "length (primes_below 20) = 8" by code_simp
  then have "length sha256_init = 8" by (simp add: sha256_init_def root_words_def)
  ultimately show ?thesis by (simp add: sha256_Sum_def length_sha_blocks)
qed

end
