(* ===== verification/Login.thy ===== *)
theory Login
  imports Creds Callback Sha256
begin

text \<open>
  \<open>internal/cli/login.go\<close>: the PKCE log-in of the command line, without the callback server,
  which is the theory \<open>Callback\<close>: here \<open>callbackResult\<close> says what
  \<open>startCallbackServer\<close> returns for a session. \<open>Exit\<close> is \<open>logger.Fatal\<close>.
\<close>

section \<open>State\<close>

text \<open>
  The session of a log-in; its mutex guards a field that nobody writes.
\<close>

record OAuthSession =
  sessState :: string
  sessCodeVerifier :: string

text \<open>
  The world of the command: \<open>entropy\<close> are the bytes \<open>rand.Reader\<close> can still deliver before
  it fails, \<open>started\<close> the commands that were run or started, \<open>start_err\<close> and \<open>uname_out\<close> what
  \<open>Start\<close> and \<open>Output\<close> of \<open>exec.Command\<close> answer, \<open>unicode_lower\<close> the Unicode case tables.
\<close>

record login_world = cli_world +
  entropy :: "u8 list"
  start_err :: "string \<Rightarrow> string list \<Rightarrow> error option"
  uname_out :: "error + string"
  unicode_lower :: "string \<Rightarrow> string"
  started :: "(string \<times> string list) list"
  callbackResult :: "OAuthSession \<Rightarrow> error + string"

section \<open>PKCE\<close>

text \<open>
  \<open>io.ReadFull\<close> leaves the rest of the buffer zero when the reader fails; the error is only
  logged, the function returns nil for it.
\<close>

definition generateCodeVerifier :: "nat \<Rightarrow> ('a login_world_scheme, error + string) prog" where
  "generateCodeVerifier count w =
    (let got = take count (entropy w); buf = got @ replicate (count - length got) 0
     in (Ret (Inr (EncodeToString buf)), w\<lparr>entropy := drop count (entropy w)\<rparr>))"

definition generateCodeChallenge :: "string \<Rightarrow> string" where
  "generateCodeChallenge code_verifier = EncodeToString (sha256_Sum (bytes code_verifier))"

definition auth_params :: "string \<Rightarrow> string \<Rightarrow> string \<Rightarrow> string \<Rightarrow> string \<Rightarrow> string \<Rightarrow> Values" where
  "auth_params code_challenge client_id callbackurl aud state connection_name =
    Add ''connection'' connection_name (Add ''state'' state (Add ''audience'' aud
    (Add ''scope'' ''openid profile email offline_access groups''
    (Add ''redirect_uri'' callbackurl (Add ''client_id'' client_id
    (Add ''code_challenge_method'' ''S256'' (Add ''code_challenge'' code_challenge
    (Add ''response_type'' ''code'' []))))))))"

text \<open>\<open>url.Parse\<close> gives nil with its error: the assignment to \<open>RawQuery\<close> then panics.\<close>

definition buildAuthURL :: "string \<Rightarrow> string \<Rightarrow> string \<Rightarrow> ('a login_world_scheme, string) prog" where
  "buildAuthURL code_verifier code_challenge state =
    andThen (env_var ''AUTH0_TENANT'') (\<lambda>tenant_url.
    andThen (env_var ''AUTH0_NATIVE_CLIENT_ID'') (\<lambda>client_id.
    if tenant_url = '''' \<or> client_id = '''' then exit
    else
    andThen (env_var ''CALLBACK_URL'') (\<lambda>callbackurl.
    andThen (env_var ''AUDIENCE'') (\<lambda>aud.
    andThen (env_var ''CONNECTION_NAME'') (\<lambda>connection_name.
    andThen (gets (\<lambda>w. url_Parse w (''https://'' @ tenant_url @ ''/authorize''))) (\<lambda>u. case u of
      None \<Rightarrow> panic
    | Some auth_url \<Rightarrow> ret (url_String (auth_url\<lparr>RawQuery :=
        Encode (auth_params code_challenge client_id callbackurl aud state connection_name)\<rparr>))))))))"

section \<open>The browser\<close>

text \<open>\<open>strings.Contains\<close>\<close>

definition Contains :: "string \<Rightarrow> string \<Rightarrow> bool" where
  "Contains s sub = list_ex (\<lambda>i. HasPrefix (drop i s) sub) [0..<Suc (length s)]"

text \<open>\<open>exec.Command("uname", "-r").Output()\<close>; the attempt is recorded also when it fails.\<close>

definition uname_Output :: "('a login_world_scheme, error + string) prog" where
  "uname_Output w = (Ret (uname_out w), w\<lparr>started := started w @ [(''uname'', [''-r''])]\<rparr>)"

definition isWSL :: "('a login_world_scheme, bool) prog" where
  "isWSL = ifErr uname_Output (\<lambda>e. ret False) (\<lambda>releaseData.
     gets (\<lambda>w. Contains (ToLower (unicode_lower w) releaseData) ''microsoft''))"

definition cmd_Start :: "string \<Rightarrow> string list \<Rightarrow> ('a login_world_scheme, error + unit) prog" where
  "cmd_Start cmd args w = (case start_err w cmd args of
     Some e \<Rightarrow> (Ret (Inl e), w)
   | None \<Rightarrow> (Ret (Inr ()), w\<lparr>started := started w @ [(cmd, args)]\<rparr>))"

text \<open>\<open>append(args[:1], append([]string{""}, args[1:]...)...)\<close>\<close>

definition pad_args :: "string list \<Rightarrow> string list" where
  "pad_args args = (if 1 < length args then take 1 args @ [''''] @ drop 1 args else args)"

definition openBrowser :: "string \<Rightarrow> ('a login_world_scheme, error + unit) prog" where
  "openBrowser u =
    andThen (gets GOOS) (\<lambda>os.
    andThen (if os = ''windows'' then ret (''rundll32'', [''url.dll,FileProtocolHandler'', u])
             else if os = ''darwin'' then ret (''open'', [u])
             else andThen isWSL (\<lambda>wsl.
               if wsl then ret (''cmd.exe'', [''/c'', ''start'', u]) else ret (''xdg-open'', [u])))
      (\<lambda>(cmd, args). cmd_Start cmd (pad_args args)))"

section \<open>The token exchange\<close>

definition exchange_form :: "string \<Rightarrow> string \<Rightarrow> string \<Rightarrow> string \<Rightarrow> Values" where
  "exchange_form client_id code callbackurl code_verifier =
    Set ''code_verifier'' code_verifier (Set ''redirect_uri'' callbackurl (Set ''code'' code
    (Set ''client_id'' client_id (Set ''grant_type'' ''authorization_code'' []))))"


text \<open>A body that cannot be read to its end is used as far as it was read.\<close>

definition exchangeCodeForTokens :: "string \<Rightarrow> string \<Rightarrow>
    ('a login_world_scheme, error + TokenResponse) prog" where
  "exchangeCodeForTokens code code_verifier =
    andThen (env_var ''AUTH0_TENANT'') (\<lambda>tenant_url.
    andThen (env_var ''AUTH0_NATIVE_CLIENT_ID'') (\<lambda>client_id.
    if tenant_url = '''' \<or> client_id = '''' then exit
    else
    andThen (env_var ''CALLBACK_URL'') (\<lambda>callbackurl.
    let token_url = ''https://'' @ tenant_url @ ''/oauth/token'' in
    ifErr (http_NewRequest token_url) (\<lambda>e. ret (Inl e)) (\<lambda>_.
    ifErr (client_Do token_url (Encode (exchange_form client_id code callbackurl code_verifier)))
      (\<lambda>e. ret (Inl e)) (\<lambda>response.
    if StatusCode response \<noteq> 200 then ret (Inl (Err (Itoa (StatusCode response) @ Body response)))
    else
    ifErr (gets (\<lambda>w. decode_tokens w (Body response)))
      (\<lambda>e. ret (Inl (Wrap ''failed to parse token response: %w'' e)))
      (\<lambda>tokens. ret (Inr tokens)))))))"

section \<open>The command\<close>

text \<open>
  The wait for the code: two channels with a buffer of one, the goroutine that calls the
  callback server (whose result is the parameter \<open>res\<close>) and ends with a send, and the main
  goroutine at its receive. A step is the send or the receive.
\<close>

datatype fetch_pc = Fetching | Sent

datatype main_pc = Receiving | Received string

record await_state =
  codeChan :: "string list"
  errChan :: "error list"
  fetchAt :: fetch_pc
  mainAt :: main_pc

definition await_init :: await_state where
  "await_init = \<lparr>codeChan = [], errChan = [], fetchAt = Fetching, mainAt = Receiving\<rparr>"

inductive await_step :: "error + string \<Rightarrow> await_state \<Rightarrow> await_state \<Rightarrow> bool" for res :: "error + string" where
  send_err: "fetchAt s = Fetching \<Longrightarrow> res = Inl e \<Longrightarrow> length (errChan s) < 1 \<Longrightarrow>
     await_step res s (s\<lparr>errChan := errChan s @ [e], fetchAt := Sent\<rparr>)"
| send_code: "fetchAt s = Fetching \<Longrightarrow> res = Inr c \<Longrightarrow> length (codeChan s) < 1 \<Longrightarrow>
     await_step res s (s\<lparr>codeChan := codeChan s @ [c], fetchAt := Sent\<rparr>)"
| receive: "mainAt s = Receiving \<Longrightarrow> codeChan s = c # cs \<Longrightarrow>
     await_step res s (s\<lparr>codeChan := cs, mainAt := Received c\<rparr>)"

inductive_cases await_stepE: "await_step res s s'"

text \<open>The same steps as a scheduler that lets the goroutine go first.\<close>

definition await_next :: "error + string \<Rightarrow> await_state \<Rightarrow> await_state option" where
  "await_next res s =
    (if fetchAt s = Fetching then
       (case res of
          Inl e \<Rightarrow> if length (errChan s) < 1 then Some (s\<lparr>errChan := errChan s @ [e], fetchAt := Sent\<rparr>) else None
        | Inr c \<Rightarrow> if length (codeChan s) < 1 then Some (s\<lparr>codeChan := codeChan s @ [c], fetchAt := Sent\<rparr>) else None)
     else (case (mainAt s, codeChan s) of
          (Receiving, c # cs) \<Rightarrow> Some (s\<lparr>codeChan := cs, mainAt := Received c\<rparr>)
        | _ \<Rightarrow> None))"

fun await_run :: "nat \<Rightarrow> error + string \<Rightarrow> await_state \<Rightarrow> await_state" where
  "await_run 0 res s = s"
| "await_run (Suc n) res s = (case await_next res s of None \<Rightarrow> s | Some s' \<Rightarrow> await_run n res s')"

text \<open>Two steps are all there are (\<open>await_ends\<close>); a main goroutine that is still at its receive
  stays there.\<close>

definition awaitCode :: "OAuthSession \<Rightarrow> ('a login_world_scheme, string) prog" where
  "awaitCode session w = (case mainAt (await_run 2 (callbackResult w session) await_init) of
     Receiving \<Rightarrow> (Blocked, w)
   | Received code \<Rightarrow> (Ret code, w))"

text \<open>The part behind the token exchange.\<close>

definition saveLogin :: "TokenResponse \<Rightarrow> ('a login_world_scheme, unit) prog" where
  "saveLogin tokens =
    andThen (ifErr (parseIDToken (NewIDToken tokens))
      (\<lambda>e. ret \<lparr>Sub = '''', UserEmail = ''unkown'', UserName = ''unknown'', UserRoles = []\<rparr>) ret) (\<lambda>userInfo.
    andThen (ifErr (parseAccessToken (NewAccessToken tokens))
      (\<lambda>e. ret userInfo)
      (\<lambda>claims. ret (userInfo\<lparr>UserRoles := extractRolesFromClaims claims\<rparr>))) (\<lambda>userInfo.
    andThen cli_now (\<lambda>t1.
    andThen cli_now (\<lambda>t2.
    ifErr (saveCreds \<lparr>AccessToken = NewAccessToken tokens, RefreshToken = NewRefreshToken tokens,
        IDToken = NewIDToken tokens, CredsExpiresAt = expiry t1 (ExpiresIn tokens),
        CredsIssuedAt = t2, CredsUser = userInfo\<rparr>)
      (\<lambda>e. exit) (\<lambda>_. ret ())))))"

definition login :: "('a login_world_scheme, unit) prog" where
  "login =
    andThen loginStatus (\<lambda>already.
    if already then ret ()
    else
    ifErr (generateCodeVerifier 32) (\<lambda>e. exit) (\<lambda>code_verifier.
    let code_challenge = generateCodeChallenge code_verifier in
    ifErr (generateCodeVerifier 24) (\<lambda>e. exit) (\<lambda>state.
    let session = \<lparr>sessState = state, sessCodeVerifier = code_verifier\<rparr> in
    andThen (buildAuthURL code_verifier code_challenge state) (\<lambda>auth_url.
    andThen (openBrowser auth_url) (\<lambda>err.
    andThen (awaitCode session) (\<lambda>code.
    ifErr (exchangeCodeForTokens code code_verifier) (\<lambda>e. exit) saveLogin))))))"

section \<open>The verifier\<close>

lemma unreserved_b64_char:
  assumes "n < 64"
  shows "unreserved (b64_char n)"
proof -
  consider "n < 62" | "n = 62" | "n = 63" using assms by linarith
  then show ?thesis
  proof cases
    case 1
    with of_char_b64_char [of n] show ?thesis by (auto simp: unreserved_def Let_def)
  qed (simp_all add: unreserved_def b64_char_def char_of_eq_iff)
qed

lemma EncodeToString_unreserved: "list_all unreserved (EncodeToString bs)"
  using enc_bytes_digits [of bs] by (simp add: EncodeToString_def list_all_iff unreserved_b64_char)

text \<open>A verifier as a function of what the random source delivers.\<close>

definition random_string :: "nat \<Rightarrow> u8 list \<Rightarrow> string" where
  "random_string n e = EncodeToString (take n e @ replicate (n - length e) 0)"

lemma generateCodeVerifier_eq:
  "generateCodeVerifier n w = (Ret (Inr (random_string n (entropy w))), w\<lparr>entropy := drop n (entropy w)\<rparr>)"
  by (simp add: generateCodeVerifier_def random_string_def Let_def min_def)

lemma length_random_string: "length (random_string n e) = (n * 4 + 2) div 3"
proof -
  have "length (take n e @ replicate (n - length e) 0) = n" by (simp add: min_def)
  then show ?thesis by (simp only: random_string_def length_EncodeToString)
qed

lemma DecodeString_random_string:
  "DecodeString (random_string n e) = Inr (take n e @ replicate (n - length e) 0)"
  by (simp add: random_string_def DecodeString_EncodeToString)

text \<open>C36: The code verifier satisfies RFC 7636. Whatever the random source does,
  \<open>generateCodeVerifier(32)\<close> returns a string of 43 unreserved characters (the least allowed
  length), from which the 32 bytes can be read back: as many verifiers as there are
  random byte strings. What the source fails to deliver is zero, its error is dropped: without
  any random byte the verifier is a constant.\<close>

theorem verifier_wellformed:
  "\<exists>v. fst (generateCodeVerifier 32 w) = Ret (Inr v)
     \<and> length v = 43 \<and> list_all unreserved v
     \<and> v = EncodeToString (take 32 (entropy w) @ replicate (32 - length (entropy w)) 0)
     \<and> DecodeString v = Inr (take 32 (entropy w) @ replicate (32 - length (entropy w)) 0)"
  by (rule exI [of _ "random_string 32 (entropy w)"])
    (use EncodeToString_unreserved in \<open>auto simp: generateCodeVerifier_eq length_random_string
      DecodeString_random_string, simp_all add: random_string_def\<close>)

section \<open>The authorisation URL\<close>

lemma sorted_auth_params:
  "sorted_pairs (auth_params challenge cid cb aud st conn) =
     [(''audience'', aud), (''client_id'', cid), (''code_challenge'', challenge),
      (''code_challenge_method'', ''S256''), (''connection'', conn), (''redirect_uri'', cb),
      (''response_type'', ''code''), (''scope'', ''openid profile email offline_access groups''),
      (''state'', st)]"
  by (simp add: sorted_pairs_def auth_params_def)

text \<open>The query of the URL, with the configuration from the environment.\<close>

definition auth_query :: "'a login_world_scheme \<Rightarrow> string \<Rightarrow> string \<Rightarrow> string" where
  "auth_query w challenge st = Encode (auth_params challenge (Getenv (cenv w) ''AUTH0_NATIVE_CLIENT_ID'')
     (Getenv (cenv w) ''CALLBACK_URL'') (Getenv (cenv w) ''AUDIENCE'') st
     (Getenv (cenv w) ''CONNECTION_NAME''))"

lemma ParseQuery_auth_query: "ParseQuery (auth_query w challenge st) =
   Some [(''audience'', Getenv (cenv w) ''AUDIENCE''),
         (''client_id'', Getenv (cenv w) ''AUTH0_NATIVE_CLIENT_ID''), (''code_challenge'', challenge),
         (''code_challenge_method'', ''S256''), (''connection'', Getenv (cenv w) ''CONNECTION_NAME''),
         (''redirect_uri'', Getenv (cenv w) ''CALLBACK_URL''), (''response_type'', ''code''),
         (''scope'', ''openid profile email offline_access groups''), (''state'', st)]"
  by (simp add: auth_query_def ParseQuery_Encode sorted_auth_params)

lemma auth_query_nonempty: "auth_query w challenge st \<noteq> ''''"
  using ParseQuery_auth_query [of w challenge st] by (auto simp: ParseQuery_def)

lemma buildAuthURL_cases:
  assumes "buildAuthURL v challenge st w = (out, w')"
  obtains (exits) "out = Exit" "w' = w" | (panics) "out = Panic" "w' = w"
  | (built) u where "w' = w" "url_Parse w (''https://'' @ Getenv (cenv w) ''AUTH0_TENANT'' @ ''/authorize'') = Some u"
      "Getenv (cenv w) ''AUTH0_TENANT'' \<noteq> ''''" "Getenv (cenv w) ''AUTH0_NATIVE_CLIENT_ID'' \<noteq> ''''"
      "out = Ret (urlFront u @ ''?'' @ auth_query w challenge st @ urlFragment u)"
  using assms auth_query_nonempty [of w challenge st]
  by (auto simp: buildAuthURL_def env_var_def prog_simps url_String_def auth_query_def
      split: if_splits option.splits)

text \<open>C31: The authorisation URL carries its parameters unharmed. Whatever characters the
  configuration, the challenge and the state contain, the query part of the URL decodes
  to exactly the nine parameters of the PKCE request, among them the challenge with its
  method \<open>S256\<close> and the state.\<close>

theorem auth_url_parameters:
  assumes "buildAuthURL v challenge st w = (Ret url, w')"
  shows "\<exists>front query fragment. url = front @ ''?'' @ query @ fragment
     \<and> ParseQuery query = Some [(''audience'', Getenv (cenv w) ''AUDIENCE''),
         (''client_id'', Getenv (cenv w) ''AUTH0_NATIVE_CLIENT_ID''), (''code_challenge'', challenge),
         (''code_challenge_method'', ''S256''), (''connection'', Getenv (cenv w) ''CONNECTION_NAME''),
         (''redirect_uri'', Getenv (cenv w) ''CALLBACK_URL''), (''response_type'', ''code''),
         (''scope'', ''openid profile email offline_access groups''), (''state'', st)]"
  using assms
proof (cases rule: buildAuthURL_cases)
  case (built u)
  then have "url = urlFront u @ ''?'' @ auth_query w challenge st @ urlFragment u" by simp
  then show ?thesis using ParseQuery_auth_query [of w challenge st] by blast
qed simp_all


section \<open>The parts of a log-in\<close>

lemma loginStatus_le: "related cli_le loginStatus"
  unfolding loginStatus_def isExpired_def time_Until_def
  by (auto intro!: cli.related_rules loadCreds_le cli_now_le getRefreshToken_le)

lemma login_fields_more:
  fixes w w' :: "'a login_world_scheme"
  assumes "cli_world.more w' = cli_world.more w"
  shows "entropy w' = entropy w \<and> callbackResult w' = callbackResult w \<and> started w' = started w
    \<and> start_err w' = start_err w \<and> uname_out w' = uname_out w"
  using assms by (cases w; cases w') simp

text \<open>What the log-in does behind the exchange, and before it, sends and starts nothing.\<close>

definition quiet :: "'a login_world_scheme \<Rightarrow> 'a login_world_scheme \<Rightarrow> bool" where
  "quiet w w' \<longleftrightarrow> requests w' = requests w \<and> started w' = started w"

interpretation quiet: frame "quiet :: 'a login_world_scheme \<Rightarrow> 'a login_world_scheme \<Rightarrow> bool"
  by unfold_locales (auto simp: quiet_def)

lemma saveCreds_quiet: "related quiet (saveCreds c :: ('a login_world_scheme, error + unit) prog)"
  by (auto simp: related_def quiet_def saveCreds_def getCredentialsPath_eq WriteFile_def prog_simps
      Let_def split: sum.split write_outcome.split)

lemma parseAccessToken_quiet:
  "related quiet (parseAccessToken tok :: ('a login_world_scheme, error + claims) prog)"
proof (rule relatedI)
  fix w :: "'a login_world_scheme"
  show "quiet w (snd (parseAccessToken tok w))"
    using parseAccessToken_eq [of tok w] by (auto simp: quiet.R_refl)
qed

lemma saveLogin_quiet: "related quiet (saveLogin tokens)"
proof -
  have "related quiet (cli_now :: ('a login_world_scheme, gotime) prog)"
    by (simp add: related_def quiet_def cli_now_def)
  then show ?thesis unfolding saveLogin_def parseIDToken_def
    by (intro quiet.related_rules saveCreds_quiet parseAccessToken_quiet)
qed

lemma exchange_cases:
  assumes "exchangeCodeForTokens code v w = (out, w')"
  obtains (early) "w' = w" "\<forall>t. out \<noteq> Ret (Inr t)"
  | (sent) "w' = w\<lparr>requests := requests w @ [(''https://'' @ Getenv (cenv w) ''AUTH0_TENANT'' @ ''/oauth/token'',
      Encode (exchange_form (Getenv (cenv w) ''AUTH0_NATIVE_CLIENT_ID'') code
        (Getenv (cenv w) ''CALLBACK_URL'') v))]\<rparr>"
proof (cases "Getenv (cenv w) ''AUTH0_TENANT'' = '''' \<or> Getenv (cenv w) ''AUTH0_NATIVE_CLIENT_ID'' = ''''
    \<or> url_Parse w (''https://'' @ Getenv (cenv w) ''AUTH0_TENANT'' @ ''/oauth/token'') = None")
  case True
  with assms have "w' = w \<and> (\<forall>t. out \<noteq> Ret (Inr t))"
    by (auto simp: exchangeCodeForTokens_def env_var_def http_NewRequest_def prog_simps Let_def
        split: if_splits)
  then show ?thesis using early by blast
next
  case False
  then show ?thesis using assms
    by (intro sent) (auto simp: exchangeCodeForTokens_def env_var_def http_NewRequest_def client_Do_def
        prog_simps Let_def split: if_splits sum.splits)
qed

lemma ParseQuery_exchange_form:
  "ParseQuery (Encode (exchange_form cid code cb v)) = Some [(''client_id'', cid), (''code'', code),
     (''code_verifier'', v), (''grant_type'', ''authorization_code''), (''redirect_uri'', cb)]"
  by (simp add: ParseQuery_Encode exchange_form_def sorted_pairs_def)

text \<open>
  The command the code really runs. Its comment says the empty argument is the title that
  \<open>start\<close> takes before a quoted URL; it stands before \<open>start\<close> instead.
\<close>

definition browser_command :: "string \<Rightarrow> bool \<Rightarrow> string \<Rightarrow> string \<times> string list" where
  "browser_command os wsl u =
    (if os = ''windows'' then (''rundll32'', [''url.dll,FileProtocolHandler'', '''', u])
     else if os = ''darwin'' then (''open'', [u])
     else if wsl then (''cmd.exe'', [''/c'', '''', ''start'', u])
     else (''xdg-open'', [u]))"

text \<open>Outside Windows and macOS the kernel is asked first.\<close>

definition wsl_probe :: "string \<Rightarrow> (string \<times> string list) list" where
  "wsl_probe os = (if os = ''windows'' \<or> os = ''darwin'' then [] else [(''uname'', [''-r''])])"

definition on_wsl :: "'a login_world_scheme \<Rightarrow> bool" where
  "on_wsl w \<longleftrightarrow> (\<exists>d. uname_out w = Inr d \<and> Contains (ToLower (unicode_lower w) d) ''microsoft'')"

lemma openBrowser_eq:
  "openBrowser u w = (case browser_command (GOOS w) (on_wsl w) u of
     (cmd, args) \<Rightarrow> cmd_Start cmd args (w\<lparr>started := started w @ wsl_probe (GOOS w)\<rparr>))"
  by (auto simp: openBrowser_def browser_command_def isWSL_def uname_Output_def on_wsl_def wsl_probe_def
      prog_simps pad_args_def split: sum.split)

text \<open>What the log-in runs for the URL: the probe, and at most one command to open it.\<close>

definition browser_run :: "'a login_world_scheme \<Rightarrow> string \<Rightarrow> (string \<times> string list) list \<Rightarrow> bool" where
  "browser_run w u cs \<longleftrightarrow> cs = wsl_probe (GOOS w)
     \<or> cs = wsl_probe (GOOS w) @ [browser_command (GOOS w) (on_wsl w) u]"

lemma browser_run_parts:
  assumes "browser_run w u cs"
  shows "\<exists>new. cs = (if GOOS w \<in> {''windows'', ''darwin''} then [] else [(''uname'', [''-r''])]) @ new
    \<and> length new \<le> 1 \<and> (\<forall>(cmd, args)\<in>set new. last args = u)"
proof -
  obtain cmd args where c: "browser_command (GOOS w) (on_wsl w) u = (cmd, args)" by fastforce
  then have "last args = u" by (auto simp: browser_command_def split: if_splits)
  moreover have "wsl_probe (GOOS w) = (if GOOS w \<in> {''windows'', ''darwin''} then [] else [(''uname'', [''-r''])])"
    by (simp add: wsl_probe_def)
  ultimately show ?thesis using assms c by (auto simp: browser_run_def)
qed

lemma openBrowser_cases:
  assumes "openBrowser u w = (out, w')"
  obtains new r where "w' = w\<lparr>started := started w @ new\<rparr>" "out = Ret r" "browser_run w u new"
proof -
  obtain cmd args where c: "browser_command (GOOS w) (on_wsl w) u = (cmd, args)" by fastforce
  with assms have "\<exists>new r. w' = w\<lparr>started := started w @ new\<rparr> \<and> out = Ret r \<and> browser_run w u new"
    by (cases "start_err w cmd args")
      (auto simp: openBrowser_eq cmd_Start_def browser_run_def
        intro: exI [of _ "wsl_probe (GOOS w)"] exI [of _ "wsl_probe (GOOS w) @ [(cmd, args)]"])
  then show ?thesis using that by blast
qed

section \<open>Waiting for the code\<close>

lemma awaitCode_eq:
  "awaitCode session w = (case callbackResult w session of Inl e \<Rightarrow> (Blocked, w) | Inr code \<Rightarrow> (Ret code, w))"
  by (simp add: awaitCode_def await_init_def await_next_def numeral_2_eq_2 split: sum.split)

text \<open>Where the two goroutines can be.\<close>

definition await_inv :: "error + string \<Rightarrow> await_state \<Rightarrow> bool" where
  "await_inv res s \<longleftrightarrow> s = await_init
     \<or> (case res of
          Inl e \<Rightarrow> s = await_init\<lparr>errChan := [e], fetchAt := Sent\<rparr>
        | Inr c \<Rightarrow> s = await_init\<lparr>codeChan := [c], fetchAt := Sent\<rparr>
            \<or> s = await_init\<lparr>fetchAt := Sent, mainAt := Received c\<rparr>)"

definition await_todo :: "await_state \<Rightarrow> nat" where
  "await_todo s = (if fetchAt s = Fetching then 2 else length (codeChan s))"

definition await_done :: "error + string \<Rightarrow> await_state \<Rightarrow> bool" where
  "await_done res s \<longleftrightarrow> fetchAt s = Sent \<and> codeChan s = []
     \<and> (case res of Inl e \<Rightarrow> mainAt s = Receiving \<and> errChan s = [e] | Inr c \<Rightarrow> mainAt s = Received c \<and> errChan s = [])"

interpretation await: finishing_system "\<lambda>s. s = await_init" "await_step res" "await_inv res" await_todo "await_done res"
proof
  fix s t
  assume i: "await_inv res s"
  show "await_inv res t" if "await_step res s t"
    using that i by (elim await_stepE) (auto simp: await_inv_def await_init_def split: sum.splits)
  show "await_todo t < await_todo s" if "await_step res s t"
    using that i by (elim await_stepE) (auto simp: await_inv_def await_init_def await_todo_def split: sum.splits)
next
  fix s
  assume i: "await_inv res s" and n: "\<not> await_done res s"
  consider (fetching) "fetchAt s = Fetching" "errChan s = []" "codeChan s = []"
    | (waiting) c cs where "mainAt s = Receiving" "codeChan s = c # cs"
    using i n by (cases res) (auto simp: await_inv_def await_done_def await_init_def)
  then show "\<exists>t. await_step res s t"
  proof cases
    case fetching
    then show ?thesis
      by (cases res) (use await_step.send_err [of s res] await_step.send_code [of s res] in auto)
  next
    case waiting
    from await_step.receive [OF this] show ?thesis ..
  qed
qed (simp add: await_inv_def)

lemma await_ends: "must_finish (await_step res) (await_done res) 2 await_init"
  using await.finishes [of res await_init] by (simp add: await_inv_def await_todo_def await_init_def)

text \<open>The log-in from the point where the user is known not to be logged in.\<close>

lemma login_start:
  assumes "loginStatus w = (Ret False, w1)"
    and "v = random_string 32 (entropy w1)" and "st = random_string 24 (drop 32 (entropy w1))"
  shows "login w =
    andThen (buildAuthURL v (generateCodeChallenge v) st) (\<lambda>auth_url.
    andThen (openBrowser auth_url) (\<lambda>err.
    andThen (awaitCode \<lparr>sessState = st, sessCodeVerifier = v\<rparr>) (\<lambda>code.
    ifErr (exchangeCodeForTokens code v) (\<lambda>e. exit) saveLogin)))
      (w1\<lparr>entropy := drop 24 (drop 32 (entropy w1))\<rparr>)"
  using assms by (simp add: login_def andThen_def [of loginStatus] ifErr_def [of "generateCodeVerifier _"]
      andThen_def [of "generateCodeVerifier _"] generateCodeVerifier_eq Let_def)


lemma buildAuthURL_entropy [simp]:
  "buildAuthURL v ch st (w\<lparr>entropy := e\<rparr>) = (fst (buildAuthURL v ch st w), w\<lparr>entropy := e\<rparr>)"
  by (simp add: buildAuthURL_def env_var_def prog_simps split: option.split)

lemma login_phases:
  assumes "loginStatus w = (Ret False, w1)" and "login w = (out, w')"
    and v: "v = random_string 32 (entropy w1)" and st: "st = random_string 24 (drop 32 (entropy w1))"
  obtains (no_url) "fst (buildAuthURL v (generateCodeChallenge v) st w1) \<in> {Exit, Panic}"
      "requests w' = requests w1" "started w' = started w1" "files w' = files w1"
  | (no_code) url new e where "fst (buildAuthURL v (generateCodeChallenge v) st w1) = Ret url"
      "callbackResult w1 \<lparr>sessState = st, sessCodeVerifier = v\<rparr> = Inl e" "out = Blocked"
      "browser_run w1 url new"
      "requests w' = requests w1" "started w' = started w1 @ new" "files w' = files w1"
  | (code) url new code w4 where "fst (buildAuthURL v (generateCodeChallenge v) st w1) = Ret url"
      "callbackResult w1 \<lparr>sessState = st, sessCodeVerifier = v\<rparr> = Inr code"
      "browser_run w1 url new"
      "requests w4 = requests w1" "started w4 = started w1 @ new" "cenv w4 = cenv w1"
      "url_Parse w4 = url_Parse w1"
      "ifErr (exchangeCodeForTokens code v) (\<lambda>e. exit) saveLogin w4 = (out, w')"
      "w4 = w1\<lparr>entropy := drop 24 (drop 32 (entropy w1)), started := started w1 @ new\<rparr>"
proof -
  let ?w2 = "w1\<lparr>entropy := drop 24 (drop 32 (entropy w1))\<rparr>"
  let ?ch = "generateCodeChallenge v" and ?s = "\<lparr>sessState = st, sessCodeVerifier = v\<rparr>"
  let ?rest = "\<lambda>auth_url. andThen (openBrowser auth_url) (\<lambda>err. andThen (awaitCode ?s) (\<lambda>code.
    ifErr (exchangeCodeForTokens code v) (\<lambda>e. exit) saveLogin))"
  obtain o1 where b: "buildAuthURL v ?ch st w1 = (o1, snd (buildAuthURL v ?ch st w1))"
    using prod.collapse by metis
  have l: "andThen (buildAuthURL v ?ch st) ?rest ?w2 = (out, w')"
    using login_start [OF assms(1) v st] assms(2) by simp
  from b show ?thesis
  proof (cases rule: buildAuthURL_cases)
    case (built u)
    then obtain url where url: "fst (buildAuthURL v ?ch st w1) = Ret url" using b by simp
    obtain o2 w4 where o: "openBrowser url ?w2 = (o2, w4)" by fastforce
    then obtain new r where w4: "w4 = ?w2\<lparr>started := started ?w2 @ new\<rparr>" "o2 = Ret r"
      and "browser_run ?w2 url new"
      by (rule openBrowser_cases)
    then have run: "browser_run w1 url new" by (simp add: browser_run_def on_wsl_def)
    from l o w4(2) have l4: "andThen (awaitCode ?s) (\<lambda>code.
        ifErr (exchangeCodeForTokens code v) (\<lambda>e. exit) saveLogin) w4 = (out, w')"
      by (simp add: andThen_def [of "buildAuthURL _ _ _"] andThen_def [of "openBrowser _"] url)
    show ?thesis
    proof (cases "callbackResult w1 ?s")
      case (Inl e)
      with l4 w4 have "out = Blocked" "w' = w4" by (simp_all add: andThen_def [of "awaitCode _"] awaitCode_eq)
      with no_code [OF url Inl _ run] w4 show ?thesis by simp
    next
      case (Inr code)
      with l4 w4 have "ifErr (exchangeCodeForTokens code v) (\<lambda>e. exit) saveLogin w4 = (out, w')"
        by (simp add: andThen_def [of "awaitCode _"] awaitCode_eq)
      with code [OF url Inr run, of w4] w4 show ?thesis by simp
    qed
  qed (use l b in \<open>auto simp: andThen_def [of "buildAuthURL _ _ _"] intro: no_url\<close>)
qed

lemma finish_quiet:
  assumes "exchangeCodeForTokens code v w = (o1, w1)"
  shows "quiet w1 (snd (ifErr (exchangeCodeForTokens code v) (\<lambda>e. exit) saveLogin w))"
  by (rule quiet.related_after [where m = "exchangeCodeForTokens code v" and w = w and h = "\<lambda>e. exit"
        and f = saveLogin, OF assms quiet.related_exit saveLogin_quiet])

lemma finish_requests:
  assumes "ifErr (exchangeCodeForTokens code v) (\<lambda>e. exit) saveLogin w = (out, w')"
  shows "started w' = started w \<and> (requests w' = requests w
     \<or> requests w' = requests w @ [(''https://'' @ Getenv (cenv w) ''AUTH0_TENANT'' @ ''/oauth/token'',
      Encode (exchange_form (Getenv (cenv w) ''AUTH0_NATIVE_CLIENT_ID'') code
        (Getenv (cenv w) ''CALLBACK_URL'') v))])"
proof -
  obtain o1 w1 where e: "exchangeCodeForTokens code v w = (o1, w1)" by fastforce
  with finish_quiet [OF e] assms have q: "requests w' = requests w1" "started w' = started w1" by (simp_all add: quiet_def)
  from e show ?thesis by (cases rule: exchange_cases) (simp_all add: q)
qed

text \<open>C20: The log-in follows PKCE. Finding out that the user is not logged in starts no command and
  sends at most one request, a refresh with the stored token. After that, apart from \<open>uname\<close> (to
  recognise WSL, not asked on Windows and macOS), at most one command is started, the one
  that opens the authorisation URL of a verifier and a state, and at most one request is
  sent: the exchange of a code, whose form decodes to that code and to the verifier whose
  challenge is in the URL. The code is one that the callback server returned for the state
  in the URL, so it came with a request that carried this state.\<close>

theorem login_pkce:
  assumes "loginStatus w = (Ret False, w1)" and "login w = (out, w')"
    and "\<forall>s. callback_result (sessState s) (callbackResult w1 s)"
  shows "started w1 = started w
   \<and> (requests w1 = requests w \<or> (\<exists>q. refresh_request w q \<and> requests w1 = requests w @ [q]))
   \<and> (started w' = started w1 \<and> requests w' = requests w1
   \<or> (\<exists>url verifier state new.
       fst (buildAuthURL verifier (generateCodeChallenge verifier) state w1) = Ret url
     \<and> started w' = started w1 @ (if GOOS w1 \<in> {''windows'', ''darwin''} then [] else [(''uname'', [''-r''])]) @ new
     \<and> length new \<le> 1 \<and> (\<forall>(cmd, args)\<in>set new. last args = url)
     \<and> (requests w' = requests w1 \<or> (\<exists>code form s.
         requests w' = requests w1 @ [(''https://'' @ Getenv (cenv w1) ''AUTH0_TENANT'' @ ''/oauth/token'', form)]
       \<and> ParseQuery form = Some [(''client_id'', Getenv (cenv w1) ''AUTH0_NATIVE_CLIENT_ID''),
           (''code'', code), (''code_verifier'', verifier), (''grant_type'', ''authorization_code''),
           (''redirect_uri'', Getenv (cenv w1) ''CALLBACK_URL'')]
       \<and> cb_reach state s \<and> cbMain s = Returned (Inr code)))))"
    (is "_ \<and> _ \<and> ?run")
proof -
  have "cli_world.more w1 = cli_world.more w"
    using relatedD [OF loginStatus_le assms(1)] by (simp add: cli_le_def)
  then have "started w1 = started w" using login_fields_more by blast
  moreover have ?run
    using assms(1,2) refl refl
  proof (cases rule: login_phases)
    case no_url
    then show ?thesis by simp
  next
    case (no_code url new e)
    then show ?thesis using browser_run_parts [OF no_code(4)] by metis
  next
    case (code url new code w4)
    define st where "st = random_string 24 (drop 32 (entropy w1))"
    from assms(3) [rule_format, of "\<lparr>sessState = st, sessCodeVerifier = random_string 32 (entropy w1)\<rparr>"]
    obtain s where s: "cb_reach st s" "cbMain s = Returned (Inr code)"
      using code(2) by (auto simp: callback_result_def st_def)
    have "ParseQuery (Encode (exchange_form cid code cb v)) = Some [(''client_id'', cid), (''code'', code),
        (''code_verifier'', v), (''grant_type'', ''authorization_code''), (''redirect_uri'', cb)]" for cid cb v
      by (rule ParseQuery_exchange_form)
    with finish_requests [OF code(8)] code s browser_run_parts [OF code(3)] show ?thesis
      unfolding st_def by metis
  qed
  ultimately show ?thesis using loginStatus_requests [OF assms(1)] by blast
qed

text \<open>C40: A failed log-in never gets a code. When the callback server reports an error (the user
  denied the access, a forged callback, a timeout, a port in use), every run of the command's two
  goroutines ends after at most two steps in the same deadlock: the error lies in
  \<open>errChan\<close>, which nobody reads, the goroutine that put it there has ended, nothing is in
  \<open>codeChan\<close>, and the main goroutine is at its receive from \<open>codeChan\<close>. So the command does not
  get past it (it hangs there, or the deadlock detector of the runtime ends the process), and
  nothing is sent or saved.\<close>

theorem login_blocks:
  assumes "loginStatus w = (Ret False, w1)"
    and "\<And>v st. \<exists>url. fst (buildAuthURL v (generateCodeChallenge v) st w1) = Ret url"
    and "\<And>s. \<exists>e. callbackResult w1 s = Inl e"
  shows "(\<exists>w'. login w = (Blocked, w') \<and> requests w' = requests w1 \<and> files w' = files w1)
    \<and> (\<forall>session. must_finish (await_step (callbackResult w1 session))
        (\<lambda>s. fetchAt s = Sent \<and> errChan s \<noteq> [] \<and> codeChan s = [] \<and> mainAt s = Receiving) 2 await_init)"
proof (intro conjI allI)
  obtain out w' where l: "login w = (out, w')" by fastforce
  from assms(1) l refl refl show "\<exists>w'. login w = (Blocked, w') \<and> requests w' = requests w1 \<and> files w' = files w1"
  proof (cases rule: login_phases)
    case no_url
    then show ?thesis using assms(2) by (metis insertE outcome.distinct(1,3) singletonD)
  next
    case (no_code url new e)
    with l show ?thesis by simp
  next
    case (code url new code w4)
    then show ?thesis using assms(3) by (metis sum.distinct(1))
  qed
next
  fix session
  obtain e where "callbackResult w1 session = Inl e" using assms(3) by blast
  then show "must_finish (await_step (callbackResult w1 session))
      (\<lambda>s. fetchAt s = Sent \<and> errChan s \<noteq> [] \<and> codeChan s = [] \<and> mainAt s = Receiving) 2 await_init"
    using must_finish_mono [OF await_ends [of "Inl e"], of _ 2] by (simp add: await_done_def)
qed


section \<open>An instance\<close>

definition sample_login :: "error + string \<Rightarrow> login_world" where
  "sample_login r = \<lparr>cenv = [''HOME=/h'', ''AUTH0_TENANT=t'', ''AUTH0_NATIVE_CLIENT_ID=cid''],
     GOOS = ''linux'', cclock = (\<lambda>_. 5000 * second), cticks = 0, mkdir_err = (\<lambda>_. None),
     files = Map.empty, writes = 0, write_outcome = (\<lambda>_. Written),
     marshal = (\<lambda>c. Inr ''{}''), unmarshal = (\<lambda>d. Inl (Err ''invalid'')),
     decode_claims = (\<lambda>_. Inl (Err ''invalid'')),
     decode_tokens = (\<lambda>b. Inr \<lparr>NewAccessToken = ''at'', NewRefreshToken = ''rt'', NewIDToken = ''it'',
       TokenType = ''Bearer'', ExpiresIn = 3600\<rparr>),
     url_Parse = (\<lambda>u. Some \<lparr>urlFront = u, RawQuery = '''', urlFragment = ''''\<rparr>),
     http_reply = (\<lambda>_. Inr \<lparr>StatusCode = 200, Body = '''', bodyErr = None\<rparr>), requests = [],
     entropy = replicate 56 7, start_err = (\<lambda>_ _. None), uname_out = Inl (Err ''no uname''),
     unicode_lower = id, started = [],
     callbackResult = (\<lambda>s. if sessState s = '''' then Inl (Err ''timeout waiting for authentication callback'') else r)\<rparr>"

lemma sample_login_status: "loginStatus (sample_login r) = (Ret False, sample_login r)"
proof -
  have "stored (sample_login r) = Inl (Err ''open file'')"
    by (simp add: stored_def credentials_file_def sample_login_def Getenv_def HasPrefix_def)
  then show ?thesis by (simp add: loginStatus_def loadCreds_eq prog_simps)
qed

lemma sample_login_url:
  "\<exists>url. fst (buildAuthURL v ch st (sample_login r)) = Ret url"
  by (simp add: buildAuthURL_def env_var_def prog_simps sample_login_def Getenv_def HasPrefix_def)

lemma callback_timeout:
  "callback_result expected (Inl (Err ''timeout waiting for authentication callback''))"
proof -
  have "cb_step expected cb_init (cb_init\<lparr>cbMain := Waiting\<rparr>)"
    by (rule cb_step.select) (simp add: cb_init_def)
  moreover have "cb_step expected (cb_init\<lparr>cbMain := Waiting\<rparr>) (cb_init\<lparr>cbMain := Returned (Inl (Err ''timeout waiting for authentication callback''))\<rparr>)"
    using cb_step.timeout [of "cb_init\<lparr>cbMain := Waiting\<rparr>" expected] by simp
  ultimately have "(cb_step expected)\<^sup>*\<^sup>* cb_init (cb_init\<lparr>cbMain := Returned (Inl (Err ''timeout waiting for authentication callback''))\<rparr>)"
    using rtranclp.rtrancl_into_rtrancl [of "cb_step expected"] rtranclp.rtrancl_refl [of "cb_step expected"]
    by blast
  then show ?thesis by (auto simp: callback_result_def)
qed

lemma random_string_nonempty: "0 < n \<Longrightarrow> random_string n e \<noteq> ''''"
  using length_random_string [of n e] by auto

theorem login_pkce_witness:
  "\<exists>out w' url form. login (sample_login (Inr ''c'')) = (out, w') \<and> requests w' = [(url, form)]"
proof -
  let ?w = "sample_login (Inr ''c'')"
  obtain out w' where l: "login ?w = (out, w')" by fastforce
  have cb: "\<forall>s. callback_result (sessState s) (callbackResult ?w s)"
    using callback_timeout by (simp add: sample_login_def callback_result_iff)
  have env: "Getenv (cenv ?w) ''AUTH0_TENANT'' \<noteq> ''''" "Getenv (cenv ?w) ''AUTH0_NATIVE_CLIENT_ID'' \<noteq> ''''"
    by (simp_all add: sample_login_def Getenv_def HasPrefix_def)
  have sends: "requests w5 \<noteq> []"
    if "exchangeCodeForTokens code v w4 = (o5, w5)" "cenv w4 = cenv ?w" "url_Parse w4 = url_Parse ?w"
    for code v w4 o5 w5
    using that env
    by (auto simp: exchangeCodeForTokens_def env_var_def http_NewRequest_def client_Do_def prog_simps
        Let_def sample_login_def split: if_splits sum.splits)
  have "requests w' \<noteq> []"
    using sample_login_status l refl refl
  proof (cases rule: login_phases)
    case no_url
    then show ?thesis using sample_login_url by (metis insertE outcome.distinct(1,3) singletonD)
  next
    case (no_code url new e)
    then show ?thesis
      using random_string_nonempty [of 24] by (simp add: sample_login_def)
  next
    case (code url new c w4)
    obtain o5 w5 where e: "exchangeCodeForTokens c (random_string 32 (entropy ?w)) w4 = (o5, w5)"
      by fastforce
    from sends [OF e code(6,7)] have "requests w5 \<noteq> []" .
    with code(8) e finish_quiet [OF e] show ?thesis by (simp add: quiet_def)
  qed
  moreover have "requests ?w = []" by (simp add: sample_login_def)
  ultimately show ?thesis using login_pkce [OF sample_login_status l cb] l by auto
qed

theorem login_blocks_witness:
  "\<exists>w'. login (sample_login (Inl (Err ''denied''))) = (Blocked, w') \<and> requests w' = [] \<and> files w' = Map.empty"
proof -
  let ?w = "sample_login (Inl (Err ''denied''))"
  have "\<exists>e. callbackResult ?w s = Inl e" for s by (simp add: sample_login_def)
  with login_blocks [OF sample_login_status sample_login_url] show ?thesis
    by (simp add: sample_login_def)
qed

theorem auth_url_parameters_witness:
  "\<exists>url w' front query fragment. buildAuthURL ''v'' ''ch&=x'' ''st'' (sample_login (Inr ''c'')) = (Ret url, w')
     \<and> url = front @ ''?'' @ query @ fragment
     \<and> (\<exists>ps. ParseQuery query = Some ps \<and> (''code_challenge'', ''ch&=x'') \<in> set ps)"
proof -
  let ?w = "sample_login (Inr ''c'')"
  obtain url where "buildAuthURL ''v'' ''ch&=x'' ''st'' ?w = (Ret url, snd (buildAuthURL ''v'' ''ch&=x'' ''st'' ?w))"
    using sample_login_url [of "''v''" "''ch&=x''" "''st''" "Inr ''c''"] by (metis prod.collapse)
  note b = this
  from auth_url_parameters [OF b] obtain front query fragment where
    "url = front @ ''?'' @ query @ fragment" "\<exists>ps. ParseQuery query = Some ps \<and> (''code_challenge'', ''ch&=x'') \<in> set ps"
    by auto
  with b show ?thesis by blast
qed

end
