(* ===== verification/LoginKept.thy ===== *)
theory LoginKept
  imports Login
begin

text \<open>
  A log-in that succeeds: the tokens of the exchange are in the credentials file, the next
  command finds them there.
\<close>

section \<open>The credentials of a log-in\<close>

definition login_user :: "'a login_world_scheme \<Rightarrow> TokenResponse \<Rightarrow> UserInfo" where
  "login_user w tokens = (case fst (parseIDToken (NewIDToken tokens) w) of
     Ret (Inr info) \<Rightarrow> info
   | _ \<Rightarrow> \<lparr>Sub = '''', UserEmail = ''unkown'', UserName = ''unknown'', UserRoles = []\<rparr>)"

definition login_roles :: "'a login_world_scheme \<Rightarrow> TokenResponse \<Rightarrow> string list" where
  "login_roles w tokens = (case fst (parseAccessToken (NewAccessToken tokens) w) of
     Ret (Inr claims) \<Rightarrow> extractRolesFromClaims claims
   | _ \<Rightarrow> UserRoles (login_user w tokens))"

definition login_creds :: "'a login_world_scheme \<Rightarrow> TokenResponse \<Rightarrow> SavedCreds" where
  "login_creds w tokens = \<lparr>AccessToken = NewAccessToken tokens, RefreshToken = NewRefreshToken tokens,
     IDToken = NewIDToken tokens,
     CredsExpiresAt = expiry (cclock w (cticks w)) (ExpiresIn tokens),
     CredsIssuedAt = cclock w (Suc (cticks w)),
     CredsUser = (login_user w tokens)\<lparr>UserRoles := login_roles w tokens\<rparr>\<rparr>"

lemma parseIDToken_eq: "\<exists>r. parseIDToken tok w = (Ret r, w)"
proof -
  obtain r where "parseAccessToken tok w = (Ret r, w)" using parseAccessToken_eq by blast
  then show ?thesis by (cases r) (simp_all add: parseIDToken_def prog_simps)
qed

lemma saveLogin_eq:
  "saveLogin tokens w = ifErr (saveCreds (login_creds w tokens)) (\<lambda>e. exit) (\<lambda>_. ret ())
     (w\<lparr>cticks := Suc (Suc (cticks w))\<rparr>)"
proof -
  obtain r where i: "parseIDToken (NewIDToken tokens) w = (Ret r, w)" using parseIDToken_eq by blast
  obtain q where a: "parseAccessToken (NewAccessToken tokens) w = (Ret q, w)" using parseAccessToken_eq by blast
  from i a show ?thesis
    by (cases r; cases q) (simp_all add: saveLogin_def login_creds_def login_user_def login_roles_def
      cli_now_def prog_simps)
qed


text \<open>They depend only on the clock and the decoder of the claims.\<close>

lemma parseAccessToken_cong:
  "decode_claims w' = decode_claims w \<Longrightarrow> fst (parseAccessToken tok w') = fst (parseAccessToken tok w)"
  by (simp add: parseAccessToken_def prog_simps split: list.split sum.split)

lemma parseIDToken_cong:
  assumes "decode_claims w' = decode_claims w"
  shows "fst (parseIDToken tok w') = fst (parseIDToken tok w)"
proof -
  obtain r where "parseAccessToken tok w = (Ret r, w)" using parseAccessToken_eq by blast
  moreover obtain r' where "parseAccessToken tok w' = (Ret r', w')" using parseAccessToken_eq by blast
  moreover have "fst (parseAccessToken tok w') = fst (parseAccessToken tok w)"
    by (rule parseAccessToken_cong [OF assms])
  ultimately show ?thesis by (cases r) (simp_all add: parseIDToken_def prog_simps)
qed

lemma login_creds_cong:
  fixes w w' :: "'a login_world_scheme"
  assumes "decode_claims w' = decode_claims w" and "cclock w' = cclock w" and "cticks w' = cticks w"
  shows "login_creds w' tokens = login_creds w tokens"
proof -
  have user: "login_user w' tokens = login_user w tokens"
    using assms(1) parseIDToken_cong [of w' w] by (simp add: login_user_def)
  then have "login_roles w' tokens = login_roles w tokens"
    by (simp only: login_roles_def parseAccessToken_cong [OF assms(1)])
  with user assms show ?thesis by (simp add: login_creds_def)
qed

section \<open>From the exchange to the file\<close>

lemma saveLogin_kept:
  assumes "marshal w (login_creds w tokens) = Inr d" and "credentials_file w = Inr p"
    and "write_outcome w (writes w) = Written"
    and "creds_json w" and "ascii_creds (login_creds w tokens)"
  shows "\<exists>w'. saveLogin tokens w = (Ret (), w') \<and> stored w' = Inr (login_creds w tokens)
     \<and> requests w' = requests w \<and> cclock w' = cclock w"
proof -
  let ?c = "login_creds w tokens" and ?w1 = "w\<lparr>cticks := Suc (Suc (cticks w))\<rparr>"
  have "credentials_file ?w1 = Inr p" using assms(2) by (simp add: credentials_file_def)
  then obtain w' where s: "saveCreds ?c ?w1 = (Ret (Inr ()), w')"
    using assms(1,3) by (simp add: saveCreds_def getCredentialsPath_eq WriteFile_def prog_simps Let_def)
  have "cli_le ?w1 w'" by (rule relatedD [OF saveCreds_le s])
  moreover have "stored w' = Inr ?c"
    using saveCreds_stored [OF s] assms(4,5) by (simp add: creds_json_def)
  moreover have "requests w' = requests ?w1" using requests_saveCreds [OF s] by blast
  ultimately show ?thesis
    using s by (simp add: saveLogin_eq ifErr_def andThen_def [of "saveCreds _"] ret_def cli_le_def)
qed

lemma exchange_succeeds:
  assumes "Getenv (cenv w) ''AUTH0_TENANT'' \<noteq> ''''" and "Getenv (cenv w) ''AUTH0_NATIVE_CLIENT_ID'' \<noteq> ''''"
    and "url_Parse w (''https://'' @ Getenv (cenv w) ''AUTH0_TENANT'' @ ''/oauth/token'') \<noteq> None"
    and "http_reply w (length (requests w)) = Inr response" and "StatusCode response = 200"
    and "decode_tokens w (Body response) = Inr tokens"
  shows "exchangeCodeForTokens code v w = (Ret (Inr tokens),
    w\<lparr>requests := requests w @ [(''https://'' @ Getenv (cenv w) ''AUTH0_TENANT'' @ ''/oauth/token'',
      Encode (exchange_form (Getenv (cenv w) ''AUTH0_NATIVE_CLIENT_ID'') code
        (Getenv (cenv w) ''CALLBACK_URL'') v))]\<rparr>)"
  using assms by (simp add: exchangeCodeForTokens_def env_var_def http_NewRequest_def client_Do_def
      prog_simps Let_def)

lemma loginStatus_good:
  assumes "stored w = Inr c" and "cclock w (cticks w) + 180 * second \<le> CredsExpiresAt c"
  shows "loginStatus w = (Ret True, w\<lparr>cticks := Suc (Suc (cticks w))\<rparr>)"
  using assms by (simp add: loginStatus_def loadCreds_eq isExpired_eq prog_simps time_Until_def cli_now_def
      minute_def second_def)


text \<open>C21: A log-in is kept. When the callback server has a code, the token server answers the exchange
  with tokens, and the new credentials (without bytes outside ASCII) can be encoded and written
  to the file, then the command returns, and the access, refresh and identity token of that
  reply and its expiry are in the credentials file. As long as this expiry is three minutes
  away or more, a later log-in finds them there and does nothing but look at the clock.\<close>

theorem login_is_kept:
  assumes "loginStatus w = (Ret False, w1)"
    and "v = random_string 32 (entropy w1)" and "st = random_string 24 (drop 32 (entropy w1))"
    and "fst (buildAuthURL v (generateCodeChallenge v) st w1) = Ret url"
    and "callbackResult w1 \<lparr>sessState = st, sessCodeVerifier = v\<rparr> = Inr code"
    and "url_Parse w1 (''https://'' @ Getenv (cenv w1) ''AUTH0_TENANT'' @ ''/oauth/token'') \<noteq> None"
    and "http_reply w1 (length (requests w1)) = Inr response" and "StatusCode response = 200"
    and "decode_tokens w1 (Body response) = Inr tokens"
    and "marshal w1 (login_creds w1 tokens) = Inr d" and "credentials_file w1 = Inr p"
    and "write_outcome w1 (writes w1) = Written"
    and "creds_json w1" and "ascii_creds (login_creds w1 tokens)"
  shows "\<exists>w' c. login w = (Ret (), w') \<and> loadCreds w' = (Ret (Inr c), w')
     \<and> AccessToken c = NewAccessToken tokens \<and> RefreshToken c = NewRefreshToken tokens
     \<and> IDToken c = NewIDToken tokens
     \<and> CredsExpiresAt c = expiry (cclock w1 (cticks w1)) (ExpiresIn tokens)
     \<and> (\<forall>t. cclock w' t + 180 * second \<le> CredsExpiresAt c \<longrightarrow>
          (\<exists>t'. login (w'\<lparr>cticks := t\<rparr>) = (Ret (), w'\<lparr>cticks := t'\<rparr>)))"
proof -
  let ?c = "login_creds w1 tokens"
  obtain out w' where l: "login w = (out, w')" by fastforce
  have "out = Ret () \<and> stored w' = Inr ?c"
    using assms(1) l assms(2,3)
  proof (cases rule: login_phases)
    case no_url
    with assms(4) show ?thesis by simp
  next
    case (no_code url' new e)
    with assms(5) show ?thesis by simp
  next
    case (code url' new code' w4)
    from assms(4) obtain "Getenv (cenv w1) ''AUTH0_TENANT'' \<noteq> ''''"
      "Getenv (cenv w1) ''AUTH0_NATIVE_CLIENT_ID'' \<noteq> ''''"
      by (cases rule: buildAuthURL_cases [of v "generateCodeChallenge v" st w1, OF prod.collapse [symmetric]])
        simp_all
    with assms(6-9) obtain rs where
      e: "exchangeCodeForTokens code' v w4 = (Ret (Inr tokens), w4\<lparr>requests := rs\<rparr>)"
      using exchange_succeeds [of w4 response tokens code' v] code(9) by simp
    let ?w5 = "w4\<lparr>requests := rs\<rparr>"
    have c: "login_creds ?w5 tokens = ?c" by (rule login_creds_cong) (simp_all add: code(9))
    have "credentials_file ?w5 = Inr p" "creds_json ?w5"
      using assms(11,13) by (simp_all add: credentials_file_def creds_json_def code(9))
    with saveLogin_kept [of ?w5 tokens d p] assms(10,12,14) obtain w6 where
      "saveLogin tokens ?w5 = (Ret (), w6)" "stored w6 = Inr ?c"
      unfolding c by (auto simp: code(9))
    with code(8) e show ?thesis by (simp add: ifErr_def andThen_def [of "exchangeCodeForTokens _ _"])
  qed
  moreover have "\<exists>t'. login (w'\<lparr>cticks := t\<rparr>) = (Ret (), w'\<lparr>cticks := t'\<rparr>)"
    if "stored w' = Inr ?c" "cclock w' t + 180 * second \<le> CredsExpiresAt ?c" for t
  proof -
    have "stored (w'\<lparr>cticks := t\<rparr>) = Inr ?c" using that(1) by (simp add: stored_def)
    with that(2) have "loginStatus (w'\<lparr>cticks := t\<rparr>) = (Ret True, w'\<lparr>cticks := Suc (Suc t)\<rparr>)"
      using loginStatus_good [of "w'\<lparr>cticks := t\<rparr>" ?c] by simp
    then show ?thesis by (auto simp: login_def andThen_def [of loginStatus] ret_def)
  qed
  ultimately show ?thesis using l
    by (intro exI [of _ w'] exI [of _ ?c]) (simp add: loadCreds_eq login_creds_def)
qed


section \<open>An instance\<close>

definition kept_creds :: SavedCreds where
  "kept_creds = \<lparr>AccessToken = ''at'', RefreshToken = ''rt'', IDToken = ''it'',
     CredsExpiresAt = expiry (5000 * second) 3600, CredsIssuedAt = 5000 * second,
     CredsUser = \<lparr>Sub = '''', UserEmail = ''unkown'', UserName = ''unknown'', UserRoles = []\<rparr>\<rparr>"

definition sample_kept :: login_world where
  "sample_kept = (sample_login (Inr ''c''))\<lparr>
     marshal := \<lambda>c. if c = kept_creds then Inr ''{1}'' else Inl (Err ''unsupported''),
     unmarshal := \<lambda>d. if d = ''{1}'' then Inr kept_creds else Inl (Err ''invalid'')\<rparr>"

lemma sample_kept_json: "creds_json sample_kept"
proof -
  have "take n d \<noteq> ''{1}''" if "n < 3" for n and d :: string
    using that by (auto dest: arg_cong [of _ _ length])
  then show ?thesis by (auto simp: creds_json_def sample_kept_def split: if_splits)
qed

lemma sample_kept_path: "credentials_file sample_kept = Inr ''/h/.gprxy/credentials''"
  by (simp add: sample_kept_def sample_login_def credentials_file_def Getenv_def HasPrefix_def
      filepath_Join_def Clean_def Let_def)

lemma sample_kept_status: "loginStatus sample_kept = (Ret False, sample_kept)"
proof -
  have "stored sample_kept = Inl (Err ''open file'')"
    by (simp add: stored_def sample_kept_path) (simp add: sample_kept_def sample_login_def)
  then show ?thesis by (simp add: loginStatus_def loadCreds_eq prog_simps)
qed

lemma sample_kept_creds:
  assumes "NewAccessToken tokens = ''at''" and "NewRefreshToken tokens = ''rt''"
    and "NewIDToken tokens = ''it''" and "ExpiresIn tokens = 3600"
  shows "login_creds sample_kept tokens = kept_creds"
  using assms by (simp add: login_creds_def login_roles_def login_user_def parseIDToken_def
      parseAccessToken_def prog_simps kept_creds_def sample_kept_def sample_login_def)

theorem login_is_kept_witness:
  "\<exists>w' c. login sample_kept = (Ret (), w') \<and> loadCreds w' = (Ret (Inr c), w')
     \<and> AccessToken c = ''at'' \<and> CredsExpiresAt c = 8600 * second"
proof -
  let ?w = "sample_kept" and ?response = "\<lparr>StatusCode = 200, Body = '''', bodyErr = None\<rparr>"
  let ?tokens = "\<lparr>NewAccessToken = ''at'', NewRefreshToken = ''rt'', NewIDToken = ''it'',
    TokenType = ''Bearer'', ExpiresIn = 3600\<rparr>"
  let ?v = "random_string 32 (entropy ?w)" and ?st = "random_string 24 (drop 32 (entropy ?w))"
  obtain url where url: "fst (buildAuthURL ?v (generateCodeChallenge ?v) ?st ?w) = Ret url"
    by (simp add: buildAuthURL_def env_var_def prog_simps sample_kept_def sample_login_def
        Getenv_def HasPrefix_def)
  have code: "callbackResult ?w \<lparr>sessState = ?st, sessCodeVerifier = ?v\<rparr> = Inr ''c''"
    using random_string_nonempty [of 24] by (simp add: sample_kept_def sample_login_def)
  have creds: "login_creds ?w ?tokens = kept_creds" by (rule sample_kept_creds) simp_all
  have "ascii_creds kept_creds" by (simp add: ascii_creds_def kept_creds_def is_ascii_def)
  moreover have "marshal ?w kept_creds = Inr ''{1}''" "decode_tokens ?w '''' = Inr ?tokens"
    "http_reply ?w n = Inr ?response" "write_outcome ?w n = Written" "cclock ?w n = 5000 * second"
    "url_Parse ?w u \<noteq> None" for n u
    by (simp_all add: sample_kept_def sample_login_def)
  ultimately show ?thesis
    using login_is_kept [OF sample_kept_status refl refl url code, of ?response ?tokens "''{1}''"
        "''/h/.gprxy/credentials''"] creds sample_kept_json sample_kept_path
    by (auto simp: expiry_exact second_def)
qed

end
