(* ===== verification/Tls.thy ===== *)
theory Tls
  imports Wire
begin

text \<open>
  \<open>internal/tls\<close>: the proxy's TLS configuration (\<open>tls.go\<close>) and the upgrade of the command
  line's connection to the proxy (\<open>client-tls.go\<close>).
\<close>

section \<open>tls.go\<close>

text \<open>The fields of \<open>tls.Config\<close> that \<open>Load\<close> sets, with the numbers of the TLS registry.\<close>

record 'cert tls_config =
  Certificates :: "'cert list"
  MinVersion :: nat
  MaxVersion :: nat
  PreferServerCipherSuites :: bool
  CipherSuites :: "nat list"
  CurvePreferences :: "nat list"

definition VersionTLS12 :: nat where "VersionTLS12 = 0x0303"

definition VersionTLS13 :: nat where "VersionTLS13 = 0x0304"

text \<open>
  \<open>dotenv\<close> is \<open>godotenv.Load\<close>, \<open>keypair\<close> is \<open>tls.LoadX509KeyPair\<close>. The result is nil without
  the two variables, and a certificate that cannot be loaded ends the process.
\<close>

definition tls_Load :: "(environ \<Rightarrow> environ option) \<Rightarrow> (string \<Rightarrow> string \<Rightarrow> error + 'cert) \<Rightarrow> environ \<Rightarrow>
    'cert tls_config option outcome" where
  "tls_Load dotenv keypair env0 =
    (let env = (case dotenv env0 of None \<Rightarrow> env0 | Some e \<Rightarrow> e);
         proxyCert = Getenv env ''PROXY_CERT'';
         proxyKey = Getenv env ''PROXY_KEY''
     in if proxyCert = '''' \<or> proxyKey = '''' then Ret None
        else (case keypair proxyCert proxyKey of
          Inl e \<Rightarrow> Exit
        | Inr cert \<Rightarrow> Ret (Some \<lparr>Certificates = [cert], MinVersion = VersionTLS12,
            MaxVersion = VersionTLS13, PreferServerCipherSuites = True,
            CipherSuites = [0xc02f, 0xc030, 0xc02b, 0xc02c, 0xcca8, 0xcca9],
            CurvePreferences = [29, 23, 24]\<rparr>)))"

section \<open>client-tls.go\<close>

text \<open>
  The command line's side of its connection to the proxy: what was written over which
  transport, the replies to the SSL request, the results of handshakes and the messages
  the proxy sends.
\<close>

datatype sock_out = Packet "u8 list" | Front FrontendMessage

record link_world =
  link :: "(BackendMessage, transport \<times> sock_out) endpoint"
  sslq :: "(error + u8) list"
  chandshakeq :: "(error + unit) list"

definition linkSend :: "transport \<Rightarrow> sock_out \<Rightarrow> (link_world, error + unit) prog" where
  "linkSend t m = zoom link link_update (ep_send (t, m))"

definition linkReceive :: "(link_world, error + BackendMessage) prog" where
  "linkReceive = zoom link link_update ep_recv"

definition readByte :: "(link_world, error + u8) prog" where
  "readByte w = (case sslq w of [] \<Rightarrow> (Blocked, w) | r # rs \<Rightarrow> (Ret r, w\<lparr>sslq := rs\<rparr>))"

definition clientHandshake :: "(link_world, error + unit) prog" where
  "clientHandshake w = (case chandshakeq w of
     [] \<Rightarrow> (Blocked, w) | r # rs \<Rightarrow> (Ret r, w\<lparr>chandshakeq := rs\<rparr>))"

definition sslreq :: "u8 list" where
  "sslreq = PutUint32 (PutUint32 (replicate 8 0) 0 8) 4 80877103"

text \<open>The result is the transport the returned connection stands for.\<close>

definition UpgradeToTLS :: "(link_world, error + transport) prog" where
  "UpgradeToTLS =
    ifErr (linkSend PlainTCP (Packet sslreq))
      (\<lambda>e. ret (Inl (Wrap ''failed to send SSL request: %w'' e))) (\<lambda>_.
    ifErr readByte
      (\<lambda>e. ret (Inl (Wrap ''failed to read SSL response: %w'' e))) (\<lambda>response.
    if response = of_char (CHR ''N'') then ret (Inr PlainTCP)
    else
      ifErr clientHandshake
        (\<lambda>e. ret (Inl (Wrap ''tls handshake failed: %w'' e)))
        (\<lambda>_. ret (Inr TLSConn))))"

section \<open>Properties\<close>

interpretation link: endpoint_at link link_update
  by unfold_locales simp

text \<open>Every suite of the list is a forward-secret AEAD suite of TLS 1.2 (RFC 5289, RFC 7905).\<close>

definition aead_suites :: "nat set" where
  "aead_suites = {0xc02b, 0xc02c, 0xc02f, 0xc030, 0xcca8, 0xcca9}"

text \<open>The TLS configuration. \<open>Load\<close> gives no configuration exactly if one of the two variables
  is unset, ends the process if the certificate cannot be loaded, and otherwise gives
  the certificate of the two files with TLS 1.2 or 1.3 only, and only AEAD suites with
  forward secrecy.\<close>

theorem tls_load_cases:
  "let env = (case dotenv env0 of None \<Rightarrow> env0 | Some e \<Rightarrow> e);
       cert = Getenv env ''PROXY_CERT''; key = Getenv env ''PROXY_KEY'' in
   (tls_Load dotenv keypair env0 = Ret None) = (cert = [] \<or> key = [])
   \<and> (tls_Load dotenv keypair env0 = Exit) = (cert \<noteq> [] \<and> key \<noteq> [] \<and> (\<exists>e. keypair cert key = Inl e))
   \<and> (\<forall>c. tls_Load dotenv keypair env0 \<noteq> Ret (Some c)
        \<or> keypair cert key = Inr (hd (Certificates c)) \<and> VersionTLS12 = MinVersion c
          \<and> MinVersion c < MaxVersion c \<and> set (CipherSuites c) \<subseteq> aead_suites)"
  by (auto simp: tls_Load_def Let_def aead_suites_def VersionTLS12_def VersionTLS13_def split: sum.splits)

lemma sslreq_fields: "length sslreq = 8 \<and> Uint32 sslreq 0 = 8 \<and> Uint32 sslreq 4 = 80877103"
  by (simp add: sslreq_def Uint32_PutUint32 Uint32_PutUint32_other)

text \<open>What the upgrade does for each reply.\<close>

lemma UpgradeToTLS_cases:
  assumes "UpgradeToTLS w = (out, w')" and "wok (link w) (tries (link w))"
  shows "outq (link w') = outq (link w) @ [(PlainTCP, Packet sslreq)] \<and> inq (link w') = inq (link w)
    \<and> (\<forall>b rs. sslq w = Inr b # rs \<longrightarrow>
        (if b = of_char (CHR ''N'') then out = Ret (Inr PlainTCP)
         else \<forall>t. out = Ret (Inr t) \<longrightarrow> t = TLSConn))"
  using assms
  by (auto simp: UpgradeToTLS_def linkSend_def readByte_def clientHandshake_def ep_send_def prog_simps
      split: list.splits sum.splits if_splits)

end
