(* ===== verification/Connect.thy ===== *)
theory Connect
  imports Creds Tls Session
begin

text \<open>
  \<open>internal/cli/connect.go\<close>: the command that connects to the proxy and presents the access
  token, and how its upgrade to TLS fits the proxy's answer to an SSL request.
\<close>

section \<open>State\<close>

record ConnectionConfig =
  db_name :: string
  db_host :: string
  db_port :: int

text \<open>
  \<open>is_ip\<close> is \<open>net.ParseIP(..) != nil\<close>, \<open>lookup_host\<close> is \<open>net.LookupHost\<close>; \<open>dial_err n\<close> is the
  outcome of the \<open>n\<close>-th \<open>net.DialTimeout\<close>, and \<open>dialled\<close> the targets. \<open>plink\<close> is the
  connection to the proxy.
\<close>

record connect_world = cli_world +
  connectConfig :: ConnectionConfig
  is_ip :: "string \<Rightarrow> bool"
  lookup_host :: "string \<Rightarrow> error + string list"
  dial_err :: "nat \<Rightarrow> error option"
  dialled :: "string list"
  plink :: link_world
  plink_open :: bool

definition on_link :: "(link_world, 'b) prog \<Rightarrow> ('a connect_world_scheme, 'b) prog" where
  "on_link = zoom plink plink_update"

definition net_Dial :: "string \<Rightarrow> ('a connect_world_scheme, error + unit) prog" where
  "net_Dial target w =
    (Ret (case dial_err w (length (dialled w)) of Some e \<Rightarrow> Inl e | None \<Rightarrow> Inr ()),
     w\<lparr>dialled := dialled w @ [target]\<rparr>)"

definition link_Close :: "('a connect_world_scheme, unit) prog" where
  "link_Close = modify (plink_open_update (\<lambda>_. False))"

section \<open>Operations\<close>

definition Validate :: "('a connect_world_scheme, error + unit) prog" where
  "Validate =
    andThen (gets connectConfig) (\<lambda>c.
    if db_port c < 1 \<or> db_port c > 65535 then ret (Inl (Err ''invalid port''))
    else
    andThen (gets (\<lambda>w. if is_ip w (db_host c) then Inr ()
        else (case lookup_host w (db_host c) of
            Inl e \<Rightarrow> Inl e
          | Inr addr \<Rightarrow> if addr = [] then Inl (Err ''host resolved to no IP addresses'') else Inr ()))) (\<lambda>r.
    case r of Inl e \<Rightarrow> ret (Inl e) | Inr _ \<Rightarrow>
    ifErr (net_Dial (JoinHostPort (db_host c) (Itoa (nat (db_port c)))))
      (\<lambda>e. ret (Inl (Wrap ''host unreachable on port %d: %v'' e)))
      (\<lambda>_. ret (Inr ()))))"

text \<open>After a failed load \<open>creds\<close> is nil, and \<open>creds.ExpiresAt\<close> panics.\<close>

definition getCreds :: "('a connect_world_scheme, error + SavedCreds) prog" where
  "getCreds =
    ifErr loadCreds (\<lambda>e. panic) (\<lambda>creds.
    andThen (time_Until (CredsExpiresAt creds)) (\<lambda>d.
    if d < 30 * minute then
      ifErr getRefreshToken
        (\<lambda>e. ret (Inl (Wrap ''Token refresh failed: %v'' e)))
        (\<lambda>newCreds. ret (Inr newCreds))
    else andThen (time_Until (CredsExpiresAt creds)) (\<lambda>_. ret (Inr creds))))"

definition startup_params :: "string \<Rightarrow> string \<Rightarrow> parameters" where
  "startup_params database user = [''application_name'' \<mapsto> ''psql'', ''client_encoding'' \<mapsto> ''UTF8'',
     ''database'' \<mapsto> database, ''user'' \<mapsto> user]"

text \<open>
  From the upgrade on: the errors of the two writes are logged, whatever the proxy sends
  in between is logged too.
\<close>

definition presentToken :: "SavedCreds \<Rightarrow> ('a connect_world_scheme, unit) prog" where
  "presentToken creds =
    ifErr (on_link UpgradeToTLS) (\<lambda>e. exit) (\<lambda>conn.
    andThen (gets connectConfig) (\<lambda>c.
    andThen (on_link (linkSend conn (Front (SendStartup (startup_params (db_name c)
        (UserEmail (CredsUser creds))))))) (\<lambda>err.
    andThen (on_link linkReceive) (\<lambda>msg.
    andThen (on_link (linkSend conn (Front (PasswordMessage (AccessToken creds))))) (\<lambda>err.
    ret ())))))"

text \<open>
  A failed validation is only logged. After a failed dial \<open>conn\<close> is nil, and
  \<open>defer conn.Close()\<close> panics.
\<close>

definition connect :: "('a connect_world_scheme, unit) prog" where
  "connect =
    andThen Validate (\<lambda>invalid.
    ifErr getCreds (\<lambda>e. exit) (\<lambda>creds.
    andThen (env_var ''PROXY_URL'') (\<lambda>proxy.
    ifErr (net_Dial (JoinHostPort proxy ''7777''))
      (\<lambda>e. panic) (\<lambda>_.
    andThen (modify (plink_open_update (\<lambda>_. True))) (\<lambda>_.
    deferring link_Close (presentToken creds))))))"

section \<open>Credentials\<close>

lemma Validate_returns:
  obtains r ts where "Validate w = (Ret r, w\<lparr>dialled := ts\<rparr>)"
proof -
  have "\<exists>r. fst (Validate w) = Ret r"
    by (auto simp: Validate_def net_Dial_def prog_simps split: sum.split option.split)
  moreover have "snd (Validate w) = w\<lparr>dialled := dialled (snd (Validate w))\<rparr>"
    by (simp add: Validate_def net_Dial_def prog_simps split: sum.split)
  ultimately show ?thesis using that by (metis prod.collapse)
qed

lemma connect_after:
  assumes "Validate w = (Ret r, w1)"
  shows "connect w = ifErr getCreds (\<lambda>e. exit) (\<lambda>creds.
    andThen (env_var ''PROXY_URL'') (\<lambda>proxy.
    ifErr (net_Dial (JoinHostPort proxy ''7777''))
      (\<lambda>e. panic) (\<lambda>_.
    andThen (modify (plink_open_update (\<lambda>_. True))) (\<lambda>_.
    deferring link_Close (presentToken creds))))) w1"
  using assms by (simp add: connect_def andThen_def [of Validate])

lemma stored_dialled [simp]: "stored (w\<lparr>dialled := ts\<rparr>) = stored w"
  by (simp add: stored_def credentials_file_def)

text \<open>Without credentials the command crashes. When the credentials file is missing or does
  not load, \<open>getCreds\<close> goes on with the nil result of the failed load: the command panics
  whatever the flags, without a request and without having contacted the proxy.\<close>

theorem connect_without_login_panics:
  assumes "loadCreds w = (Ret (Inl e), w)"
  shows "fst (connect w) = Panic \<and> requests (snd (connect w)) = requests w
     \<and> plink (snd (connect w)) = plink w"
proof -
  obtain r ts where v: "Validate w = (Ret r, w\<lparr>dialled := ts\<rparr>)" by (rule Validate_returns)
  from assms have "stored w = Inl e" by (simp add: loadCreds_eq)
  then show ?thesis
    by (simp add: connect_after [OF v] getCreds_def loadCreds_eq prog_simps)
qed

lemma getCreds_le: "related cli_le getCreds"
  unfolding getCreds_def time_Until_def
  by (auto intro!: cli.related_rules loadCreds_le cli_now_le getRefreshToken_le)

lemma plink_more:
  fixes w w' :: "'a connect_world_scheme"
  assumes "cli_le w w'"
  shows "plink w' = plink w"
  using assms by (cases w; cases w') (simp add: cli_le_def)

section \<open>The token\<close>

lemma UpgradeToTLS_writes:
  assumes "UpgradeToTLS w = (out, w')"
  shows "\<exists>ps. outq (link w') = outq (link w) @ map (\<lambda>p. (PlainTCP, Packet p)) ps"
  using assms
  by (auto simp: UpgradeToTLS_def linkSend_def readByte_def clientHandshake_def ep_send_def prog_simps
      intro: exI [of _ "[]"] exI [of _ "[sslreq]"] split: list.splits sum.splits if_splits)

lemma UpgradeToTLS_transport:
  assumes "UpgradeToTLS w = (Ret (Inr t), w')"
  shows "t = PlainTCP \<longleftrightarrow> (\<exists>rs. sslq w = Inr (of_char (CHR ''N'')) # rs)"
  using assms
  by (auto simp: UpgradeToTLS_def linkSend_def readByte_def clientHandshake_def ep_send_def prog_simps
      split: list.splits sum.splits if_splits)

lemma linkSend_writes:
  assumes "linkSend t m w = (out, w')"
  shows "\<exists>new. outq (link w') = outq (link w) @ new \<and> set new \<subseteq> {(t, m)}"
  using assms by (auto simp: linkSend_def ep_send_def prog_simps intro: exI [of _ "[]"] exI [of _ "[(t, m)]"]
      split: if_splits)

lemma linkReceive_writes: "linkReceive w = (out, w') \<Longrightarrow> outq (link w') = outq (link w)"
  by (auto simp: linkReceive_def ep_recv_def prog_simps split: list.splits)

text \<open>What the command writes once it has its credentials.\<close>

definition connection_script :: "SavedCreds \<Rightarrow> string \<Rightarrow> transport \<Rightarrow> (transport \<times> sock_out) set" where
  "connection_script creds db t = {(t, Front (SendStartup (startup_params db (UserEmail (CredsUser creds))))),
     (t, Front (PasswordMessage (AccessToken creds)))}"

lemma presentToken_writes:
  assumes "presentToken creds w = (out, w')"
  shows "\<exists>ps new t. outq (link (plink w')) = outq (link (plink w)) @ map (\<lambda>p. (PlainTCP, Packet p)) ps @ new
     \<and> set new \<subseteq> connection_script creds (db_name (connectConfig w)) t
     \<and> (new \<noteq> [] \<longrightarrow> (t = PlainTCP) = (\<exists>rs. sslq (plink w) = Inr (of_char (CHR ''N'')) # rs))"
proof -
  obtain o1 l1 where u: "UpgradeToTLS (plink w) = (o1, l1)" by fastforce
  from UpgradeToTLS_writes [OF u] obtain ps where
    ps: "outq (link l1) = outq (link (plink w)) @ map (\<lambda>p. (PlainTCP, Packet p)) ps" by blast
  show ?thesis
  proof (cases "\<exists>t. o1 = Ret (Inr t)")
    case False
    with assms u have "plink w' = l1"
      by (cases o1) (auto simp: presentToken_def on_link_def prog_simps split: sum.splits)
    with ps show ?thesis by (intro exI [of _ ps] exI [of _ "[]"]) simp
  next
    case True
    then obtain t where t: "o1 = Ret (Inr t)" by blast
    let ?s = "Front (SendStartup (startup_params (db_name (connectConfig w)) (UserEmail (CredsUser creds))))"
    let ?p = "Front (PasswordMessage (AccessToken creds))"
    obtain o2 l2 where s: "linkSend t ?s l1 = (o2, l2)" by fastforce
    obtain o3 l3 where r: "linkReceive l2 = (o3, l3)" by fastforce
    obtain o4 l4 where p: "linkSend t ?p l3 = (o4, l4)" by fastforce
    from s p have ret: "\<exists>r2. o2 = Ret r2" "\<exists>r4. o4 = Ret r4"
      by (auto simp: linkSend_def ep_send_def prog_simps split: if_splits)
    from linkSend_writes [OF s] obtain n2 where n2: "outq (link l2) = outq (link l1) @ n2" "set n2 \<subseteq> {(t, ?s)}"
      by blast
    from linkSend_writes [OF p] obtain n4 where n4: "outq (link l4) = outq (link l3) @ n4" "set n4 \<subseteq> {(t, ?p)}"
      by blast
    from linkReceive_writes [OF r] have l3: "outq (link l3) = outq (link l2)" .
    from assms u t s r p ret have "plink w' = l3 \<or> plink w' = l4"
      by (cases o3) (auto simp: presentToken_def on_link_def prog_simps)
    then have "\<exists>new. outq (link (plink w')) = outq (link l1) @ new
        \<and> set new \<subseteq> connection_script creds (db_name (connectConfig w)) t"
      using n2 n4 l3 by (auto simp: connection_script_def)
    with ps UpgradeToTLS_transport [OF u [unfolded t]] show ?thesis by fastforce
  qed
qed

text \<open>C25: Who gets the access token, and how. Whatever the proxy answers, the only password the
  command writes is the access token of the credentials it loaded or refreshed; it goes in
  clear exactly if the proxy's first byte is \<open>N\<close>, and over TLS otherwise. No request of the
  proxy for a password is needed.\<close>

theorem token_in_clear_iff:
  assumes "connect w = (out, w')" and "outq (link (plink w)) = []"
    and "(t, Front (PasswordMessage p)) \<in> set (outq (link (plink w')))"
  shows "(\<exists>creds. fst (getCreds (snd (Validate w))) = Ret (Inr creds) \<and> p = AccessToken creds)
     \<and> (t = PlainTCP) = (\<exists>rs. sslq (plink w) = Inr (of_char (CHR ''N'')) # rs)"
proof -
  obtain r ts where v: "Validate w = (Ret r, w\<lparr>dialled := ts\<rparr>)" by (rule Validate_returns)
  obtain o2 w2 where g: "getCreds (w\<lparr>dialled := ts\<rparr>) = (o2, w2)" by fastforce
  have l2: "plink w2 = plink w" using plink_more [OF relatedD [OF getCreds_le g]] by simp
  show ?thesis
  proof (cases "\<exists>creds. o2 = Ret (Inr creds)")
    case False
    with assms(1) g l2 have "plink w' = plink w"
      by (cases o2) (auto simp: connect_after [OF v] prog_simps split: sum.splits)
    with assms(2,3) show ?thesis by simp
  next
    case True
    then obtain creds where c: "o2 = Ret (Inr creds)" by blast
    let ?w3 = "w2\<lparr>dialled := dialled w2 @ [JoinHostPort (Getenv (cenv w2) ''PROXY_URL'') ''7777''], plink_open := True\<rparr>"
    obtain o4 w4 where p: "presentToken creds ?w3 = (o4, w4)" by fastforce
    have "plink w' = plink w \<or> plink w' = plink w4"
      using assms(1) g c p l2
      by (cases "dial_err w2 (length (dialled w2))"; cases o4)
        (auto simp: connect_after [OF v] net_Dial_def env_var_def link_Close_def prog_simps)
    with assms(2,3) have "plink w' = plink w4" by auto
    moreover from presentToken_writes [OF p] obtain ps new t' where
      "outq (link (plink w4)) = map (\<lambda>p. (PlainTCP, Packet p)) ps @ new"
      "set new \<subseteq> connection_script creds (db_name (connectConfig ?w3)) t'"
      "new \<noteq> [] \<longrightarrow> (t' = PlainTCP) = (\<exists>rs. sslq (plink w) = Inr (of_char (CHR ''N'')) # rs)"
      using l2 assms(2) by auto
    ultimately show ?thesis using assms(3) v g c by (auto simp: connection_script_def)
  qed
qed


section \<open>Both sides of the SSL request\<close>

lemma answerSSL_byte:
  assumes "answerSSLRequest pc cb w = (Ret (Inl cb'), w')"
  shows "outq (client w') = outq (client w) @ [(pc_conn (heap (srv w) pc),
     RawByte (if srv_tlsConfig (srv w) then CHR ''S'' else CHR ''N''))]"
proof (cases "srv_tlsConfig (srv w)")
  case False
  with assms show ?thesis
    by (cases rule: clientSend_cases [of "pc_conn (heap (srv w) pc)" "RawByte (CHR ''N'')" w])
      (auto simp: answerSSLRequest_def getPC_def prog_simps)
next
  case True
  with assms show ?thesis
    by (cases rule: clientSend_cases [of "pc_conn (heap (srv w) pc)" "RawByte (CHR ''S'')" w])
      (auto simp: answerSSLRequest_def getPC_def setPC_def Handshake_def prog_simps
        split: list.splits sum.splits)
qed

text \<open>C27: Client and proxy agree on the transport. If the proxy goes on after an SSL request, it has
  answered with one byte; a command line that reads this byte and whose upgrade succeeds
  continues on the transport the proxy continues on: TLS exactly if the proxy has a
  TLS configuration.\<close>

theorem ssl_agreement:
  assumes "answerSSLRequest pc PlainTCP w = (Ret (Inl cb), w')"
    and "outq (client w') = outq (client w) @ [(x, RawByte b)]"
    and "sslq l = Inr (of_char b) # rs" and "UpgradeToTLS l = (Ret (Inr t), l')"
  shows "t = cb \<and> (cb = TLSConn) = srv_tlsConfig (srv w)"
proof -
  from answerSSL_byte [OF assms(1)] assms(2)
  have b: "b = (if srv_tlsConfig (srv w) then CHR ''S'' else CHR ''N'')" by simp
  from answerSSL_result [OF assms(1)] have cb: "cb = (if srv_tlsConfig (srv w) then TLSConn else PlainTCP)"
    by simp
  from UpgradeToTLS_transport [OF assms(4)] assms(3) b have "t = PlainTCP \<longleftrightarrow> \<not> srv_tlsConfig (srv w)"
    by simp
  with cb show ?thesis by (cases t) auto
qed


end
