(* ===== verification/Present.thy ===== *)
theory Present
  imports Connect Serve
begin

text \<open>
  The command line and the proxy together: what \<open>connect\<close> writes is what
  \<open>handleConnection\<close> reads, and the access token of the credentials file opens a session as
  the account the proxy maps it to.
\<close>

section \<open>The line between them\<close>

text \<open>
  What pgproto3's backend makes of a client's writes: \<open>ReceiveStartupMessage\<close> of the packet of
  the SSL request and of a start-up message, \<open>Receive\<close> of every other message.
\<close>

fun as_startup :: "transport \<times> sock_out \<Rightarrow> StartupMsg option" where
  "as_startup (t, Packet ps) = (if ps = sslreq then Some SSLRequest else None)"
| "as_startup (t, Front (SendStartup params)) = Some (StartupMessage params)"
| "as_startup (t, Front m) = None"

fun as_message :: "transport \<times> sock_out \<Rightarrow> FrontendMessage option" where
  "as_message (t, Packet ps) = None"
| "as_message (t, Front (SendStartup params)) = None"
| "as_message (t, Front m) = Some m"

section \<open>The command\<close>

lemma linkSend_ok:
  "\<forall>n. wok (link w) n \<Longrightarrow> linkSend t m w = (Ret (Inr ()), w\<lparr>link := wrote [(t, m)] (link w)\<rparr>)"
  by (simp add: linkSend_def ep_send_def prog_simps wrote_def)

text \<open>The byte by which a proxy answers the SSL request, with or without a TLS configuration.\<close>

definition ssl_byte :: "way_in \<Rightarrow> u8" where
  "ssl_byte op = of_char (if op = Upgraded then CHR ''S'' else CHR ''N'')"

lemma UpgradeToTLS_ok:
  assumes "\<forall>n. wok (link w) n" and "sslq w = Inr (ssl_byte op) # rs"
    and "chandshakeq w = Inr () # hs"
  shows "\<exists>w'. UpgradeToTLS w = (Ret (Inr (carrier op)), w') \<and> link w' = wrote [(PlainTCP, Packet sslreq)] (link w)"
  using assms
  by (cases op) (simp_all add: UpgradeToTLS_def linkSend_ok readByte_def clientHandshake_def ssl_byte_def prog_simps)

text \<open>What \<open>connect\<close> sends, for a database and credentials.\<close>

definition presented :: "way_in \<Rightarrow> string \<Rightarrow> SavedCreds \<Rightarrow> (transport \<times> sock_out) list" where
  "presented op database creds = [(PlainTCP, Packet sslreq),
     (carrier op, Front (SendStartup (startup_params database (UserEmail (CredsUser creds))))),
     (carrier op, Front (PasswordMessage (AccessToken creds)))]"

lemma presentToken_ok:
  assumes "\<forall>n. wok (link (plink w)) n" and "sslq (plink w) = Inr (ssl_byte op) # rs"
    and "chandshakeq (plink w) = Inr () # hs" and "inq (link (plink w)) = r # more_in"
  shows "\<exists>w'. presentToken creds w = (Ret (), w')
     \<and> outq (link (plink w')) = outq (link (plink w)) @ presented op (db_name (connectConfig w)) creds
     \<and> plink_open w' = plink_open w"
proof -
  from UpgradeToTLS_ok [OF assms(1-3)] obtain l where "UpgradeToTLS (plink w) = (Ret (Inr (carrier op)), l)"
    "link l = wrote [(PlainTCP, Packet sslreq)] (link (plink w))" by blast
  with assms(1,4) show ?thesis
    by (simp add: presentToken_def on_link_def linkSend_ok linkReceive_def ep_recv_def prog_simps presented_def)
qed

lemma connect_presents:
  assumes creds: "getCreds (snd (Validate w)) = (Ret (Inr creds), w2)"
    and dial: "dial_err w2 (length (dialled w2)) = None"
    and line: "\<forall>n. wok (link (plink w)) n" "sslq (plink w) = Inr (ssl_byte op) # rs"
      "chandshakeq (plink w) = Inr () # hs" "inq (link (plink w)) = r # more_in"
  shows "\<exists>w'. connect w = (Ret (), w')
     \<and> outq (link (plink w')) = outq (link (plink w)) @ presented op (db_name (connectConfig w)) creds
     \<and> \<not> plink_open w'"
proof -
  obtain x ts where v: "Validate w = (Ret x, w\<lparr>dialled := ts\<rparr>)" by (rule Validate_returns)
  with creds have g: "getCreds (w\<lparr>dialled := ts\<rparr>) = (Ret (Inr creds), w2)" by simp
  have le: "cli_le (w\<lparr>dialled := ts\<rparr>) w2" by (rule relatedD [OF getCreds_le g])
  then have same: "plink w2 = plink w" "connectConfig w2 = connectConfig w"
    by (cases w; cases w2; simp add: cli_le_def)+
  let ?w3 = "w2\<lparr>dialled := dialled w2 @ [JoinHostPort (Getenv (cenv w2) ''PROXY_URL'') ''7777''], plink_open := True\<rparr>"
  from presentToken_ok [of ?w3 op rs hs r more_in creds] line same obtain w4
    where p: "presentToken creds ?w3 = (Ret (), w4)"
      "outq (link (plink w4)) = outq (link (plink w)) @ presented op (db_name (connectConfig w)) creds" by auto
  with g dial show ?thesis
    by (simp add: connect_after [OF v] net_Dial_def env_var_def link_Close_def prog_simps)
qed

section \<open>Both sides\<close>

lemma chooseLogin_mapped:
  assumes "looksLikeJWT tok" and "ValidateJWT jwt_Parse tok w = (Ret (Inr ctx), v)"
    and "roleMapper v = Some rm" and "MapRoleToServiceAccount ul rm (Roles ctx) = Inr acc"
  shows "chooseLogin ul jwt_Parse user tok w = (Ret (Inr (Username acc, Password acc)), v)"
  using assms by (simp add: chooseLogin_def prog_simps)

text \<open>C5: The command line logs in to the proxy. Let \<open>connect\<close> have credentials and reach a proxy that
  answers its SSL request as its TLS configuration has it, and let this proxy receive what
  \<open>connect\<close> wrote. If the access token validates and its roles are mapped to an account, and
  PostgreSQL accepts a login as this account, then \<open>connect\<close> returns with its connection
  closed, and the proxy opens a session over TLS, or in clear without the configuration: to
  PostgreSQL goes the database of the command with the account in place of the user (and what the
  login asks for), and back to the command line first the very byte and password request
  that it went on with, so that the two runs fit.\<close>

theorem connect_opens_session:
  assumes tls: "op = (if srv_tlsConfig (srv v) then Upgraded else Refused)" "handshakeq v = Inr () # hs'"
    and creds: "getCreds (snd (Validate w)) = (Ret (Inr creds), w2)"
    and dial: "dial_err w2 (length (dialled w2)) = None" and fresh: "outq (link (plink w)) = []"
    and line: "\<forall>n. wok (link (plink w)) n" "sslq (plink w) = Inr (ssl_byte op) # rs"
      "chandshakeq (plink w) = Inr () # hs" "inq (link (plink w)) = Inr AuthenticationCleartextPassword # more_in"
    and hears: "startupq v = map Inr (List.map_filter as_startup (outq (link (plink (snd (connect w))))))"
      "inq (client v) = map Inr (List.map_filter as_message (outq (link (plink (snd (connect w)))))) @ rest"
    and contract: "parse_contract (ext_jwt_Parse ext) sig_ok"
    and conn: "pc_conn (heap (srv v) pc) = PlainTCP" "pc_poolConn (heap (srv v) pc) = NoPool" "server_wf (srv v)"
    and wok: "\<forall>n. wok (client v) n" "\<forall>n. wok (temp v) n"
    and reach: "dial_ok v (length (dials v))"
    and token: "looksLikeJWT (AccessToken creds)"
      "ValidateJWT (ext_jwt_Parse ext) (AccessToken creds) (password_world op pc rest v) = (Ret (Inr ctx), v1)"
      "roleMapper v1 = Some rm" "MapRoleToServiceAccount (ext_lower ext) rm (Roles ctx) = Inr acc"
    and msgs: "inq (temp v) = map Inr (ms @ [ReadyForQuery c]) @ mores"
    and script: "login_script (ext_scram_new ext) (ext_scram_step ext) (Username acc) (Password acc) (None, None) ms
      = Some (outs, conv, Some keyData)"
    and acq: "AcquireConnection (UserEmail (CredsUser creds)) (db_name (connectConfig w))
      (connectionString v (db_name (connectConfig w))) (poolw v) = (Ret (Inr pconn), q)"
  shows "\<exists>w' v'. connect w = (Ret (), w') \<and> \<not> plink_open w'
    \<and> handleStartupMessage ext pc PlainTCP v = (Ret (Inr (carrier op)), v')
    \<and> outq (temp v') = outq (temp v) @ SendStartup (startup_params (db_name (connectConfig w)) (Username acc)) # outs
    \<and> (\<exists>b. of_char b = ssl_byte op \<and> outq (client v') = outq (client v) @ (PlainTCP, RawByte b)
        # (carrier op, Msg AuthenticationCleartextPassword) # map (\<lambda>m. (carrier op, Msg m)) (filter forwarded ms
          @ [BackendKeyData (pcPID pconn) (pcSecret pconn), ReadyForQuery (CHR ''I'')]))"
proof -
  let ?db = "db_name (connectConfig w)" and ?email = "UserEmail (CredsUser creds)"
  let ?params = "startup_params ?db ?email"
  from connect_presents [OF creds dial line] fresh obtain w' where
    w': "connect w = (Ret (), w')" "outq (link (plink w')) = presented op ?db creds" "\<not> plink_open w'" by auto
  have start: "startupq v = [Inr SSLRequest, Inr (StartupMessage ?params)]"
    "inq (client v) = Inr (PasswordMessage (AccessToken creds)) # rest"
    using hears w'(1,2) by (simp_all add: presented_def map_filter_simps)
  with tls have opens: "opens op ?params v" by (simp split: if_splits)
  have params: "parameter ?params ''user'' = ?email" "parameter ?params ''database'' = ?db"
    "?params(''user'' \<mapsto> u) = startup_params ?db u" for u
    by (simp_all add: parameter_def startup_params_def fun_upd_twist)
  have greet: "\<exists>b. of_char b = ssl_byte op \<and> greeting op = [(PlainTCP, RawByte b)]"
    using tls(1) by (simp add: ssl_byte_def)
  from startup_ok [OF contract conn wok opens reach start(2)
      chooseLogin_mapped [OF token] msgs script, unfolded params, OF acq] w' greet show ?thesis
    by (auto simp: served_def)
qed

end
