(* ===== verification/CliSamples.thy ===== *)
theory CliSamples
  imports Present Samples
begin

text \<open>
  Concrete runs of the connect command, evaluated: the hypotheses of the theorems of
  \<open>Connect\<close> hold for them.
\<close>

definition sample_link :: "char \<Rightarrow> link_world" where
  "sample_link b = \<lparr>link = endpoint_of [Inr AuthenticationCleartextPassword],
     sslq = [Inr (of_char b)], chandshakeq = [Inr ()]\<rparr>"

text \<open>The file of the refresh sample, or none, with credentials that are good for an hour.\<close>

definition sample_connect :: "bool \<Rightarrow> char \<Rightarrow> connect_world" where
  "sample_connect logged_in b = \<lparr>cenv = [''HOME=/h'', ''PROXY_URL=p''],
     GOOS = ''linux'', cclock = (\<lambda>_. 1000 * second), cticks = 0, mkdir_err = (\<lambda>_. None),
     files = (if logged_in then [''/h/.gprxy/credentials'' \<mapsto> ''{1}''] else Map.empty),
     writes = 0, write_outcome = (\<lambda>_. Written),
     marshal = (\<lambda>c. Inr ''{1}''), unmarshal = (\<lambda>d. Inr sample_creds),
     decode_claims = (\<lambda>_. Inl (Err ''invalid'')), decode_tokens = (\<lambda>b. Inl (Err ''invalid'')),
     url_Parse = (\<lambda>u. None), http_reply = (\<lambda>_. Inl (Err ''no network'')), requests = [],
     connectConfig = \<lparr>db_name = ''db'', db_host = ''10.0.0.1'', db_port = 5432\<rparr>,
     is_ip = (\<lambda>_. True), lookup_host = (\<lambda>_. Inr []), dial_err = (\<lambda>_. None), dialled = [],
     plink = sample_link b, plink_open = False\<rparr>"

lemma sample_connect_path:
  "credentials_file (sample_connect l b) = Inr ''/h/.gprxy/credentials''"
  by (simp add: credentials_file_def sample_connect_def Getenv_def HasPrefix_def filepath_Join_def
      Clean_def Let_def)

lemma sample_connect_stored:
  "stored (sample_connect l b) = (if l then Inr sample_creds else Inl (Err ''open file''))"
  by (simp add: stored_def sample_connect_path) (simp add: sample_connect_def)

theorem connect_without_login_panics_witness:
  "fst (connect (sample_connect False (CHR ''S''))) = Panic"
proof -
  have "loadCreds (sample_connect False (CHR ''S'')) = (Ret (Inl (Err ''open file'')), sample_connect False (CHR ''S''))"
    by (simp add: loadCreds_eq sample_connect_stored)
  from connect_without_login_panics [OF this] show ?thesis by simp
qed

lemma sample_getCreds:
  "fst (getCreds ((sample_connect True b)\<lparr>dialled := ts\<rparr>)) = Ret (Inr sample_creds)"
  by (simp add: getCreds_def loadCreds_eq sample_connect_stored prog_simps time_Until_def cli_now_def)
    (simp add: sample_connect_def sample_creds_def time_Sub_def minute_def second_def)

lemma sample_connect_run:
  "\<exists>w'. connect (sample_connect True (CHR ''N'')) = (Ret (), w')
     \<and> (PlainTCP, Front (PasswordMessage ''at1'')) \<in> set (outq (link (plink w')))"
proof -
  have fields: "connectConfig (sample_connect True b) = \<lparr>db_name = ''db'', db_host = ''10.0.0.1'', db_port = 5432\<rparr>"
    "is_ip (sample_connect True b) h" "dial_err (sample_connect True b) n = None"
    "plink (sample_connect True b) = sample_link b" "dialled (sample_connect True b) = []"
    "cclock (sample_connect True b) n = 1000 * second" for b h n
    by (simp_all add: sample_connect_def)
  have creds: "CredsExpiresAt sample_creds = 5000 * second" "AccessToken sample_creds = ''at1''"
    by (simp_all add: sample_creds_def)
  have time: "\<not> time_Sub (5000 * second) (1000 * second) < 30 * minute"
    by (simp add: time_Sub_def minute_def second_def)
  show ?thesis
    by (simp add: connect_def Validate_def net_Dial_def getCreds_def loadCreds_eq sample_connect_stored
      prog_simps time_Until_def cli_now_def env_var_def link_Close_def presentToken_def on_link_def
      UpgradeToTLS_def linkSend_def linkReceive_def readByte_def clientHandshake_def ep_send_def ep_recv_def
      sample_link_def endpoint_of_def fields creds time)
qed

theorem token_in_clear_iff_witness:
  "\<exists>w' creds. connect (sample_connect True (CHR ''N'')) = (Ret (), w')
     \<and> (PlainTCP, Front (PasswordMessage (AccessToken creds))) \<in> set (outq (link (plink w')))
     \<and> fst (getCreds (snd (Validate (sample_connect True (CHR ''N''))))) = Ret (Inr creds)"
proof -
  obtain w' where w': "connect (sample_connect True (CHR ''N'')) = (Ret (), w')"
    "(PlainTCP, Front (PasswordMessage ''at1'')) \<in> set (outq (link (plink w')))"
    using sample_connect_run by blast
  have "outq (link (plink (sample_connect True (CHR ''N'')))) = []"
    by (simp add: sample_connect_def sample_link_def endpoint_of_def)
  from token_in_clear_iff [OF w'(1) this w'(2)] obtain creds where
    "fst (getCreds (snd (Validate (sample_connect True (CHR ''N''))))) = Ret (Inr creds)"
    "AccessToken creds = ''at1''" by auto
  with w' show ?thesis by (intro exI [of _ w'] exI [of _ creds]) simp
qed

theorem ssl_agreement_witness:
  "\<exists>cb w' l'. answerSSLRequest 0 PlainTCP query_world = (Ret (Inl cb), w') \<and> UpgradeToTLS (sample_link (CHR ''S'')) = (Ret (Inr cb), l')
     \<and> cb = TLSConn"
proof -
  obtain w' where a: "answerSSLRequest 0 PlainTCP query_world = (Ret (Inl TLSConn), w')"
    by (simp add: query_world_def session_defs auth_defs prog_simps)
  obtain l' where u: "UpgradeToTLS (sample_link (CHR ''S'')) = (Ret (Inr TLSConn), l')"
    by (simp add: UpgradeToTLS_def linkSend_def readByte_def clientHandshake_def ep_send_def prog_simps
        sample_link_def endpoint_of_def)
  have tls: "srv_tlsConfig (srv query_world)" by (simp add: query_world_def sample_proxy_def)
  have s: "sslq (sample_link (CHR ''S'')) = Inr (of_char (CHR ''S'')) # []" by (simp add: sample_link_def)
  from answerSSL_byte [OF a] tls
  have b: "outq (client w') = outq (client query_world)
     @ [(pc_conn (heap (srv query_world) 0), RawByte (CHR ''S''))]" by simp
  from ssl_agreement [OF a b s u] a u show ?thesis by blast
qed


section \<open>Both programs\<close>

definition token_creds :: SavedCreds where
  "token_creds = sample_creds\<lparr>AccessToken := sample_token_text\<rparr>"

definition token_connect :: connect_world where
  "token_connect = (sample_connect True (CHR ''S''))\<lparr>unmarshal := \<lambda>d. Inr token_creds\<rparr>"

definition hearing_world :: proxy_world where
  "hearing_world = (sample_proxy [SSLRequest, StartupMessage (startup_params ''db'' ''ann@x'')]
     [PasswordMessage sample_token_text] [] newConnection)\<lparr>jwtValidator := jwtValidator sample_jwt_world\<rparr>"

lemma token_connect_creds: "\<exists>w2. getCreds (snd (Validate token_connect)) = (Ret (Inr token_creds), w2)
    \<and> dial_err w2 = (\<lambda>_. None)"
proof -
  have stored: "stored token_connect = Inr token_creds"
    by (simp add: stored_def credentials_file_def token_connect_def sample_connect_def Getenv_def
        HasPrefix_def filepath_Join_def Clean_def Let_def)
  obtain x ts where v: "Validate token_connect = (Ret x, token_connect\<lparr>dialled := ts\<rparr>)"
    by (rule Validate_returns)
  have "CredsExpiresAt token_creds = 5000 * second" "cclock token_connect n = 1000 * second"
    "dial_err token_connect = (\<lambda>_. None)" for n
    by (simp_all add: token_creds_def sample_creds_def token_connect_def sample_connect_def)
  with v show ?thesis
    by (simp add: getCreds_def loadCreds_eq stored prog_simps time_Until_def cli_now_def
        time_Sub_def minute_def second_def)
qed

lemma hearing_token:
  "\<exists>v1. ValidateJWT (ext_jwt_Parse sample_ext) sample_token_text (password_world Upgraded 0 [] hearing_world)
     = (Ret (Inr sample_context), v1) \<and> roleMapper v1 = Some sample_mapper"
  by (simp add: hearing_world_def sample_proxy_def sample_ext_def password_world_def asked_def tls_world_def
      ValidateJWT_def sample_parse_def sample_token_def keyfunc_def getPublicKey_def
      cachedKey_def now_def prog_simps sample_jwt_world_def NewJWTValidator_def checkClaims_def
      sample_claims_def validateAudience_def claim_nonempty_def claim_string_def extractRoles_def map_filter_simps
      claim_time_def int64_of_def time_Unix_def wrap64_def time_Sub_def hour_def minute_def
      second_def sample_context_def)

lemma hearing_acquire:
  "\<exists>p q. AcquireConnection ''ann@x'' ''db'' (connectionString hearing_world ''db'') (poolw hearing_world)
     = (Ret (Inr p), q)"
  by (simp add: hearing_world_def sample_proxy_def sample_pools_def pool_defs prog_simps)

theorem connect_opens_session_witness:
  "\<exists>w' v'. connect token_connect = (Ret (), w')
     \<and> handleStartupMessage sample_ext 0 PlainTCP hearing_world = (Ret (Inr TLSConn), v')
     \<and> outq (temp v') = [SendStartup (startup_params ''db'' ''postgres'')]"
proof -
  let ?acc = "\<lparr>Username = ''postgres'', Password = ''s3:cret'', Role = ''admin''\<rparr>"
  obtain w2 where g: "getCreds (snd (Validate token_connect)) = (Ret (Inr token_creds), w2)"
    "dial_err w2 (length (dialled w2)) = None"
    using token_connect_creds by auto
  have l: "outq (link (plink token_connect)) = []" "\<forall>n. wok (link (plink token_connect)) n"
    "sslq (plink token_connect) = Inr (ssl_byte Upgraded) # []" "chandshakeq (plink token_connect) = Inr () # []"
    "inq (link (plink token_connect)) = Inr AuthenticationCleartextPassword # []"
    "db_name (connectConfig token_connect) = ''db''"
    by (simp_all add: token_connect_def sample_connect_def sample_link_def endpoint_of_def ssl_byte_def)
  have c: "UserEmail (CredsUser token_creds) = ''ann@x''" "AccessToken token_creds = sample_token_text"
    by (simp_all add: token_creds_def sample_creds_def)
  have out: "outq (link (plink (snd (connect token_connect)))) = presented Upgraded ''db'' token_creds"
    using connect_presents [OF g l(2-5)] l(1,6) by auto
  have h: "startupq hearing_world = map Inr (List.map_filter as_startup (outq (link (plink (snd (connect token_connect))))))"
    "inq (client hearing_world) = map Inr (List.map_filter as_message (outq (link (plink (snd (connect token_connect)))))) @ []"
    unfolding out by (simp_all add: presented_def c map_filter_simps hearing_world_def sample_proxy_def endpoint_of_def)
  have f: "pc_conn (heap (srv hearing_world) 0) = PlainTCP" "pc_poolConn (heap (srv hearing_world) 0) = NoPool"
    "server_wf (srv hearing_world)" "\<forall>n. wok (client hearing_world) n" "\<forall>n. wok (temp hearing_world) n"
    "Upgraded = (if srv_tlsConfig (srv hearing_world) then Upgraded else Refused)" "handshakeq hearing_world = Inr () # []"
    "dial_ok hearing_world (length (dials hearing_world))" "outq (temp hearing_world) = []"
    "inq (temp hearing_world) = map Inr ([AuthenticationOk, BackendKeyData 77 99] @ [ReadyForQuery (CHR ''I'')]) @ []"
    by (simp_all add: hearing_world_def sample_proxy_def endpoint_of_def newConnection_def server_wf_def
        conn_typed_def sample_pool_conn_def)
  obtain v1 where t: "ValidateJWT (ext_jwt_Parse sample_ext) (AccessToken token_creds) (password_world Upgraded 0 [] hearing_world)
     = (Ret (Inr sample_context), v1)" "roleMapper v1 = Some sample_mapper"
    using hearing_token c by auto
  have j: "looksLikeJWT (AccessToken token_creds)"
    by (simp add: c sample_token_text_def looksLikeJWT_def HasPrefix_def CountByte_def)
  have m: "MapRoleToServiceAccount (ext_lower sample_ext) sample_mapper (Roles sample_context) = Inr ?acc"
    using sample_roles by (simp add: sample_ext_def sample_context_def)
  have s: "login_script (ext_scram_new sample_ext) (ext_scram_step sample_ext) (Username ?acc) (Password ?acc)
      (None, None) [AuthenticationOk, BackendKeyData 77 99] = Some ([], None, Some (77, 99))"
    by (simp add: login_reply_def)
  obtain p q where a: "AcquireConnection (UserEmail (CredsUser token_creds)) (db_name (connectConfig token_connect))
      (connectionString hearing_world (db_name (connectConfig token_connect))) (poolw hearing_world) = (Ret (Inr p), q)"
    unfolding c(1) l(6) using hearing_acquire by blast
  from connect_opens_session [OF f(6,7) g l(1-5) h sample_ext_contract f(1-5) f(8) j t m f(10) s a] show ?thesis
    by (auto simp: f(9) l(6))
qed

end
