(* ===== verification/Start.thy ===== *)
theory Start
  imports Logger Tls Accept Authenticator
begin

text \<open>
  The entry points: \<open>main.go\<close>, the root command (\<open>internal/cli/root.go\<close>) and the command
  that starts the proxy (\<open>internal/cli/start.go\<close>). The dispatch of cobra is the parameter
  \<open>run\<close>; what \<open>Server.Start\<close> does is the theory \<open>Accept\<close>, here only its result matters.
\<close>

section \<open>root.go and main.go\<close>

record 'a process =
  plog :: "'a log_state"
  version :: string
  rootVersion :: string

definition SetVersion :: "string \<Rightarrow> ('a process, unit) prog" where
  "SetVersion v = modify (\<lambda>p. p\<lparr>version := v, rootVersion := v\<rparr>)"

definition CliExecute :: "('a process, error + unit) prog \<Rightarrow> ('a process, unit) prog" where
  "CliExecute run = ifErr run
     (\<lambda>e. andThen (zoom plog plog_update (Fatal ''gprxy cli startup failed : %v'' [])) (\<lambda>_. exit))
     (\<lambda>_. ret ())"

definition main :: "(environ \<Rightarrow> environ option) \<Rightarrow> environ \<Rightarrow> string \<Rightarrow>
    ('a process, error + unit) prog \<Rightarrow> ('a process, unit) prog" where
  "main dotenv env Version run =
    andThen (SetVersion Version) (\<lambda>_.
    andThen (zoom plog plog_update (InitFromEnv dotenv env)) (\<lambda>_.
    CliExecute run))"

section \<open>start.go\<close>

text \<open>\<open>served\<close> lists the servers whose \<open>Start\<close> was called.\<close>

record start_world = auth_world +
  served :: "Server list"

definition server_Start :: "(Server \<Rightarrow> error + unit) \<Rightarrow> Server \<Rightarrow>
    ('a start_world_scheme, error + unit) prog" where
  "server_Start listenAndServe s = andThen (modify (served_update (\<lambda>ss. ss @ [s]))) (\<lambda>_. ret (listenAndServe s))"

text \<open>
  \<open>dotenv\<close> is \<open>godotenv.Load\<close>, \<open>keypair\<close> is \<open>tls.LoadX509KeyPair\<close>, \<open>env\<close> the environment
  of the process; \<open>tls.Load\<close> and \<open>config.Load\<close> both load the file. \<open>log.Fatal\<close> is \<open>Exit\<close>.
\<close>

definition startProxyServer :: "(string \<Rightarrow> string) \<Rightarrow> (environ \<Rightarrow> environ option) \<Rightarrow>
    (string \<Rightarrow> string \<Rightarrow> error + 'cert) \<Rightarrow> (Server \<Rightarrow> error + unit) \<Rightarrow> environ \<Rightarrow>
    ('a start_world_scheme, unit) prog" where
  "startProxyServer ul dotenv keypair listenAndServe env =
    (let auth0Tenant = Getenv env ''AUTH0_TENANT''; aud = Getenv env ''AUDIENCE'' in
     if auth0Tenant = '''' \<or> aud = '''' then exit
     else
     let iss = ''https://'' @ auth0Tenant @ ''/'';
         jwksurl = ''https://'' @ auth0Tenant @ ''/.well-known/jwks.json'' in
     ifErr (InitializeAuth ul env iss aud jwksurl) (\<lambda>e. exit) (\<lambda>_.
     andThen (\<lambda>w. (tls_Load dotenv keypair env, w)) (\<lambda>tlsConfig.
     case Load dotenv (case dotenv env of None \<Rightarrow> env | Some e \<Rightarrow> e) of
       Inl e \<Rightarrow> exit
     | Inr cfg \<Rightarrow>
         ifErr (server_Start listenAndServe (NewServer cfg (tlsConfig \<noteq> None))) (\<lambda>e. exit) (\<lambda>_. ret ()))))"

section \<open>Properties\<close>

text \<open>C28: No server without its configuration. \<open>gprxy start\<close> either ends the process before a
  server is started, or it starts exactly one: then the tenant and the audience are set, the token
  validator has the issuer and key URL of this tenant and this audience, the role mapping of
  the environment is loaded, the listen host and port, the database host and the service
  credentials are the ones of the environment and its \<open>.env\<close> file (with the code's defaults for
  host, port and database host, and no field empty), and TLS is on exactly if certificate
  and key are configured.\<close>

theorem start_configured:
  assumes "startProxyServer ul dotenv keypair listenAndServe env w = (out, w')"
  shows "let env' = (case dotenv env of None \<Rightarrow> env | Some e \<Rightarrow> e);
       env'' = (case dotenv env' of None \<Rightarrow> env' | Some e \<Rightarrow> e) in
     served w' = served w \<and> out = Exit
   \<or> (\<exists>s rm. served w' = served w @ [s] \<and> configured env'' (srv_config s) \<and> config_ok (srv_config s)
        \<and> activeConnections s = []
        \<and> Getenv env ''AUTH0_TENANT'' \<noteq> '''' \<and> Getenv env ''AUDIENCE'' \<noteq> ''''
        \<and> issuer (jwtValidator w') = ''https://'' @ Getenv env ''AUTH0_TENANT'' @ ''/''
        \<and> jwksURL (jwtValidator w') = issuer (jwtValidator w') @ ''.well-known/jwks.json''
        \<and> audience (jwtValidator w') = Getenv env ''AUDIENCE''
        \<and> NewRoleMapper ul env = Inr rm \<and> roleMapper w' = Some rm
        \<and> srv_tlsConfig s = (Getenv env' ''PROXY_CERT'' \<noteq> '''' \<and> Getenv env' ''PROXY_KEY'' \<noteq> '''')
        \<and> out = (case listenAndServe s of Inl e \<Rightarrow> Exit | Inr _ \<Rightarrow> Ret ()))"
proof (cases "Getenv env ''AUTH0_TENANT'' = '''' \<or> Getenv env ''AUDIENCE'' = ''''")
  case True
  with assms show ?thesis by (auto simp: startProxyServer_def prog_simps Let_def)
next
  case False
  let ?env = "case dotenv env of None \<Rightarrow> env | Some e \<Rightarrow> e"
  let ?env2 = "case dotenv ?env of None \<Rightarrow> ?env | Some e \<Rightarrow> e"
  show ?thesis
  proof (cases "NewRoleMapper ul env")
    case (Inl e)
    with False assms show ?thesis
      by (auto simp: startProxyServer_def InitializeAuth_def prog_simps Let_def)
  next
    case (Inr rm)
    note start = startProxyServer_def InitializeAuth_def prog_simps Inr Let_def
    show ?thesis
    proof (cases "tls_Load dotenv keypair env")
      case (Ret tlsConfig)
      then have tls: "(tlsConfig \<noteq> None) = (Getenv ?env ''PROXY_CERT'' \<noteq> '''' \<and> Getenv ?env ''PROXY_KEY'' \<noteq> '''')"
        by (auto simp: tls_Load_def Let_def split: if_splits sum.splits)
      show ?thesis
      proof (cases "Load dotenv ?env")
        case (Inl e)
        with False Ret assms show ?thesis by (auto simp: start)
      next
        case load: (Inr cfg)
        let ?s = "NewServer cfg (tlsConfig \<noteq> None)"
        have "served w' = served w @ [?s] \<and> roleMapper w' = Some rm
            \<and> jwtValidator w' = NewJWTValidator (''https://'' @ Getenv env ''AUTH0_TENANT'' @ ''/'')
                (Getenv env ''AUDIENCE'') (''https://'' @ Getenv env ''AUTH0_TENANT'' @ ''/.well-known/jwks.json'')
            \<and> out = (case listenAndServe ?s of Inl e \<Rightarrow> Exit | Inr _ \<Rightarrow> Ret ())"
          using False Ret load assms
          by (cases "listenAndServe ?s") (auto simp: start server_Start_def)
        moreover have "config_ok (srv_config ?s)" "configured ?env2 (srv_config ?s)" "activeConnections ?s = []" "srv_tlsConfig ?s = (tlsConfig \<noteq> None)"
          using Load_cases [OF load] by (simp_all add: NewServer_def)
        ultimately show ?thesis using False Inr tls
          unfolding Let_def by (intro disjI2 exI [of _ ?s] exI [of _ rm]) (simp add: NewJWTValidator_def)
      qed
    qed (use False assms in \<open>auto simp: start tls_Load_def Let_def split: if_splits sum.splits\<close>)
  qed
qed

section \<open>An instance\<close>

definition start_env :: environ where
  "start_env = [''AUTH0_TENANT=t'', ''AUDIENCE=g'', ''ROLE_MAPPING_ADMIN=postgres:pw'',
     ''GPRXY_USER=app'', ''GPRXY_PASS=pw'']"

lemma start_env_vars:
  "Getenv start_env ''AUTH0_TENANT'' = ''t''" "Getenv start_env ''AUDIENCE'' = ''g''"
  "Getenv start_env ''GPRXY_USER'' = ''app''" "Getenv start_env ''GPRXY_PASS'' = ''pw''"
  "Getenv start_env ''PROXY_CERT'' = ''''"
  by (simp_all add: start_env_def Getenv_def HasPrefix_def)

lemma start_env_roles: "\<exists>rm. NewRoleMapper (\<lambda>s. s) start_env = Inr rm"
proof -
  have "mappings (\<lambda>s. s) start_env =
      [(''admin'', \<lparr>Username = ''postgres'', Password = ''pw'', Role = ''admin''\<rparr>)]"
    by code_simp
  then show ?thesis by (simp add: NewRoleMapper_spec)
qed

theorem start_configured_witness:
  "\<exists>w' s. startProxyServer (\<lambda>s. s) (\<lambda>_. None) (\<lambda>_ _. Inr ()) (\<lambda>_. Inr ()) start_env
       (auth_world.extend sample_auth_world \<lparr>served = []\<rparr>) = (Ret (), w')
     \<and> served w' = [s] \<and> configured start_env (srv_config s)"
proof -
  let ?w = "auth_world.extend sample_auth_world \<lparr>served = []\<rparr> :: start_world"
  obtain rm where rm: "NewRoleMapper (\<lambda>s. s) start_env = Inr rm" using start_env_roles by blast
  have init: "served ?w = []" by (simp add: auth_world.defs sample_auth_world_def jwt_world.defs)
  obtain w' where s: "startProxyServer (\<lambda>s. s) (\<lambda>_. None) (\<lambda>_ _. Inr ()) (\<lambda>_. Inr ()) start_env ?w = (Ret (), w')"
    by (simp add: startProxyServer_def InitializeAuth_def server_Start_def Let_def start_env_vars rm
        tls_Load_def Load_def prog_simps)
  from start_configured [OF s] init s show ?thesis by (auto simp: Let_def)
qed

end
